theory Spec2Isabelle
  imports Complex_Main "HOL-Library.Word" "HOL-Library.Sublist" "HOL-Library.Log_Nat"
begin

text \<open>
  A shallow embedding of the watermark remover: the mask history and the brush strokes of
  the mask selector (\<open>hero.tsx\<close>), the tensor marshalling, the model loader and the
  worker's message handler (\<open>image-processing.ts\<close>), and the head tags (\<open>seo.ts\<close>).
  What the browser and the inference engine do (canvases, \<open>fetch\<close>, IndexedDB, the
  settling of promises, \<open>session.run\<close>, \<open>URL\<close>, \<open>Date\<close>, \<open>JSON.stringify\<close>) enters
  as explicit outcomes or as small models of the platform functions; a thrown value is
  the left summand of a result. The definitions come first, the properties after them.
\<close>

section \<open>JavaScript numbers\<close>

text \<open>
  A Number is \<open>NaN\<close>, one of the two infinities, or a finite double; a finite double is
  represented by the real number it denotes, and the two zeros are not told apart (no
  operation of the program below depends on the sign of a zero: its divisors are the
  constants 255 and 2, a positive content length, a quarter of the brush size and a
  positive step count). Every arithmetic operation computes the exact result and rounds
  it to the nearest double, ties to even, as IEEE 754 prescribes; storing into a
  \<open>Float32Array\<close> rounds to the nearest single in the same way.
\<close>

datatype number = NaN | NegInfinity | Num real | Infinity

definition pow2 :: "int \<Rightarrow> real" where
  "pow2 e = 2 powi e"

text \<open>The binary exponent of a positive real \<open>x\<close>: \<open>pow2 (ilog2 x) \<le> x < pow2 (ilog2 x + 1)\<close>.\<close>

definition ilog2 :: "real \<Rightarrow> int" where
  "ilog2 x = (if 1 \<le> x then bitlen \<lfloor>x\<rfloor> - 1 else - bitlen (\<lceil>1 / x\<rceil> - 1))"

text \<open>The nearest integer, the even one of two that are equally near.\<close>

definition roundEven :: "real \<Rightarrow> int" where
  "roundEven x =
     (let n = \<lfloor>x\<rfloor>; d = x - of_int n
      in if d < 1 / 2 then n else if 1 / 2 < d then n + 1 else if even n then n else n + 1)"

text \<open>
  A binary format has \<open>p\<close> significant bits and normal exponents from \<open>emin\<close> to
  \<open>emax\<close>. Around \<open>x\<close> its values are the multiples of \<open>ulp p emin x\<close> (below
  \<open>pow2 emin\<close> the spacing of the subnormal values); \<open>nearest\<close> rounds to them, and
  \<open>roundTo\<close> turns a result beyond the largest finite value into an infinity.
\<close>

definition ulp :: "nat \<Rightarrow> int \<Rightarrow> real \<Rightarrow> real" where
  "ulp p emin x = pow2 (max (ilog2 \<bar>x\<bar>) emin - int p + 1)"

definition nearest :: "nat \<Rightarrow> int \<Rightarrow> real \<Rightarrow> real" where
  "nearest p emin x = (if x = 0 then 0 else of_int (roundEven (x / ulp p emin x)) * ulp p emin x)"

definition roundTo :: "nat \<Rightarrow> int \<Rightarrow> int \<Rightarrow> real \<Rightarrow> number" where
  "roundTo p emin emax x =
     (let y = nearest p emin x
      in if pow2 (emax + 1) \<le> \<bar>y\<bar> then (if y < 0 then NegInfinity else Infinity) else Num y)"

definition binary64 :: "real \<Rightarrow> number" where
  "binary64 x = roundTo 53 (- 1022) 1023 x"

definition binary32 :: "real \<Rightarrow> number" where
  "binary32 x = roundTo 24 (- 126) 127 x"

text \<open>\<open>- a\<close>, \<open>a + b\<close>, \<open>a - b\<close>, \<open>a * b\<close>, \<open>a / b\<close>.\<close>

fun num_neg :: "number \<Rightarrow> number" where
  "num_neg NaN = NaN"
| "num_neg NegInfinity = Infinity"
| "num_neg (Num x) = Num (- x)"
| "num_neg Infinity = NegInfinity"

fun num_add :: "number \<Rightarrow> number \<Rightarrow> number" where
  "num_add (Num x) (Num y) = binary64 (x + y)"
| "num_add NaN b = NaN"
| "num_add a NaN = NaN"
| "num_add Infinity NegInfinity = NaN"
| "num_add NegInfinity Infinity = NaN"
| "num_add Infinity b = Infinity"
| "num_add NegInfinity b = NegInfinity"
| "num_add (Num x) b = b"

definition num_sub :: "number \<Rightarrow> number \<Rightarrow> number" where
  "num_sub a b = num_add a (num_neg b)"

fun num_mul :: "number \<Rightarrow> number \<Rightarrow> number" where
  "num_mul (Num x) (Num y) = binary64 (x * y)"
| "num_mul NaN b = NaN"
| "num_mul a NaN = NaN"
| "num_mul (Num x) b = (if x = 0 then NaN else if 0 < x then b else num_neg b)"
| "num_mul a (Num y) = (if y = 0 then NaN else if 0 < y then a else num_neg a)"
| "num_mul Infinity b = b"
| "num_mul NegInfinity b = num_neg b"

fun num_div :: "number \<Rightarrow> number \<Rightarrow> number" where
  "num_div (Num x) (Num y) =
     (if y = 0 then (if x = 0 then NaN else if 0 < x then Infinity else NegInfinity)
      else binary64 (x / y))"
| "num_div NaN b = NaN"
| "num_div a NaN = NaN"
| "num_div (Num x) b = Num 0"
| "num_div a (Num y) = (if 0 \<le> y then a else num_neg a)"
| "num_div a b = NaN"

text \<open>\<open>a < b\<close> and \<open>a <= b\<close> (so \<open>a > b\<close> is \<open>num_lt b a\<close> and \<open>a >= b\<close> is
  \<open>num_le b a\<close>); every comparison with \<open>NaN\<close> is false.\<close>

fun num_lt :: "number \<Rightarrow> number \<Rightarrow> bool" where
  "num_lt (Num x) (Num y) = (x < y)"
| "num_lt NaN b = False"
| "num_lt a NaN = False"
| "num_lt NegInfinity b = (b \<noteq> NegInfinity)"
| "num_lt a Infinity = (a \<noteq> Infinity)"
| "num_lt a b = False"

fun num_le :: "number \<Rightarrow> number \<Rightarrow> bool" where
  "num_le (Num x) (Num y) = (x \<le> y)"
| "num_le NaN b = False"
| "num_le a NaN = False"
| "num_le NegInfinity b = True"
| "num_le a Infinity = True"
| "num_le a b = False"

text \<open>\<open>Math.sqrt\<close> (correctly rounded), \<open>Math.floor\<close>, and \<open>Math.round\<close>, which rounds
  a tie upwards.\<close>

fun Math_sqrt :: "number \<Rightarrow> number" where
  "Math_sqrt (Num x) = (if x < 0 then NaN else binary64 (sqrt x))"
| "Math_sqrt Infinity = Infinity"
| "Math_sqrt a = NaN"

fun Math_floor :: "number \<Rightarrow> number" where
  "Math_floor (Num x) = Num (of_int \<lfloor>x\<rfloor>)"
| "Math_floor a = a"

fun Math_round :: "number \<Rightarrow> number" where
  "Math_round (Num x) = Num (of_int \<lfloor>x + 1 / 2\<rfloor>)"
| "Math_round a = a"

text \<open>\<open>Math.min(...)\<close> and \<open>Math.max(...)\<close> of any number of arguments: \<open>Infinity\<close> and
  \<open>-Infinity\<close> for none, \<open>NaN\<close> as soon as one argument is \<open>NaN\<close>.\<close>

fun smallerOf :: "number \<Rightarrow> number \<Rightarrow> number" where
  "smallerOf NaN b = NaN"
| "smallerOf a NaN = NaN"
| "smallerOf a b = (if num_lt a b then a else b)"

fun largerOf :: "number \<Rightarrow> number \<Rightarrow> number" where
  "largerOf NaN b = NaN"
| "largerOf a NaN = NaN"
| "largerOf a b = (if num_lt b a then a else b)"

definition Math_min :: "number list \<Rightarrow> number" where
  "Math_min xs = fold smallerOf xs Infinity"

definition Math_max :: "number list \<Rightarrow> number" where
  "Math_max xs = fold largerOf xs NegInfinity"

text \<open>The value a \<open>Float32Array\<close> element holds after a store (\<open>Math.fround\<close>), and the
  byte a \<open>Uint8ClampedArray\<close> element holds after one.\<close>

fun Math_fround :: "number \<Rightarrow> number" where
  "Math_fround (Num x) = binary32 x"
| "Math_fround a = a"

fun toUint8Clamp :: "number \<Rightarrow> 8 word" where
  "toUint8Clamp (Num x) =
     (if x \<le> 0 then 0 else if 255 \<le> x then 255 else word_of_int (roundEven x))"
| "toUint8Clamp Infinity = 255"
| "toUint8Clamp a = 0"

section \<open>Mask history of the watermark selector (hero.tsx)\<close>


















section \<open>Tensor marshalling (image-processing.ts)\<close>

text \<open>
  An \<open>ImageData\<close> buffer is a \<open>Uint8ClampedArray\<close> of RGBA bytes. The data of a tensor
  is a \<open>Float32Array\<close>: a list of numbers, each the result of a store (\<open>Math_fround\<close>)
  or a value the inference engine produced. A typed-array read outside the array yields
  \<open>undefined\<close>, which is \<open>NaN\<close> in arithmetic and false in a comparison.
\<close>

type_synonym byte = "8 word"

record image_data =
  img_width :: nat
  img_height :: nat
  img_data :: "byte list"

record tensor =
  t_data :: "number list"
  t_dims :: "nat list option"

datatype thrown = Error string | NotAnError

definition INPUT_SIZE :: nat where
  "INPUT_SIZE = 512"

text \<open>\<open>for (let i = lo; i < n; i++) body\<close> on a state \<open>'s\<close>.\<close>

function forLoop :: "nat \<Rightarrow> nat \<Rightarrow> (nat \<Rightarrow> 's \<Rightarrow> 's) \<Rightarrow> 's \<Rightarrow> 's" where
  "forLoop i n body s = (if i < n then forLoop (i + 1) n body (body i s) else s)"
  by pat_completeness auto
termination
  by (relation "measure (\<lambda>(i, n, body, s). n - i)") auto

declare forLoop.simps [simp del]

text \<open>The typed-array reads \<open>data[i]\<close> as numbers.\<close>

definition byteValue :: "byte \<Rightarrow> real" where
  "byteValue w = real (unat w)"

definition u8_at :: "byte list \<Rightarrow> nat \<Rightarrow> number" where
  "u8_at xs i = (if i < length xs then Num (byteValue (xs ! i)) else NaN)"

definition f32_at :: "number list \<Rightarrow> nat \<Rightarrow> number" where
  "f32_at xs i = (if i < length xs then xs ! i else NaN)"

subsection \<open>The worker's \<open>createMaskedInputTensors\<close>\<close>

record masked_build =
  imageTensorData :: "number list"
  maskTensorData :: "number list"
  whiteCount :: nat
  blackCount :: nat

text \<open>One iteration of the loop over the pixels of the rescaled image and mask.\<close>

definition maskedPixel :: "nat \<Rightarrow> byte list \<Rightarrow> byte list \<Rightarrow> nat \<Rightarrow> masked_build \<Rightarrow> masked_build" where
  "maskedPixel sz imgData mskData i b =
     (let maskVal = (if num_lt (Num 127) (u8_at mskData (i * 4)) then Num 1 else Num 0);
          b1 = b\<lparr>maskTensorData := (maskTensorData b)[i := Math_fround maskVal]\<rparr>
      in if maskVal = Num 1
         then b1\<lparr>whiteCount := whiteCount b1 + 1,
                 imageTensorData :=
                   (imageTensorData b1)
                     [i := Math_fround (Num 0),
                      i + sz * sz := Math_fround (Num 0),
                      i + 2 * sz * sz := Math_fround (Num 0)]\<rparr>
         else b1\<lparr>blackCount := blackCount b1 + 1,
                 imageTensorData :=
                   (imageTensorData b1)
                     [i := Math_fround (num_div (u8_at imgData (i * 4)) (Num 255)),
                      i + sz * sz := Math_fround (num_div (u8_at imgData (i * 4 + 1)) (Num 255)),
                      i + 2 * sz * sz :=
                        Math_fround (num_div (u8_at imgData (i * 4 + 2)) (Num 255))]\<rparr>)"

definition buildMaskedTensors :: "nat \<Rightarrow> byte list \<Rightarrow> byte list \<Rightarrow> masked_build" where
  "buildMaskedTensors sz imgData mskData =
     forLoop 0 (sz * sz) (maskedPixel sz imgData mskData)
       \<lparr>imageTensorData = replicate (3 * sz * sz) (Num 0),
        maskTensorData = replicate (sz * sz) (Num 0),
        whiteCount = 0, blackCount = 0\<rparr>"

record masked_tensors =
  imageTensor :: tensor
  maskTensor :: tensor

text \<open>
  What the platform does for one \<open>process\<close> request: whether each
  \<open>getContext("2d")\<close> yields a context, the outcome of \<open>createImageBitmap\<close>, the
  pixels \<open>getImageData(0, 0, size, size)\<close> reads back after \<open>drawImage(bitmap, 0, 0,
  size, size)\<close> (\<open>4 * size * size\<close> bytes), and the final redraw of the 512 by 512
  canvas at the original size followed by \<open>getImageData\<close>.
\<close>

record process_env =
  imageCtxOk :: bool
  maskCtxOk :: bool
  createImageBitmap :: "image_data \<Rightarrow> thrown + image_data"
  drawScaled :: "image_data \<Rightarrow> nat \<Rightarrow> byte list"
  outCtxOk :: bool
  resultCtxOk :: bool
  drawResult :: "byte list \<Rightarrow> nat \<Rightarrow> nat \<Rightarrow> thrown + image_data"

definition createMaskedInputTensors ::
  "process_env \<Rightarrow> image_data \<Rightarrow> image_data \<Rightarrow> nat \<Rightarrow> thrown + masked_tensors" where
  "createMaskedInputTensors env imageData maskData sz =
     (if \<not> imageCtxOk env then Inl (Error ''Failed to get image canvas context'')
      else if \<not> maskCtxOk env then Inl (Error ''Failed to get mask canvas context'')
      else case createImageBitmap env imageData of
             Inl e \<Rightarrow> Inl e
           | Inr imageBitmap \<Rightarrow>
               (case createImageBitmap env maskData of
                  Inl e \<Rightarrow> Inl e
                | Inr maskBitmap \<Rightarrow>
                    (let b = buildMaskedTensors sz (drawScaled env imageBitmap sz)
                               (drawScaled env maskBitmap sz)
                     in Inr \<lparr>imageTensor =
                               \<lparr>t_data = imageTensorData b, t_dims = Some [1, 3, sz, sz]\<rparr>,
                             maskTensor =
                               \<lparr>t_data = maskTensorData b, t_dims = Some [1, 1, sz, sz]\<rparr>\<rparr>)))"

subsection \<open>From the output tensor back to pixels\<close>

text \<open>\<open>Math.round(Math.max(0, Math.min(255, v * 255)))\<close> stored into a
  \<open>Uint8ClampedArray\<close>.\<close>

definition toChannel :: "number \<Rightarrow> byte" where
  "toChannel v =
     toUint8Clamp (Math_round (Math_max [Num 0, Math_min [Num 255, num_mul v (Num 255)]]))"

text \<open>The range flags; a decimal literal denotes the double nearest to it.\<close>

definition isNormalized11 :: "number \<Rightarrow> number \<Rightarrow> bool" where
  "isNormalized11 minVal maxVal \<longleftrightarrow>
     num_le (num_neg (binary64 (11 / 10))) minVal \<and> num_le maxVal (binary64 (11 / 10)) \<and>
     num_lt minVal (num_neg (binary64 (1 / 10)))"

definition is0255 :: "number \<Rightarrow> bool" where
  "is0255 maxVal \<longleftrightarrow>
     num_lt (binary64 (11 / 10)) maxVal \<and> num_le maxVal (binary64 (511 / 2))"

text \<open>One iteration of the conversion loop of \<open>tensorToImageData\<close>.\<close>

definition rangedPixel :: "number list \<Rightarrow> number \<Rightarrow> number \<Rightarrow> nat \<Rightarrow> byte list \<Rightarrow> byte list" where
  "rangedPixel dat minVal maxVal i out =
     (let channelSize = INPUT_SIZE * INPUT_SIZE;
          r = f32_at dat i;
          g = f32_at dat (i + channelSize);
          b = f32_at dat (i + 2 * channelSize);
          (r, g, b) =
            (if isNormalized11 minVal maxVal
             then (num_div (num_add r (Num 1)) (Num 2), num_div (num_add g (Num 1)) (Num 2),
                   num_div (num_add b (Num 1)) (Num 2))
             else if is0255 maxVal
             then (num_div r (Num 255), num_div g (Num 255), num_div b (Num 255))
             else (r, g, b))
      in out[i * 4 := toChannel r, i * 4 + 1 := toChannel g,
             i * 4 + 2 := toChannel b, i * 4 + 3 := 255])"

text \<open>\<open>JSON.stringify(dims)\<close> inside the error message.\<close>

fun showNat :: "nat \<Rightarrow> string" where
  "showNat n =
     (if n < 10 then [''0123456789'' ! n]
      else showNat (n div 10) @ [''0123456789'' ! (n mod 10)])"

fun joinWith :: "string \<Rightarrow> string list \<Rightarrow> string" where
  "joinWith sep [] = []"
| "joinWith sep [x] = x"
| "joinWith sep (x # y # ys) = x @ sep @ joinWith sep (y # ys)"

definition stringifyDims :: "nat list option \<Rightarrow> string" where
  "stringifyDims dims =
     (case dims of
        None \<Rightarrow> ''undefined''
      | Some ds \<Rightarrow> ''['' @ joinWith '','' (map showNat ds) @ '']'')"

text \<open>The guard both converters start with:
  \<open>!dims || dims.length !== 4 || dims[0] !== 1 || dims[1] !== 3\<close>.\<close>

definition unexpectedFormat :: "nat list option \<Rightarrow> bool" where
  "unexpectedFormat dims =
     (case dims of
        None \<Rightarrow> True
      | Some ds \<Rightarrow> length ds \<noteq> 4 \<or> ds ! 0 \<noteq> 1 \<or> ds ! 1 \<noteq> 3)"

definition tensorToImageData ::
  "process_env \<Rightarrow> tensor \<Rightarrow> nat \<Rightarrow> nat \<Rightarrow> number \<Rightarrow> number \<Rightarrow> thrown + image_data" where
  "tensorToImageData env t originalWidth originalHeight minVal maxVal =
     (if unexpectedFormat (t_dims t)
      then Inl (Error (''Unexpected tensor format: '' @ stringifyDims (t_dims t)))
      else if \<not> outCtxOk env then Inl (Error ''Failed to get canvas context'')
      else let pixels = forLoop 0 (INPUT_SIZE * INPUT_SIZE)
                          (rangedPixel (t_data t) minVal maxVal)
                          (replicate (4 * INPUT_SIZE * INPUT_SIZE) 0)
           in if \<not> resultCtxOk env then Inl (Error ''Failed to get result canvas context'')
              else drawResult env pixels originalWidth originalHeight)"

subsection \<open>The main-thread \<open>tensorToImage\<close>\<close>

definition plainPixel :: "number list \<Rightarrow> nat \<Rightarrow> byte list \<Rightarrow> byte list" where
  "plainPixel dat i out =
     (let channelSize = INPUT_SIZE * INPUT_SIZE;
          r = toChannel (f32_at dat i);
          g = toChannel (f32_at dat (i + channelSize));
          b = toChannel (f32_at dat (i + 2 * channelSize))
      in out[i * 4 := r, i * 4 + 1 := g, i * 4 + 2 := b, i * 4 + 3 := 255])"

text \<open>The document's canvases: the two contexts, and the redraw at the original size
  followed by \<open>toDataURL("image/png")\<close>.\<close>

record canvas_env =
  canvasCtxOk :: bool
  resultCanvasCtxOk :: bool
  drawToDataURL :: "byte list \<Rightarrow> nat \<Rightarrow> nat \<Rightarrow> string"

definition tensorToImage :: "canvas_env \<Rightarrow> tensor \<Rightarrow> nat \<Rightarrow> nat \<Rightarrow> thrown + string" where
  "tensorToImage env t originalWidth originalHeight =
     (if unexpectedFormat (t_dims t)
      then Inl (Error (''Unexpected tensor format: '' @ stringifyDims (t_dims t)))
      else if \<not> canvasCtxOk env then Inl (Error ''Failed to get canvas context'')
      else let pixels = forLoop 0 (INPUT_SIZE * INPUT_SIZE) (plainPixel (t_data t))
                          (replicate (4 * INPUT_SIZE * INPUT_SIZE) 0)
           in if \<not> resultCanvasCtxOk env then Inl (Error ''Failed to get result canvas context'')
              else Inr (drawToDataURL env pixels originalWidth originalHeight))"

section \<open>Model loading and the worker's message handler (image-processing.ts)\<close>

text \<open>
  An inference session offers its declared input and output names and \<open>run\<close>, which
  maps named input tensors to named output tensors or throws.
\<close>

record session =
  sess_inputNames :: "string list"
  sess_outputNames :: "string list"
  sess_run :: "(string \<rightharpoonup> tensor) \<Rightarrow> thrown + (string \<rightharpoonup> tensor)"

text \<open>
  What the platform does during one load attempt: \<open>loadModelFromCache()\<close> (cached
  bytes, \<open>null\<close>, or a rejection), \<open>fetch(MODEL_URL)\<close>, \<open>saveModelToCache\<close> and
  \<open>ort.InferenceSession.create\<close>. A response carries \<open>ok\<close>, \<open>status\<close>,
  \<open>statusText\<close>, the number \<open>total\<close> read from its content-length header (0 when
  the header is absent or is not a positive number) and its body: \<open>None\<close> for
  \<open>null\<close>, else the chunks its reader yields and the error of a read that rejects
  after them, if any. Every awaited operation is taken to settle.
\<close>

record fetch_response =
  resp_ok :: bool
  resp_status :: nat
  resp_statusText :: string
  resp_total :: nat
  resp_body :: "(byte list list \<times> thrown option) option"

record load_env =
  loadModelFromCache :: "thrown + byte list option"
  fetchModel :: "thrown + fetch_response"
  saveModelToCache :: "thrown + unit"
  createSession :: "byte list \<Rightarrow> thrown + session"

datatype exec_context = MainThread | Worker

definition MODEL_URL :: string where
  "MODEL_URL = ''/models/lama_fp32.onnx''"

text \<open>The message of the error thrown on status 404, which differs between the two
  copies of \<open>downloadModel\<close>.\<close>

definition notFoundMessage :: "exec_context \<Rightarrow> string" where
  "notFoundMessage c =
     (case c of
        Worker \<Rightarrow> ''Model file not found at '' @ MODEL_URL
      | MainThread \<Rightarrow>
          ''Model file not found. Please ensure '' @ MODEL_URL @
          '' exists in the public directory. See MODEL_SETUP.md for instructions.'')"

text \<open>The reading loop of \<open>downloadModel\<close>: the percentages reported while the
  chunks arrive, \<open>Math.round((loaded / total) * 100)\<close> after each chunk when
  \<open>total > 0\<close>. (The main-thread copy reports an object with \<open>loaded\<close>,
  \<open>total\<close> and this percentage, and only when a callback was passed.)\<close>

fun readChunks :: "nat \<Rightarrow> nat \<Rightarrow> byte list list \<Rightarrow> number list" where
  "readChunks totalLength loaded [] = []"
| "readChunks totalLength loaded (v # rest) =
     (let loaded' = loaded + length v
      in (if totalLength > 0
          then [Math_round (num_mul (num_div (Num (real loaded')) (Num (real totalLength)))
                              (Num 100))]
          else []) @
         readChunks totalLength loaded' rest)"

definition downloadModel :: "exec_context \<Rightarrow> load_env \<Rightarrow> number list \<times> (thrown + byte list)" where
  "downloadModel c env =
     (case fetchModel env of
        Inl e \<Rightarrow> ([], Inl e)
      | Inr response \<Rightarrow>
          if \<not> resp_ok response
          then (if resp_status response = 404
                then ([], Inl (Error (notFoundMessage c)))
                else ([], Inl (Error (''Failed to fetch model: '' @ resp_statusText response))))
          else (case resp_body response of
                  None \<Rightarrow> ([], Inl (Error ''Response body is null''))
                | Some (chunks, failure) \<Rightarrow>
                    (let progress = readChunks (resp_total response) 0 chunks
                     in case failure of
                          Some e \<Rightarrow> (progress, Inl e)
                        | None \<Rightarrow> (progress, Inr (concat chunks)))))"

text \<open>The body of the async function expression inside \<open>loadModel\<close>, up to the
  assignment to \<open>session\<close> or the \<open>catch\<close>: the progress it reports and its outcome.
  Only the worker reports 100 percent on a cache hit. A rejection of
  \<open>saveModelToCache\<close> is swallowed by its \<open>.catch\<close>, so either outcome of it
  leads on to the creation of the session.\<close>

definition loadAttempt :: "exec_context \<Rightarrow> load_env \<Rightarrow> number list \<times> (thrown + session)" where
  "loadAttempt c env =
     (case loadModelFromCache env of
        Inl e \<Rightarrow> ([], Inl e)
      | Inr (Some modelData) \<Rightarrow>
          ((if c = Worker then [Num 100] else []), createSession env modelData)
      | Inr None \<Rightarrow>
          (case downloadModel c env of
             (progress, Inl e) \<Rightarrow> (progress, Inl e)
           | (progress, Inr modelData) \<Rightarrow>
               (case saveModelToCache env of
                  Inl _ \<Rightarrow> (progress, createSession env modelData)
                | Inr _ \<Rightarrow> (progress, createSession env modelData))))"

text \<open>
  The module-level state of either execution context. A promise made by the async
  function expression is named by its position in \<open>promises\<close>; the length of
  \<open>promises\<close> is the number of load attempts started so far.
\<close>

datatype promise_state = Pending | Fulfilled session | Rejected thrown

record loader =
  session :: "session option"
  loadingPromise :: "nat option"
  inputNames :: "string list"
  outputNames :: "string list"
  promises :: "promise_state list"

definition initialLoader :: loader where
  "initialLoader =
     \<lparr>session = None, loadingPromise = None, inputNames = [], outputNames = [],
      promises = []\<rparr>"

text \<open>What a call of \<open>loadModel\<close> hands back: the session itself, or the promise the
  result follows.\<close>

datatype load_result = Direct session | Follows nat

definition loadModel :: "'a loader_scheme \<Rightarrow> load_result \<times> 'a loader_scheme" where
  "loadModel w =
     (case session w of
        Some s \<Rightarrow> (Direct s, w)
      | None \<Rightarrow>
          (case loadingPromise w of
             Some p \<Rightarrow> (Follows p, w)
           | None \<Rightarrow>
               (let p = length (promises w)
                in (Follows p,
                    w\<lparr>promises := promises w @ [Pending], loadingPromise := Some p\<rparr>))))"

text \<open>The end of the attempt behind promise \<open>p\<close>: \<open>session = await create(...)\<close>
  (with the names, in the worker) and \<open>return session\<close>, or the \<open>catch\<close> block
  \<open>loadingPromise = null; throw error\<close>.\<close>

definition attemptEnds ::
  "exec_context \<Rightarrow> nat \<Rightarrow> thrown + session \<Rightarrow> 'a loader_scheme \<Rightarrow> 'a loader_scheme" where
  "attemptEnds c p outcome w =
     (if p < length (promises w) \<and> promises w ! p = Pending
      then (case outcome of
              Inr s \<Rightarrow>
                w\<lparr>session := Some s,
                  inputNames := (if c = Worker then sess_inputNames s else inputNames w),
                  outputNames := (if c = Worker then sess_outputNames s else outputNames w),
                  promises := (promises w)[p := Fulfilled s]\<rparr>
            | Inl e \<Rightarrow>
                w\<lparr>loadingPromise := None, promises := (promises w)[p := Rejected e]\<rparr>)
      else w)"

text \<open>The events of one execution context as far as the loader is concerned: a call of
  \<open>loadModel\<close>, and the end of a started attempt under some behaviour of the platform.\<close>

datatype loader_event = Call | AttemptEnds nat load_env

fun loaderStep :: "exec_context \<Rightarrow> loader_event \<Rightarrow> 'a loader_scheme \<Rightarrow> 'a loader_scheme" where
  "loaderStep c Call w = snd (loadModel w)"
| "loaderStep c (AttemptEnds p env) w = attemptEnds c p (snd (loadAttempt c env)) w"

fun loaderRun :: "exec_context \<Rightarrow> loader_event list \<Rightarrow> 'a loader_scheme \<Rightarrow> 'a loader_scheme" where
  "loaderRun c [] w = w"
| "loaderRun c (e # es) w = loaderRun c es (loaderStep c e w)"

definition pendingCount :: "'a loader_scheme \<Rightarrow> nat" where
  "pendingCount w = length (filter (\<lambda>q. q = Pending) (promises w))"

subsection \<open>The worker\<close>

datatype worker_message =
    Load
  | Process image_data image_data nat nat

datatype worker_response =
    LoadProgress number
  | LoadComplete
  | LoadError string
  | ProcessComplete image_data
  | ProcessError string

text \<open>\<open>error instanceof Error ? error.message : "Unknown error"\<close>\<close>

definition errorMessage :: "thrown \<Rightarrow> string" where
  "errorMessage e = (case e of Error m \<Rightarrow> m | NotAnError \<Rightarrow> ''Unknown error'')"

text \<open>\<open>n.toLowerCase()\<close> on ASCII letters, and \<open>names[i]\<close> used as an object key
  (\<open>undefined\<close> becomes the key \<open>"undefined"\<close>).\<close>

definition toLowerCase :: "string \<Rightarrow> string" where
  "toLowerCase s =
     map (\<lambda>c. let n = (of_char c :: nat) in if 65 \<le> n \<and> n \<le> 90 then char_of (n + 32) else c) s"

definition nameAt :: "string list \<Rightarrow> nat \<Rightarrow> string" where
  "nameAt names i = (if i < length names then names ! i else ''undefined'')"

text \<open>\<open>inputNames.find((n) => n.toLowerCase().includes(key)) || inputNames[i]\<close>; a
  name that is found contains the key and so is not the empty string.\<close>

definition findInputName :: "string \<Rightarrow> nat \<Rightarrow> string list \<Rightarrow> string" where
  "findInputName key i names =
     (case find (\<lambda>n. sublist key (toLowerCase n)) names of
        Some n \<Rightarrow> n
      | None \<Rightarrow> nameAt names i)"

text \<open>The steps of \<open>processImage\<close> a request reaches, in the order reached.\<close>

datatype effect = CreateMaskedInputTensors | SessionRun | TensorToImageData

text \<open>
  \<open>processImage\<close>. It reads \<open>session\<close>, \<open>inputNames\<close> and \<open>outputNames\<close>; once a
  session exists none of the three changes again, so the request is run in one step
  against the platform behaviour \<open>env\<close>.
\<close>

definition processImage ::
  "'a loader_scheme \<Rightarrow> process_env \<Rightarrow> image_data \<Rightarrow> image_data \<Rightarrow> nat \<Rightarrow> nat \<Rightarrow>
   effect list \<times> (thrown + image_data)" where
  "processImage w env imageData maskData originalWidth originalHeight =
     (case session w of
        None \<Rightarrow> ([], Inl (Error ''Model not loaded''))
      | Some sess \<Rightarrow>
          (case createMaskedInputTensors env imageData maskData INPUT_SIZE of
             Inl e \<Rightarrow> ([CreateMaskedInputTensors], Inl e)
           | Inr ts \<Rightarrow>
               (let imageInputName = findInputName ''image'' 0 (inputNames w);
                    maskInputName = findInputName ''mask'' 1 (inputNames w);
                    feeds = [imageInputName \<mapsto> imageTensor ts, maskInputName \<mapsto> maskTensor ts]
                in case sess_run sess feeds of
                     Inl e \<Rightarrow> ([CreateMaskedInputTensors, SessionRun], Inl e)
                   | Inr results \<Rightarrow>
                       (case results (nameAt (outputNames w) 0) of
                          None \<Rightarrow>
                            ([CreateMaskedInputTensors, SessionRun],
                             Inl (Error ''No output tensor received from model''))
                        | Some outputTensor \<Rightarrow>
                            (let dat = t_data outputTensor;
                                 minVal = Math_min (take 10000 dat);
                                 maxVal = Math_max (take 10000 dat)
                             in ([CreateMaskedInputTensors, SessionRun, TensorToImageData],
                                 tensorToImageData env outputTensor originalWidth
                                   originalHeight minVal maxVal))))))"

text \<open>
  The worker: the loader state, the handlers suspended at \<open>await loadModel(...)\<close>
  (request number and awaited promise), the request whose progress callback each
  attempt uses, every \<open>postMessage\<close> so far (tagged with the request whose handler
  posted it), and the number of messages received.
\<close>

record worker = loader +
  waiting :: "(nat \<times> nat) list"
  owners :: "nat list"
  posted :: "(nat \<times> worker_response) list"
  received :: nat

definition initialWorker :: worker where
  "initialWorker =
     \<lparr>session = None, loadingPromise = None, inputNames = [], outputNames = [],
      promises = [], waiting = [], owners = [], posted = [], received = 0\<rparr>"

definition postMessage :: "nat \<Rightarrow> worker_response \<Rightarrow> worker \<Rightarrow> worker" where
  "postMessage r m w = w\<lparr>posted := posted w @ [(r, m)]\<rparr>"

text \<open>The continuation of a load handler once the awaited promise has settled.\<close>

definition loadSettled :: "nat \<Rightarrow> thrown + session \<Rightarrow> worker \<Rightarrow> worker" where
  "loadSettled r outcome w =
     (case outcome of
        Inr _ \<Rightarrow> postMessage r LoadComplete w
      | Inl e \<Rightarrow> postMessage r (LoadError (errorMessage e)) w)"

text \<open>\<open>self.onmessage\<close> for request number \<open>r\<close>.\<close>

fun onmessage :: "nat \<Rightarrow> worker_message \<Rightarrow> process_env \<Rightarrow> worker \<Rightarrow> worker" where
  "onmessage r Load env w =
     (case loadModel w of
        (Direct s, w1) \<Rightarrow> loadSettled r (Inr s) w1
      | (Follows p, w1) \<Rightarrow>
          (let w2 = (if p = length (promises w) then w1\<lparr>owners := owners w1 @ [r]\<rparr> else w1)
           in case promises w2 ! p of
                Pending \<Rightarrow> w2\<lparr>waiting := waiting w2 @ [(r, p)]\<rparr>
              | Fulfilled s \<Rightarrow> loadSettled r (Inr s) w2
              | Rejected e \<Rightarrow> loadSettled r (Inl e) w2))"
| "onmessage r (Process imageData maskData originalWidth originalHeight) env w =
     (case snd (processImage w env imageData maskData originalWidth originalHeight) of
        Inr resultData \<Rightarrow> postMessage r (ProcessComplete resultData) w
      | Inl e \<Rightarrow> postMessage r (ProcessError (errorMessage e)) w)"

text \<open>The attempt behind promise \<open>p\<close> ends: its progress reports are posted through
  the callback of the request that started it, the loader state is updated, and every
  handler waiting on \<open>p\<close> resumes, in the order in which it was suspended.\<close>

definition workerAttemptEnds :: "nat \<Rightarrow> load_env \<Rightarrow> worker \<Rightarrow> worker" where
  "workerAttemptEnds p env w =
     (if p < length (promises w) \<and> promises w ! p = Pending
      then (let (progress, outcome) = loadAttempt Worker env;
                w1 = fold (\<lambda>pc. postMessage (owners w ! p) (LoadProgress pc)) progress w;
                w2 = attemptEnds Worker p outcome w1;
                resumed = filter (\<lambda>(r, q). q = p) (waiting w2);
                w3 = w2\<lparr>waiting := filter (\<lambda>(r, q). q \<noteq> p) (waiting w2)\<rparr>
            in fold (\<lambda>(r, q). loadSettled r outcome) resumed w3)
      else w)"

datatype worker_event =
    Receive worker_message process_env
  | LoadEnds nat load_env

fun workerStep :: "worker_event \<Rightarrow> worker \<Rightarrow> worker" where
  "workerStep (Receive m env) w = onmessage (received w) m env (w\<lparr>received := received w + 1\<rparr>)"
| "workerStep (LoadEnds p env) w = workerAttemptEnds p env w"

fun workerRun :: "worker_event list \<Rightarrow> worker \<Rightarrow> worker" where
  "workerRun [] w = w"
| "workerRun (e # es) w = workerRun es (workerStep e w)"

definition isTerminal :: "worker_response \<Rightarrow> bool" where
  "isTerminal m = (case m of LoadProgress _ \<Rightarrow> False | _ \<Rightarrow> True)"

text \<open>The terminal responses posted for request \<open>r\<close>.\<close>

definition answers :: "nat \<Rightarrow> worker \<Rightarrow> worker_response list" where
  "answers r w = map snd (filter (\<lambda>(q, m). q = r \<and> isTerminal m) (posted w))"

section \<open>Brush strokes of the watermark selector (hero.tsx)\<close>



datatype tool = Brush | Eraser




section \<open>Head tags (seo.ts)\<close>

record meta_tag =
  meta_charSet :: "string option"
  meta_name :: "string option"
  meta_content :: "string option"
  meta_property :: "string option"
  meta_title :: "string option"

record link_tag =
  link_rel :: string
  link_href :: string
  link_sizes :: "string option"

text \<open>A JavaScript value as far as the JSON-LD objects need it, and the JSON document
  \<open>JSON.stringify\<close> writes for it: a member whose value is \<open>undefined\<close> is left out,
  an \<open>undefined\<close> array element is written as \<open>null\<close>. The text handed to a script
  tag is modelled by the document it denotes.\<close>

datatype jsval = Undefined | Str string | Arr "jsval list" | Obj "(string \<times> jsval) list"

datatype json = JNull | JString string | JArray "json list" | JObject "(string \<times> json) list"

fun JSON_stringify :: "jsval \<Rightarrow> json option" where
  "JSON_stringify Undefined = None"
| "JSON_stringify (Str s) = Some (JString s)"
| "JSON_stringify (Arr xs) =
     Some (JArray (map (\<lambda>x. case JSON_stringify x of None \<Rightarrow> JNull | Some j \<Rightarrow> j) xs))"
| "JSON_stringify (Obj ms) =
     Some (JObject (concat (map (\<lambda>(k, v). case JSON_stringify v of
                                             None \<Rightarrow> []
                                           | Some j \<Rightarrow> [(k, j)]) ms)))"

record script_tag =
  script_type :: "string option"
  script_children :: "json option"

record head_tags =
  meta :: "meta_tag list"
  links :: "link_tag list"
  scripts :: "script_tag list"

record blog_seo_payload =
  slug :: string
  title :: string
  excerpt :: "string option"
  tags :: "string list option"
  date :: "string option"

definition SITE_URL :: string where
  "SITE_URL = ''https://littlegoat.com.br''"

definition SITE_NAME :: string where
  "SITE_NAME = ''Watermark Remover''"

definition DEFAULT_TITLE :: string where
  "DEFAULT_TITLE = ''Watermark Remover | Free AI-Powered Image Watermark Removal Tool''"

definition DEFAULT_DESCRIPTION :: string where
  "DEFAULT_DESCRIPTION =
     ''Remove watermarks from images instantly using AI. 100% free, unlimited removals, private browser-based processing. No sign-up required.''"

definition DEFAULT_KEYWORDS :: "string list" where
  "DEFAULT_KEYWORDS =
     [''watermark remover'', ''remove watermark'', ''watermark removal tool'',
      ''AI watermark remover'', ''remove watermark from image'', ''online watermark remover'',
      ''free watermark remover'', ''watermark removal software'', ''image watermark removal'',
      ''photo watermark remover'', ''privacy watermark remover'', ''browser watermark remover'']"

definition AUTHOR :: string where
  "AUTHOR = ''Little Goat''"

text \<open>
  \<open>new URL(path, SITE_URL).toString()\<close> for the references this module resolves
  against its origin-only base: a path of characters that need no percent-encoding,
  without dot segments, query or fragment. The serialisation of an http(s) URL always
  carries a path, \<open>/\<close> at least.
\<close>

definition resolveOnSite :: "string \<Rightarrow> string" where
  "resolveOnSite path = (if prefix ''/'' path then SITE_URL @ path else SITE_URL @ ''/'' @ path)"

definition absoluteUrl :: "string \<Rightarrow> string" where
  "absoluteUrl path =
     (if path = [] then SITE_URL
      else if prefix ''http://'' path \<or> prefix ''https://'' path then path
      else resolveOnSite path)"

definition DEFAULT_IMAGE :: string where
  "DEFAULT_IMAGE = absoluteUrl ''/og-image.png''"

definition DEFAULT_LOGO :: string where
  "DEFAULT_LOGO = absoluteUrl ''/favicon-32x32.png''"

definition defaultJsonLd :: jsval where
  "defaultJsonLd =
     Obj [(''@context'', Str ''https://schema.org''),
          (''@type'', Str ''SoftwareApplication''),
          (''name'', Str SITE_NAME),
          (''image'', Str DEFAULT_IMAGE),
          (''url'', Str (absoluteUrl ''/'')),
          (''description'', Str DEFAULT_DESCRIPTION),
          (''applicationCategory'', Str ''ImageEditingApplication''),
          (''operatingSystem'', Str ''Web Browser''),
          (''offers'',
             Obj [(''@type'', Str ''Offer''),
                  (''name'', Str ''Watermark Remover - Free Access''),
                  (''description'',
                     Str ''AI-powered watermark removal tool. 100% free with unlimited removals. No sign-up required.''),
                  (''price'', Str ''0''),
                  (''priceCurrency'', Str ''USD'')]),
          (''aggregateRating'',
             Obj [(''@type'', Str ''AggregateRating''),
                  (''ratingValue'', Str ''5''),
                  (''reviewCount'', Str ''50'')]),
          (''featureList'',
             Arr [Str ''AI-powered watermark removal'', Str ''Browser-based processing'',
                  Str ''100% private'', Str ''Manual and auto detection'',
                  Str ''High quality results'', Str ''Fast processing'',
                  Str ''Completely free'', Str ''Unlimited removals''])]"

definition metaCharSet :: "string \<Rightarrow> meta_tag" where
  "metaCharSet c =
     \<lparr>meta_charSet = Some c, meta_name = None, meta_content = None, meta_property = None,
      meta_title = None\<rparr>"

definition metaTitle :: "string \<Rightarrow> meta_tag" where
  "metaTitle t =
     \<lparr>meta_charSet = None, meta_name = None, meta_content = None, meta_property = None,
      meta_title = Some t\<rparr>"

definition metaName :: "string \<Rightarrow> string \<Rightarrow> meta_tag" where
  "metaName n c =
     \<lparr>meta_charSet = None, meta_name = Some n, meta_content = Some c, meta_property = None,
      meta_title = None\<rparr>"

definition metaProperty :: "string \<Rightarrow> string \<Rightarrow> meta_tag" where
  "metaProperty p c =
     \<lparr>meta_charSet = None, meta_name = None, meta_content = Some c, meta_property = Some p,
      meta_title = None\<rparr>"

definition linkTag :: "string \<Rightarrow> string \<Rightarrow> string option \<Rightarrow> link_tag" where
  "linkTag r h sz = \<lparr>link_rel = r, link_href = h, link_sizes = sz\<rparr>"

definition getRootSeo :: head_tags where
  "getRootSeo =
     (let canonical = absoluteUrl ''/''
      in \<lparr>meta =
            [metaCharSet ''utf-8'',
             metaName ''viewport'' ''width=device-width, initial-scale=1'',
             metaTitle DEFAULT_TITLE,
             metaName ''description'' DEFAULT_DESCRIPTION,
             metaName ''keywords'' (joinWith '', '' DEFAULT_KEYWORDS),
             metaName ''author'' AUTHOR,
             metaName ''robots'' ''index,follow'',
             metaProperty ''og:type'' ''website'',
             metaProperty ''og:site_name'' SITE_NAME,
             metaProperty ''og:url'' canonical,
             metaProperty ''og:title'' DEFAULT_TITLE,
             metaProperty ''og:description'' DEFAULT_DESCRIPTION,
             metaProperty ''og:image'' DEFAULT_IMAGE,
             metaName ''twitter:card'' ''summary_large_image'',
             metaProperty ''twitter:url'' canonical,
             metaProperty ''twitter:title'' DEFAULT_TITLE,
             metaProperty ''twitter:description'' DEFAULT_DESCRIPTION,
             metaProperty ''twitter:image'' DEFAULT_IMAGE],
          links =
            [linkTag ''canonical'' canonical None,
             linkTag ''icon'' ''/favicon.ico'' None,
             linkTag ''icon'' ''/favicon-96x96.png'' (Some ''96x96''),
             linkTag ''apple-touch-icon'' ''/apple-touch-icon.png'' None,
             linkTag ''manifest'' ''/site.webmanifest'' None],
          scripts =
            [\<lparr>script_type = Some ''application/ld+json'',
              script_children = JSON_stringify defaultJsonLd\<rparr>]\<rparr>)"

text \<open>The platform's \<open>Date\<close>: the time value \<open>new Date(input).getTime()\<close> (\<open>None\<close>
  for \<open>NaN\<close>) and \<open>toISOString\<close> of a valid time value.\<close>

record date_api =
  dateGetTime :: "string \<Rightarrow> int option"
  toISOString :: "int \<Rightarrow> string"

definition getIsoDate :: "date_api \<Rightarrow> string option \<Rightarrow> string option" where
  "getIsoDate api input =
     (case input of
        None \<Rightarrow> None
      | Some i \<Rightarrow>
          (if i = [] then None
           else case dateGetTime api i of
                  None \<Rightarrow> None
                | Some parsed \<Rightarrow> Some (toISOString api parsed)))"

text \<open>\<open>String.prototype.trim\<close> on the ASCII white space characters.\<close>

definition isSpace :: "char \<Rightarrow> bool" where
  "isSpace c \<longleftrightarrow> (of_char c :: nat) \<in> {9, 10, 11, 12, 13, 32}"

definition trim :: "string \<Rightarrow> string" where
  "trim s = rev (dropWhile isSpace (rev (dropWhile isSpace s)))"

definition optStr :: "string option \<Rightarrow> jsval" where
  "optStr v = (case v of None \<Rightarrow> Undefined | Some s \<Rightarrow> Str s)"

definition getBlogPostSeo :: "date_api \<Rightarrow> blog_seo_payload \<Rightarrow> head_tags" where
  "getBlogPostSeo api post =
     (let canonical = absoluteUrl (''/blog/'' @ slug post);
          description = (case excerpt post of
                           None \<Rightarrow> DEFAULT_DESCRIPTION
                         | Some e \<Rightarrow> if trim e = [] then DEFAULT_DESCRIPTION else trim e);
          hasTags = (case tags post of None \<Rightarrow> False | Some ts \<Rightarrow> length ts > 0);
          keywords = (if hasTags then joinWith '', '' (the (tags post))
                      else joinWith '', '' DEFAULT_KEYWORDS);
          isoDate = getIsoDate api (date post);
          meta0 =
            [metaTitle (title post @ '' | Little Goat Blog''),
             metaName ''description'' description,
             metaName ''author'' AUTHOR,
             metaName ''keywords'' keywords,
             metaProperty ''og:type'' ''article'',
             metaProperty ''og:site_name'' SITE_NAME,
             metaProperty ''og:url'' canonical,
             metaProperty ''og:title'' (title post),
             metaProperty ''og:description'' description,
             metaProperty ''og:image'' DEFAULT_IMAGE,
             metaProperty ''twitter:card'' ''summary_large_image'',
             metaProperty ''twitter:url'' canonical,
             metaProperty ''twitter:title'' (title post),
             metaProperty ''twitter:description'' description,
             metaProperty ''twitter:image'' DEFAULT_IMAGE];
          meta1 = (case isoDate of
                     Some d \<Rightarrow>
                       if d = [] then meta0
                       else meta0 @ [metaProperty ''article:published_time'' d,
                                     metaProperty ''article:modified_time'' d]
                   | None \<Rightarrow> meta0);
          meta2 = meta1 @
                  map (metaProperty ''article:tag'')
                    (filter (\<lambda>tag. tag \<noteq> [] \<and> length (trim tag) > 0)
                       (case tags post of None \<Rightarrow> [] | Some ts \<Rightarrow> ts));
          blogJsonLd =
            Obj [(''@context'', Str ''https://schema.org''),
                 (''@type'', Str ''BlogPosting''),
                 (''mainEntityOfPage'',
                    Obj [(''@type'', Str ''WebPage''), (''@id'', Str canonical)]),
                 (''headline'', Str (title post)),
                 (''description'', Str description),
                 (''image'', Str DEFAULT_IMAGE),
                 (''datePublished'', optStr isoDate),
                 (''dateModified'', optStr isoDate),
                 (''author'', Obj [(''@type'', Str ''Person''), (''name'', Str AUTHOR)]),
                 (''publisher'',
                    Obj [(''@type'', Str ''Organization''),
                         (''name'', Str SITE_NAME),
                         (''logo'',
                            Obj [(''@type'', Str ''ImageObject''), (''url'', Str DEFAULT_LOGO)])]),
                 (''keywords'',
                    (if hasTags then Str (joinWith '', '' (the (tags post))) else Undefined))]
      in \<lparr>meta = meta2,
          links = [linkTag ''canonical'' canonical None],
          scripts =
            [\<lparr>script_type = Some ''application/ld+json'',
              script_children = JSON_stringify blogJsonLd\<rparr>]\<rparr>)"

text \<open>Reading a head-tag bundle: the \<open>href\<close>s of the canonical links, the JSON-LD
  scripts, a member of a JSON object, and the \<open>property\<close> names of the meta tags.\<close>

definition canonicalHrefs :: "head_tags \<Rightarrow> string list" where
  "canonicalHrefs h = map link_href (filter (\<lambda>l. link_rel l = ''canonical'') (links h))"

definition jsonLdScripts :: "head_tags \<Rightarrow> script_tag list" where
  "jsonLdScripts h = filter (\<lambda>s. script_type s = Some ''application/ld+json'') (scripts h)"

definition jsonMember :: "string \<Rightarrow> json option \<Rightarrow> json option" where
  "jsonMember k j = (case j of Some (JObject ms) \<Rightarrow> map_of ms k | _ \<Rightarrow> None)"

definition metaProperties :: "head_tags \<Rightarrow> string list" where
  "metaProperties h = concat (map (\<lambda>m. case meta_property m of None \<Rightarrow> [] | Some p \<Rightarrow> [p]) (meta h))"

section \<open>Auxiliary notions used in the proofs\<close>

text \<open>The values the tensor loop writes for pixel \<open>i\<close>, and the remapping of one output
  value.\<close>

definition maskValAt :: "byte list \<Rightarrow> nat \<Rightarrow> number" where
  "maskValAt mskData i = (if unat (mskData ! (i * 4)) > 127 then Num 1 else Num 0)"

definition normalized :: "byte \<Rightarrow> number" where
  "normalized w = Math_fround (num_div (Num (byteValue w)) (Num 255))"

definition imageValAt :: "byte list \<Rightarrow> byte list \<Rightarrow> nat \<Rightarrow> nat \<Rightarrow> number" where
  "imageValAt img msk i c =
     (if maskValAt msk i = Num 1 then Num 0 else normalized (img ! (i * 4 + c)))"

definition remap :: "number \<Rightarrow> number \<Rightarrow> number \<Rightarrow> number" where
  "remap mn mx v =
     (if isNormalized11 mn mx then num_div (num_add v (Num 1)) (Num 2)
      else if is0255 mx then num_div v (Num 255) else v)"

text \<open>The reals a \<open>Float32Array\<close> element can hold.\<close>

definition float32 :: "real \<Rightarrow> bool" where
  "float32 r \<longleftrightarrow> binary32 r = Num r"

text \<open>The invariant of the loader state.\<close>

definition loaderInv :: "'a loader_scheme \<Rightarrow> bool" where
  "loaderInv w \<longleftrightarrow>
     (\<forall>p < length (promises w). promises w ! p = Pending \<longrightarrow>
        loadingPromise w = Some p \<and> session w = None) \<and>
     (\<forall>p. loadingPromise w = Some p \<longrightarrow> p < length (promises w))"

text \<open>The requests of an event sequence in order of arrival, the terminal responses that
  answer a request, and the invariant of the worker state.\<close>

fun requests :: "worker_event list \<Rightarrow> worker_message list" where
  "requests [] = []"
| "requests (Receive m env # es) = m # requests es"
| "requests (LoadEnds p env # es) = requests es"

fun answerFor :: "worker_message \<Rightarrow> worker_response \<Rightarrow> bool" where
  "answerFor Load LoadComplete = True"
| "answerFor Load (LoadError e) = True"
| "answerFor (Process i m w h) (ProcessComplete d) = True"
| "answerFor (Process i m w h) (ProcessError e) = True"
| "answerFor _ _ = False"

definition terminalsFor :: "nat \<Rightarrow> (nat \<times> worker_response) list \<Rightarrow> worker_response list" where
  "terminalsFor r ps = map snd (filter (\<lambda>(q, m). q = r \<and> isTerminal m) ps)"

definition workerInv :: "worker_message list \<Rightarrow> worker \<Rightarrow> bool" where
  "workerInv reqs w \<longleftrightarrow>
     loaderInv w \<and>
     (\<forall>p. session w = None \<and> loadingPromise w = Some p \<longrightarrow> promises w ! p = Pending) \<and>
     received w = length reqs \<and>
     (\<forall>(r, p) \<in> set (waiting w).
        r < received w \<and> p < length (promises w) \<and> promises w ! p = Pending \<and> reqs ! r = Load) \<and>
     distinct (map fst (waiting w)) \<and>
     (\<forall>(r, m) \<in> set (posted w). isTerminal m \<longrightarrow> r < received w) \<and>
     (\<forall>r < received w.
        if r \<in> fst ` set (waiting w) then terminalsFor r (posted w) = []
        else (\<exists>a. terminalsFor r (posted w) = [a] \<and> answerFor (reqs ! r) a))"

definition settledResponse :: "thrown + session \<Rightarrow> worker_response" where
  "settledResponse outcome =
     (case outcome of Inr s \<Rightarrow> LoadComplete | Inl e \<Rightarrow> LoadError (errorMessage e))"



section \<open>Concrete inputs\<close>

text \<open>Small inputs on which the definitions are evaluated: one-pixel images and masks,
  platform behaviours that succeed or fail in a definite way, a session whose \<open>run\<close>
  returns a two-value output, short stroke segments, and a blog post with a date that
  does not parse.\<close>

definition exampleEnv :: process_env where
  "exampleEnv =
     \<lparr>imageCtxOk = True, maskCtxOk = True,
      createImageBitmap = Inr,
      drawScaled = (\<lambda>bitmap sz. img_data bitmap),
      outCtxOk = True, resultCtxOk = True,
      drawResult = (\<lambda>pixels w h. Inr \<lparr>img_width = w, img_height = h, img_data = take (4 * w * h) pixels\<rparr>)\<rparr>"

definition examplePixel :: image_data where
  "examplePixel = \<lparr>img_width = 1, img_height = 1, img_data = [51, 102, 255, 255]\<rparr>"

definition blackPixel :: image_data where
  "blackPixel = \<lparr>img_width = 1, img_height = 1, img_data = [0, 0, 0, 255]\<rparr>"

definition whitePixel :: image_data where
  "whitePixel = \<lparr>img_width = 1, img_height = 1, img_data = [255, 255, 255, 255]\<rparr>"

definition exampleOutput :: tensor where
  "exampleOutput = \<lparr>t_data = [Num (- 1), Num 1], t_dims = Some [1, 3, 512, 512]\<rparr>"

definition smallTensor :: tensor where
  "smallTensor = \<lparr>t_data = replicate (3 * 256 * 256) (Num 0), t_dims = Some [1, 3, 256, 256]\<rparr>"

definition exampleCanvasEnv :: canvas_env where
  "exampleCanvasEnv =
     \<lparr>canvasCtxOk = True, resultCanvasCtxOk = True,
      drawToDataURL = (\<lambda>pixels w h. ''data:image/png;base64,'')\<rparr>"

definition flatTensor :: tensor where
  "flatTensor = \<lparr>t_data = [Num 0, Num 0, Num 0], t_dims = Some [3]\<rparr>"

definition exampleSession :: session where
  "exampleSession =
     \<lparr>sess_inputNames = [''image'', ''mask''], sess_outputNames = [''output''],
      sess_run = (\<lambda>feeds. Inr [''output'' \<mapsto> \<lparr>t_data = [Num (- 1), Num 1], t_dims = Some [1, 3, 512, 512]\<rparr>])\<rparr>"

definition downloadEnv :: load_env where
  "downloadEnv =
     \<lparr>loadModelFromCache = Inr None,
      fetchModel = Inr \<lparr>resp_ok = True, resp_status = 200, resp_statusText = ''OK'',
                        resp_total = 4, resp_body = Some ([[1, 2], [3, 4]], None)\<rparr>,
      saveModelToCache = Inl (Error ''Failed to save model to cache''),
      createSession = (\<lambda>modelData. Inr exampleSession)\<rparr>"

definition notFoundEnv :: load_env where
  "notFoundEnv =
     \<lparr>loadModelFromCache = Inr None,
      fetchModel = Inr \<lparr>resp_ok = False, resp_status = 404, resp_statusText = ''Not Found'',
                        resp_total = 0, resp_body = None\<rparr>,
      saveModelToCache = Inr (),
      createSession = (\<lambda>modelData. Inr exampleSession)\<rparr>"

definition exampleEvents :: "worker_event list" where
  "exampleEvents =
     [Receive Load exampleEnv,
      Receive (Process examplePixel blackPixel 1 1) exampleEnv,
      LoadEnds 0 notFoundEnv]"

definition readyWorker :: worker where
  "readyWorker =
     \<lparr>session = Some exampleSession, loadingPromise = Some 0,
      inputNames = [''image'', ''mask''], outputNames = [''output''],
      promises = [Fulfilled exampleSession], waiting = [], owners = [0],
      posted = [(0, LoadProgress (Num 50)), (0, LoadProgress (Num 100)), (0, LoadComplete)], received = 1\<rparr>"

definition blankEnv :: process_env where
  "blankEnv =
     \<lparr>imageCtxOk = True, maskCtxOk = True,
      createImageBitmap = Inr,
      drawScaled = (\<lambda>bitmap sz. replicate (4 * sz * sz) 0),
      outCtxOk = True, resultCtxOk = True,
      drawResult = (\<lambda>pixels w h. Inr \<lparr>img_width = w, img_height = h,
                                          img_data = replicate (4 * w * h) 0\<rparr>)\<rparr>"

text \<open>An output in the range from -1 to 1 whose second value is so close to 0 that adding
  1 to it gives 1 in double arithmetic, a session that returns it, and a worker that has
  loaded this session.\<close>

definition roundingOutput :: tensor where
  "roundingOutput = \<lparr>t_data = [Num (- 1), Num (- (1 / 2 ^ 60))], t_dims = Some [1, 3, 512, 512]\<rparr>"

definition roundingSession :: session where
  "roundingSession =
     \<lparr>sess_inputNames = [''image'', ''mask''], sess_outputNames = [''output''],
      sess_run = (\<lambda>feeds. Inr [''output'' \<mapsto> roundingOutput])\<rparr>"

definition roundingWorker :: worker where
  "roundingWorker =
     \<lparr>session = Some roundingSession, loadingPromise = Some 0,
      inputNames = [''image'', ''mask''], outputNames = [''output''],
      promises = [Fulfilled roundingSession], waiting = [], owners = [0],
      posted = [(0, LoadComplete)], received = 1\<rparr>"

definition exampleTensors :: masked_tensors where
  "exampleTensors =
     \<lparr>imageTensor =
        \<lparr>t_data = imageTensorData
                    (buildMaskedTensors INPUT_SIZE (img_data examplePixel) (img_data blackPixel)),
         t_dims = Some [1, 3, INPUT_SIZE, INPUT_SIZE]\<rparr>,
      maskTensor =
        \<lparr>t_data = maskTensorData
                    (buildMaskedTensors INPUT_SIZE (img_data examplePixel) (img_data blackPixel)),
         t_dims = Some [1, 1, INPUT_SIZE, INPUT_SIZE]\<rparr>\<rparr>"




definition exampleDate :: date_api where
  "exampleDate =
     \<lparr>dateGetTime = (\<lambda>input. if input = ''2024-01-15'' then Some 1705276800000 else None),
      toISOString = (\<lambda>t. ''2024-01-15T00:00:00.000Z'')\<rparr>"

definition examplePost :: blog_seo_payload where
  "examplePost =
     \<lparr>slug = ''hello'', title = ''Hello'', excerpt = None, tags = Some [''ai''],
      date = Some ''soon''\<rparr>"

section \<open>Properties of rounding\<close>

lemma pow2_pos [simp]: "0 < pow2 e"
  by (simp add: pow2_def)

lemma pow2_add: "pow2 (a + b) = pow2 a * pow2 b"
  by (simp add: pow2_def power_int_add)

lemma pow2_diff: "pow2 (a - b) = pow2 a / pow2 b"
  by (simp add: pow2_def power_int_diff)

lemma pow2_le: "a \<le> b \<Longrightarrow> pow2 a \<le> pow2 b"
  by (simp add: pow2_def power_int_increasing)

lemma pow2_less: "a < b \<Longrightarrow> pow2 a < pow2 b"
  by (simp add: pow2_def power_int_strict_increasing)

lemma pow2_nat: "0 \<le> e \<Longrightarrow> pow2 e = 2 ^ nat e"
  by (simp add: pow2_def power_int_nonneg_exp)

lemma pow2_less_cancel: "pow2 a < pow2 b \<Longrightarrow> a < b"
  using pow2_le[of b a] by (cases "a < b") auto

lemma ilog2_lower:
  assumes "0 < x"
  shows "pow2 (ilog2 x) \<le> x"
proof (cases "1 \<le> x")
  case True
  define n where "n = \<lfloor>x\<rfloor>"
  have n: "0 < n" using True by (simp add: n_def)
  have b: "1 \<le> bitlen n" using n bitlen_eq_zero_iff[of n] bitlen_nonneg[of n] by linarith
  have "2 ^ nat (bitlen n - 1) \<le> n" using bitlen_bounds[OF n] by simp
  then have "(2::real) ^ nat (bitlen n - 1) \<le> of_int n"
    by (metis of_int_le_iff of_int_numeral of_int_power)
  also have "\<dots> \<le> x" by (simp add: n_def)
  finally show ?thesis using True b by (simp add: ilog2_def n_def pow2_nat)
next
  case False
  define m where "m = \<lceil>1 / x\<rceil>"
  have y: "1 < 1 / x" using False assms by simp
  then have m2: "1 < m" by (simp add: m_def less_ceiling_iff)
  then have m1: "0 < m - 1" by simp
  define k where "k = bitlen (m - 1)"
  have k: "0 \<le> k" by (simp add: k_def bitlen_nonneg)
  have "m - 1 < 2 ^ nat k" using bitlen_bounds[OF m1] by (simp add: k_def)
  then have "m \<le> 2 ^ nat k" by simp
  then have "of_int m \<le> (2::real) ^ nat k"
    by (metis of_int_le_iff of_int_numeral of_int_power)
  moreover have "1 / x \<le> of_int m" by (simp add: m_def)
  ultimately have "1 / x \<le> 2 ^ nat k" by linarith
  then have "1 / 2 ^ nat k \<le> x" using assms
    by (simp add: field_simps)
  moreover have "pow2 (- k) = 1 / 2 ^ nat k"
    using k by (simp add: pow2_def power_int_minus_divide power_int_nonneg_exp)
  ultimately show ?thesis using False by (simp add: ilog2_def m_def k_def)
qed

lemma ilog2_upper:
  assumes "0 < x"
  shows "x < pow2 (ilog2 x + 1)"
proof (cases "1 \<le> x")
  case True
  define n where "n = \<lfloor>x\<rfloor>"
  have n: "0 < n" using True by (simp add: n_def)
  have b: "0 \<le> bitlen n" by (rule bitlen_nonneg)
  have "n < 2 ^ nat (bitlen n)" using bitlen_bounds[OF n] by simp
  then have "n + 1 \<le> 2 ^ nat (bitlen n)" by simp
  then have "of_int (n + 1) \<le> (2::real) ^ nat (bitlen n)"
    by (metis of_int_le_iff of_int_numeral of_int_power)
  moreover have "x < of_int (n + 1)" by (simp add: n_def)
  ultimately have "x < 2 ^ nat (bitlen n)" by linarith
  then show ?thesis using True b by (simp add: ilog2_def n_def pow2_nat)
next
  case False
  define m where "m = \<lceil>1 / x\<rceil>"
  have y: "1 < 1 / x" using False assms by simp
  then have m2: "1 < m" by (simp add: m_def less_ceiling_iff)
  then have m1: "0 < m - 1" by simp
  define k where "k = bitlen (m - 1)"
  have k: "1 \<le> k" using m1 bitlen_eq_zero_iff[of "m - 1"] bitlen_nonneg[of "m - 1"]
    unfolding k_def by linarith
  have "2 ^ nat (k - 1) \<le> m - 1" using bitlen_bounds[OF m1] by (simp add: k_def)
  then have "(2::real) ^ nat (k - 1) \<le> of_int (m - 1)"
    by (metis of_int_le_iff of_int_numeral of_int_power)
  moreover have "of_int (m - 1) < 1 / x" unfolding m_def by linarith
  ultimately have "2 ^ nat (k - 1) < 1 / x" by linarith
  then have "x < 1 / 2 ^ nat (k - 1)" using assms
    by (simp add: field_simps)
  moreover have "pow2 (- k + 1) = 1 / 2 ^ nat (k - 1)"
  proof -
    have "- k + 1 = - (k - 1)" by simp
    then show ?thesis using k
      by (simp only: pow2_def power_int_minus_divide) (simp add: power_int_nonneg_exp)
  qed
  ultimately show ?thesis using False by (simp add: ilog2_def m_def k_def)
qed

lemma ilog2_less: "0 < x \<Longrightarrow> x < pow2 k \<Longrightarrow> ilog2 x < k"
  using ilog2_lower[of x] pow2_less_cancel[of "ilog2 x" k] by linarith

lemma ilog2_ge: "0 < x \<Longrightarrow> pow2 k \<le> x \<Longrightarrow> k \<le> ilog2 x"
  using ilog2_upper[of x] pow2_less_cancel[of k "ilog2 x + 1"] by linarith

lemma roundEven_int [simp]: "roundEven (of_int m) = m"
  by (simp add: roundEven_def)

lemma roundEven_err: "\<bar>of_int (roundEven z) - z\<bar> \<le> 1 / 2"
  unfolding roundEven_def Let_def by (auto simp: abs_if) linarith+

lemma roundEven_ge: "of_int m \<le> z \<Longrightarrow> m \<le> roundEven z"
proof -
  assume "of_int m \<le> z"
  then have "m \<le> \<lfloor>z\<rfloor>" by (simp add: le_floor_iff)
  then show ?thesis unfolding roundEven_def Let_def by auto
qed

lemma roundEven_le: "z \<le> of_int m \<Longrightarrow> roundEven z \<le> m"
proof -
  assume a: "z \<le> of_int m"
  show ?thesis
  proof (cases "z = of_int m")
    case True then show ?thesis by simp
  next
    case False
    then have "z < of_int m" using a by simp
    then have "\<lfloor>z\<rfloor> < m" by (simp add: floor_less_iff)
    then show ?thesis unfolding roundEven_def Let_def by auto
  qed
qed

lemma ulp_pos [simp]: "0 < ulp p emin x"
  by (simp add: ulp_def)

lemma nearest_err: "\<bar>nearest p emin x - x\<bar> \<le> ulp p emin x / 2"
proof (cases "x = 0")
  case True then show ?thesis by (simp add: nearest_def less_imp_le)
next
  case False
  define u where "u = ulp p emin x"
  have u: "0 < u" by (simp add: u_def)
  have "\<bar>of_int (roundEven (x / u)) - x / u\<bar> \<le> 1 / 2" by (rule roundEven_err)
  then have "\<bar>of_int (roundEven (x / u)) - x / u\<bar> * u \<le> 1 / 2 * u"
    using u by (simp only: mult_le_cancel_right_pos)
  moreover have "\<bar>of_int (roundEven (x / u)) - x / u\<bar> * u = \<bar>of_int (roundEven (x / u)) * u - x\<bar>"
  proof -
    have "\<bar>of_int (roundEven (x / u)) - x / u\<bar> * u = \<bar>(of_int (roundEven (x / u)) - x / u) * u\<bar>"
      using u by (simp add: abs_mult)
    also have "(of_int (roundEven (x / u)) - x / u) * u = of_int (roundEven (x / u)) * u - x"
      using u by (simp add: field_simps)
    finally show ?thesis .
  qed
  ultimately have "\<bar>of_int (roundEven (x / u)) * u - x\<bar> \<le> 1 / 2 * u" by (simp only:)
  then show ?thesis using False by (simp add: nearest_def u_def)
qed

lemma nearest_ge:
  assumes "of_int m * ulp p emin x \<le> x"
  shows "of_int m * ulp p emin x \<le> nearest p emin x"
proof (cases "x = 0")
  case True then show ?thesis using assms by (simp add: nearest_def)
next
  case False
  define u where "u = ulp p emin x"
  have u: "0 < u" by (simp add: u_def)
  have "of_int m \<le> x / u" using assms u by (simp add: u_def field_simps)
  then have "m \<le> roundEven (x / u)" by (rule roundEven_ge)
  then have "(of_int m :: real) \<le> of_int (roundEven (x / u))" by simp
  then have "of_int m * u \<le> of_int (roundEven (x / u)) * u"
    using u by (simp only: mult_le_cancel_right_pos)
  then show ?thesis using False by (simp add: nearest_def u_def)
qed

lemma nearest_le:
  assumes "x \<le> of_int m * ulp p emin x"
  shows "nearest p emin x \<le> of_int m * ulp p emin x"
proof (cases "x = 0")
  case True then show ?thesis using assms by (simp add: nearest_def)
next
  case False
  define u where "u = ulp p emin x"
  have u: "0 < u" by (simp add: u_def)
  have "x / u \<le> of_int m" using assms u by (simp add: u_def field_simps)
  then have "roundEven (x / u) \<le> m" by (rule roundEven_le)
  then have "(of_int (roundEven (x / u)) :: real) \<le> of_int m" by simp
  then have "of_int (roundEven (x / u)) * u \<le> of_int m * u"
    using u by (simp only: mult_le_cancel_right_pos)
  then show ?thesis using False by (simp add: nearest_def u_def)
qed

lemma nearest_exact:
  assumes "x = of_int m * ulp p emin x"
  shows "nearest p emin x = x"
  using nearest_ge[of m p emin x] nearest_le[of x m p emin] assms by simp

text \<open>A multiple of a power of two is a multiple of every smaller power of two.\<close>

lemma on_grid:
  assumes "g \<le> q"
  shows "of_int m * pow2 q = of_int (m * 2 ^ nat (q - g)) * pow2 g"
proof -
  have "pow2 q = pow2 ((q - g) + g)" by simp
  also have "\<dots> = pow2 (q - g) * pow2 g" by (rule pow2_add)
  also have "pow2 (q - g) = 2 ^ nat (q - g)" using assms by (simp add: pow2_nat)
  finally show ?thesis by simp
qed

lemma ulp_exp: "\<exists>g. ulp p emin x = pow2 g \<and> g = max (ilog2 \<bar>x\<bar>) emin - int p + 1"
  by (simp add: ulp_def)

lemma ulp_small:
  assumes "x \<noteq> 0" "\<bar>x\<bar> < pow2 k" "emin < k"
  shows "ulp p emin x \<le> pow2 (k - int p)"
proof -
  have "ilog2 \<bar>x\<bar> < k" using assms by (simp add: ilog2_less)
  then have "max (ilog2 \<bar>x\<bar>) emin - int p + 1 \<le> k - int p" using assms(3) by simp
  then show ?thesis unfolding ulp_def by (rule pow2_le)
qed

text \<open>Values that are multiples of a power of two at least as large as the unit in the
  last place of x bound the rounded x as they bound x.\<close>

lemma nearest_le_grid:
  assumes "x \<noteq> 0" "\<bar>x\<bar> < pow2 k" "emin < k" "k - int p \<le> q" "x \<le> of_int m * pow2 q"
  shows "nearest p emin x \<le> of_int m * pow2 q"
proof -
  define g where "g = max (ilog2 \<bar>x\<bar>) emin - int p + 1"
  have u: "ulp p emin x = pow2 g" by (simp add: ulp_def g_def)
  have "ilog2 \<bar>x\<bar> < k" using assms by (simp add: ilog2_less)
  then have gq: "g \<le> q" using assms(3,4) by (simp add: g_def)
  have e: "of_int m * pow2 q = of_int (m * 2 ^ nat (q - g)) * ulp p emin x"
    unfolding u by (rule on_grid[OF gq])
  show ?thesis using nearest_le[of x "m * 2 ^ nat (q - g)" p emin] assms(5) unfolding e by simp
qed

lemma nearest_ge_grid:
  assumes "x \<noteq> 0" "\<bar>x\<bar> < pow2 k" "emin < k" "k - int p \<le> q" "of_int m * pow2 q \<le> x"
  shows "of_int m * pow2 q \<le> nearest p emin x"
proof -
  define g where "g = max (ilog2 \<bar>x\<bar>) emin - int p + 1"
  have u: "ulp p emin x = pow2 g" by (simp add: ulp_def g_def)
  have "ilog2 \<bar>x\<bar> < k" using assms by (simp add: ilog2_less)
  then have gq: "g \<le> q" using assms(3,4) by (simp add: g_def)
  have e: "of_int m * pow2 q = of_int (m * 2 ^ nat (q - g)) * ulp p emin x"
    unfolding u by (rule on_grid[OF gq])
  show ?thesis using nearest_ge[of "m * 2 ^ nat (q - g)" p emin x] assms(5) unfolding e by simp
qed

text \<open>Rounding inside the unit interval stays inside it, with an error of at most half a
  unit in the last place of 1.\<close>

lemma nearest_unit:
  assumes "0 \<le> x" "x \<le> 1" "emin \<le> 0" "0 < p"
  shows "0 \<le> nearest p emin x" "nearest p emin x \<le> 1"
    "\<bar>nearest p emin x - x\<bar> \<le> pow2 (- int p)"
proof -
  have n0: "nearest p emin 0 = 0" by (simp add: nearest_def)
  show "0 \<le> nearest p emin x"
  proof (cases "x = 0")
    case True then show ?thesis by (simp add: n0)
  next
    case False
    have "of_int 0 * pow2 0 \<le> nearest p emin x"
      by (rule nearest_ge_grid[where k = 1]) (use assms False in \<open>simp_all add: pow2_def\<close>)
    then show ?thesis by simp
  qed
  show "nearest p emin x \<le> 1"
  proof (cases "x = 0")
    case True then show ?thesis by (simp add: n0)
  next
    case False
    have "nearest p emin x \<le> of_int 1 * pow2 0"
      by (rule nearest_le_grid[where k = 1]) (use assms False in \<open>simp_all add: pow2_def\<close>)
    then show ?thesis by (simp add: pow2_def)
  qed
  show "\<bar>nearest p emin x - x\<bar> \<le> pow2 (- int p)"
  proof (cases "x = 0")
    case True then show ?thesis by (simp add: n0 less_imp_le)
  next
    case False
    have "ulp p emin x \<le> pow2 (1 - int p)"
      by (rule ulp_small) (use assms False in \<open>simp_all add: pow2_def\<close>)
    moreover have "pow2 (1 - int p) = 2 * pow2 (- int p)"
      using pow2_add[of 1 "- int p"] by (simp add: pow2_def)
    ultimately have "ulp p emin x / 2 \<le> pow2 (- int p)" by simp
    then show ?thesis using nearest_err[of p emin x] by linarith
  qed
qed

lemma roundTo_unit:
  assumes "0 \<le> x" "x \<le> 1" "emin \<le> 0" "0 < p" "0 \<le> emax"
  shows "roundTo p emin emax x = Num (nearest p emin x)"
proof -
  have "\<bar>nearest p emin x\<bar> \<le> 1" using nearest_unit(1,2)[OF assms(1-4)] by simp
  moreover have "pow2 1 \<le> pow2 (emax + 1)" by (rule pow2_le) (use assms(5) in simp)
  then have "2 \<le> pow2 (emax + 1)" by (simp add: pow2_def)
  ultimately have "\<not> pow2 (emax + 1) \<le> \<bar>nearest p emin x\<bar>" by linarith
  then show ?thesis by (simp add: roundTo_def Let_def)
qed

lemma binary32_0 [simp]: "binary32 0 = Num 0"
  by (simp add: binary32_def roundTo_def nearest_def pow2_def)

lemma binary32_1 [simp]: "binary32 1 = Num 1"
  by (simp add: binary32_def roundTo_def nearest_def ulp_def ilog2_def roundEven_def pow2_def
      compute_bitlen Let_def)

lemma byteValue_bounds: "0 \<le> byteValue w \<and> byteValue w \<le> 255"
proof -
  have "unat w < 2 ^ 8" using unsigned_less[of w] by simp
  then have "unat w \<le> 255" by simp
  then have "real (unat w) \<le> real 255" by (simp only: of_nat_le_iff)
  moreover have "0 \<le> real (unat w)" by (rule of_nat_0_le_iff)
  ultimately show ?thesis unfolding byteValue_def by simp
qed

lemma byteValue_gt: "(127 < byteValue w) = (127 < unat w)"
proof -
  have "(real 127 < real (unat w)) = (127 < unat w)" by (rule of_nat_less_iff)
  then show ?thesis unfolding byteValue_def by simp
qed

text \<open>A byte divided by 255 and stored as a single: a number between 0 and 1 that
  differs from the quotient by less than one part in ten million.\<close>

lemma normalized_byte:
  fixes w :: byte
  shows "\<exists>r. normalized w = Num r \<and> 0 \<le> r \<and> r \<le> 1 \<and> \<bar>r - byteValue w / 255\<bar> < 1 / 10 ^ 7"
proof -
  define x where "x = byteValue w / 255"
  have x: "0 \<le> x" "x \<le> 1" using byteValue_bounds[of w] by (simp_all add: x_def)
  define y where "y = nearest 53 (- 1022) x"
  have y: "0 \<le> y" "y \<le> 1" "\<bar>y - x\<bar> \<le> pow2 (- int 53)"
    unfolding y_def by (rule nearest_unit[OF x]; simp)+
  have d: "binary64 (byteValue w / 255) = Num y"
    using roundTo_unit[OF x, of "- 1022" 53 1023] by (simp add: binary64_def x_def y_def)
  define r where "r = nearest 24 (- 126) y"
  have r: "0 \<le> r" "r \<le> 1" "\<bar>r - y\<bar> \<le> pow2 (- int 24)"
    unfolding r_def by (rule nearest_unit[OF y(1,2)]; simp)+
  have f: "normalized w = Num r"
    using roundTo_unit[OF y(1,2), of "- 126" 24 127]
    by (simp add: normalized_def d binary32_def r_def)
  have "\<bar>r - x\<bar> \<le> pow2 (- int 24) + pow2 (- int 53)" using r(3) y(3) by linarith
  also have "\<dots> < 1 / 10 ^ 7" by (simp add: pow2_def)
  finally show ?thesis using f r(1,2) unfolding x_def by blast
qed

text \<open>The rules that evaluate a rounding on numerals.\<close>

lemmas rounding_eval =
  binary64_def binary32_def roundTo_def nearest_def ulp_def ilog2_def roundEven_def pow2_def
  compute_bitlen Let_def

section \<open>Properties of the mask history\<close>
















section \<open>Properties of the input tensors\<close>

lemma forLoop_fold: "forLoop i n body s = fold body [i..<n] s"
proof (induction i n body s rule: forLoop.induct)
  case (1 i n body s)
  show ?case
  proof (cases "i < n")
    case True
    then show ?thesis using 1 by (subst forLoop.simps) (simp add: upt_rec[of i n])
  next
    case False
    then show ?thesis by (subst forLoop.simps) simp
  qed
qed

lemma forLoop_Suc: "forLoop 0 (Suc k) body s = body k (forLoop 0 k body s)"
  by (simp add: forLoop_fold)

lemma maskedPixel_mask:
  "k * 4 < length msk \<Longrightarrow>
   maskTensorData (maskedPixel sz img msk k b) = (maskTensorData b)[k := maskValAt msk k]"
  by (simp add: maskedPixel_def Let_def maskValAt_def u8_at_def byteValue_gt)

lemma maskedPixel_image:
  "k * 4 < length msk \<Longrightarrow> k * 4 + 2 < length img \<Longrightarrow>
   imageTensorData (maskedPixel sz img msk k b) =
     (imageTensorData b)[k := imageValAt img msk k 0, k + sz * sz := imageValAt img msk k 1,
                         k + 2 * sz * sz := imageValAt img msk k 2]"
  by (simp add: maskedPixel_def Let_def maskValAt_def imageValAt_def normalized_def u8_at_def byteValue_gt)

lemma maskedPixel_lengths:
  "length (maskTensorData (maskedPixel sz img msk k b)) = length (maskTensorData b) \<and>
   length (imageTensorData (maskedPixel sz img msk k b)) = length (imageTensorData b)"
  by (simp add: maskedPixel_def Let_def)

lemma masked_lengths:
  "length (maskTensorData (forLoop 0 k (maskedPixel sz img msk) b0)) = length (maskTensorData b0) \<and>
   length (imageTensorData (forLoop 0 k (maskedPixel sz img msk) b0)) = length (imageTensorData b0)"
  by (induction k) (auto simp: forLoop_Suc maskedPixel_lengths forLoop.simps[of 0 0])

lemma masked_loop_inv:
  assumes "length (maskTensorData b0) = sz * sz" "length (imageTensorData b0) = 3 * sz * sz"
    and "length msk = 4 * sz * sz" "length img = 4 * sz * sz"
  shows "k \<le> sz * sz \<Longrightarrow> j < k \<Longrightarrow>
       maskTensorData (forLoop 0 k (maskedPixel sz img msk) b0) ! j = maskValAt msk j \<and>
       imageTensorData (forLoop 0 k (maskedPixel sz img msk) b0) ! j = imageValAt img msk j 0 \<and>
       imageTensorData (forLoop 0 k (maskedPixel sz img msk) b0) ! (j + sz * sz) = imageValAt img msk j 1 \<and>
       imageTensorData (forLoop 0 k (maskedPixel sz img msk) b0) ! (j + 2 * sz * sz) = imageValAt img msk j 2"
proof (induction k)
  case 0
  then show ?case by simp
next
  case (Suc k)
  let ?b = "forLoop 0 k (maskedPixel sz img msk) b0"
  have lm: "length (maskTensorData ?b) = sz * sz" and li: "length (imageTensorData ?b) = 3 * sz * sz"
    using masked_lengths[of k sz img msk b0] assms by auto
  have k: "k < sz * sz" using Suc.prems by simp
  have km: "k * 4 < length msk" and ki: "k * 4 + 2 < length img" using k assms(3,4) by simp_all
  note mp = maskedPixel_mask[OF km] maskedPixel_image[OF km ki]
  show ?case
  proof (cases "j = k")
    case True
    have "sz \<noteq> 0" using k by (cases "sz = 0") auto
    then show ?thesis using lm li k True
      by (simp add: forLoop_Suc mp nth_list_update)
  next
    case False
    then have jk: "j < k" using Suc.prems by simp
    note IH = Suc.IH[OF _ jk]
    have j: "j < sz * sz" using jk k by simp
    show ?thesis
      using IH k j False
      by (simp add: forLoop_Suc mp nth_list_update)
  qed
qed

text \<open>
  Claim C1. For a process request whose tensors are built, at every pixel index \<open>i\<close> of
  the rescaled grid the mask tensor is 1 exactly when the red channel of the rescaled mask
  exceeds 127 and 0 otherwise; where it is 1 the three channel values of the image tensor
  are 0, and where it is 0 each is the rescaled source byte divided by 255 as the program
  computes and stores it (the double quotient rounded to single precision), a value
  between 0 and 1 within one part in ten million of the exact quotient.
\<close>

theorem masked_input_tensors:
  assumes "createMaskedInputTensors env imageData maskData sz = Inr ts"
    and "createImageBitmap env imageData = Inr imageBitmap"
    and "createImageBitmap env maskData = Inr maskBitmap"
    and "length (drawScaled env imageBitmap sz) = 4 * sz * sz"
    and "length (drawScaled env maskBitmap sz) = 4 * sz * sz"
    and "i < sz * sz"
  shows "t_data (maskTensor ts) ! i =
           (if unat (drawScaled env maskBitmap sz ! (i * 4)) > 127 then Num 1 else Num 0) \<and>
         (t_data (maskTensor ts) ! i = Num 1 \<longrightarrow>
            t_data (imageTensor ts) ! i = Num 0 \<and>
            t_data (imageTensor ts) ! (i + sz * sz) = Num 0 \<and>
            t_data (imageTensor ts) ! (i + 2 * sz * sz) = Num 0) \<and>
         (t_data (maskTensor ts) ! i = Num 0 \<longrightarrow>
            t_data (imageTensor ts) ! i =
              Math_fround (num_div (Num (byteValue (drawScaled env imageBitmap sz ! (i * 4))))
                             (Num 255)) \<and>
            t_data (imageTensor ts) ! (i + sz * sz) =
              Math_fround (num_div (Num (byteValue (drawScaled env imageBitmap sz ! (i * 4 + 1))))
                             (Num 255)) \<and>
            t_data (imageTensor ts) ! (i + 2 * sz * sz) =
              Math_fround (num_div (Num (byteValue (drawScaled env imageBitmap sz ! (i * 4 + 2))))
                             (Num 255)) \<and>
            (\<forall>c < 3. \<exists>r. t_data (imageTensor ts) ! (i + c * sz * sz) = Num r \<and> 0 \<le> r \<and> r \<le> 1 \<and>
                \<bar>r - byteValue (drawScaled env imageBitmap sz ! (i * 4 + c)) / 255\<bar> < 1 / 10 ^ 7))"
proof -
  define imgData where "imgData = drawScaled env imageBitmap sz"
  define mskData where "mskData = drawScaled env maskBitmap sz"
  let ?b = "buildMaskedTensors sz imgData mskData"
  have ts: "t_data (maskTensor ts) = maskTensorData ?b" "t_data (imageTensor ts) = imageTensorData ?b"
    using assms(1-3) unfolding imgData_def mskData_def
    by (auto simp: createMaskedInputTensors_def Let_def split: if_splits)
  have inv: "maskTensorData ?b ! i = maskValAt mskData i \<and>
       imageTensorData ?b ! i = imageValAt imgData mskData i 0 \<and>
       imageTensorData ?b ! (i + sz * sz) = imageValAt imgData mskData i 1 \<and>
       imageTensorData ?b ! (i + 2 * sz * sz) = imageValAt imgData mskData i 2"
    unfolding buildMaskedTensors_def
    by (rule masked_loop_inv) (use assms(4-6) in \<open>simp_all add: imgData_def mskData_def\<close>)
  have m: "t_data (maskTensor ts) ! i = (if unat (mskData ! (i * 4)) > 127 then Num 1 else Num 0)"
    using inv by (simp add: ts maskValAt_def)
  have w: "t_data (maskTensor ts) ! i = Num 1 \<longrightarrow>
            t_data (imageTensor ts) ! i = Num 0 \<and>
            t_data (imageTensor ts) ! (i + sz * sz) = Num 0 \<and>
            t_data (imageTensor ts) ! (i + 2 * sz * sz) = Num 0"
    using inv by (simp add: ts maskValAt_def imageValAt_def)
  have b: "t_data (maskTensor ts) ! i = Num 0 \<longrightarrow>
            t_data (imageTensor ts) ! i = normalized (imgData ! (i * 4)) \<and>
            t_data (imageTensor ts) ! (i + sz * sz) = normalized (imgData ! (i * 4 + 1)) \<and>
            t_data (imageTensor ts) ! (i + 2 * sz * sz) = normalized (imgData ! (i * 4 + 2))"
    using inv by (simp add: ts maskValAt_def imageValAt_def)
  have range: "\<forall>c < 3. \<exists>r. t_data (imageTensor ts) ! (i + c * sz * sz) = Num r \<and> 0 \<le> r \<and> r \<le> 1 \<and>
                \<bar>r - byteValue (imgData ! (i * 4 + c)) / 255\<bar> < 1 / 10 ^ 7"
    if z: "t_data (maskTensor ts) ! i = Num 0"
  proof (intro allI impI)
    fix c :: nat
    assume "c < 3"
    then consider "c = 0" | "c = 1" | "c = 2" by linarith
    then have "t_data (imageTensor ts) ! (i + c * sz * sz) = normalized (imgData ! (i * 4 + c))"
      using b z by cases simp_all
    then show "\<exists>r. t_data (imageTensor ts) ! (i + c * sz * sz) = Num r \<and> 0 \<le> r \<and> r \<le> 1 \<and>
                \<bar>r - byteValue (imgData ! (i * 4 + c)) / 255\<bar> < 1 / 10 ^ 7"
      using normalized_byte[of "imgData ! (i * 4 + c)"] by simp
  qed
  show ?thesis using m w b range unfolding imgData_def mskData_def normalized_def by blast
qed

lemma forLoop_one: "forLoop 0 (Suc 0) body s = body 0 s"
  by (simp add: forLoop.simps[of 0 "Suc 0"] forLoop.simps[of "Suc 0" "Suc 0"])

lemma byteValue_numeral [simp]:
  "byteValue 51 = 51" "byteValue 102 = 102" "byteValue 255 = 255" "byteValue 0 = 0"
  by (simp_all add: byteValue_def)

lemma stored_51: "Math_fround (num_div (Num (byteValue 51)) (Num 255)) = Num (13421773 / 67108864)"
  by (simp add: rounding_eval)

lemma stored_102: "Math_fround (num_div (Num (byteValue 102)) (Num 255)) = Num (13421773 / 33554432)"
  by (simp add: rounding_eval)

lemma stored_255: "Math_fround (num_div (Num (byteValue 255)) (Num 255)) = Num 1"
  by (simp add: rounding_eval)

lemma ex_black: "createMaskedInputTensors exampleEnv examplePixel blackPixel 1 =
   Inr \<lparr>imageTensor = \<lparr>t_data = [Num (13421773 / 67108864), Num (13421773 / 33554432), Num 1],
                        t_dims = Some [1, 3, 1, 1]\<rparr>,
        maskTensor = \<lparr>t_data = [Num 0], t_dims = Some [1, 1, 1, 1]\<rparr>\<rparr>"
  using stored_51 stored_102 stored_255
  by (simp add: createMaskedInputTensors_def exampleEnv_def examplePixel_def blackPixel_def
      buildMaskedTensors_def forLoop_one maskedPixel_def u8_at_def Let_def numeral_3_eq_3)

lemma ex_white: "createMaskedInputTensors exampleEnv examplePixel whitePixel 1 =
   Inr \<lparr>imageTensor = \<lparr>t_data = [Num 0, Num 0, Num 0], t_dims = Some [1, 3, 1, 1]\<rparr>,
        maskTensor = \<lparr>t_data = [Num 1], t_dims = Some [1, 1, 1, 1]\<rparr>\<rparr>"
  by (simp add: createMaskedInputTensors_def exampleEnv_def examplePixel_def whitePixel_def
      buildMaskedTensors_def forLoop_one maskedPixel_def u8_at_def Let_def numeral_3_eq_3)

theorem masked_input_tensors_witness:
  "createMaskedInputTensors exampleEnv examplePixel blackPixel 1 =
     Inr \<lparr>imageTensor = \<lparr>t_data = [Num (13421773 / 67108864), Num (13421773 / 33554432), Num 1],
                          t_dims = Some [1, 3, 1, 1]\<rparr>,
          maskTensor = \<lparr>t_data = [Num 0], t_dims = Some [1, 1, 1, 1]\<rparr>\<rparr> \<and>
   createMaskedInputTensors exampleEnv examplePixel whitePixel 1 =
     Inr \<lparr>imageTensor = \<lparr>t_data = [Num 0, Num 0, Num 0], t_dims = Some [1, 3, 1, 1]\<rparr>,
          maskTensor = \<lparr>t_data = [Num 1], t_dims = Some [1, 1, 1, 1]\<rparr>\<rparr> \<and>
   createImageBitmap exampleEnv examplePixel = Inr examplePixel \<and>
   createImageBitmap exampleEnv blackPixel = Inr blackPixel \<and>
   createImageBitmap exampleEnv whitePixel = Inr whitePixel \<and>
   drawScaled exampleEnv examplePixel 1 = [51, 102, 255, 255] \<and>
   drawScaled exampleEnv blackPixel 1 = [0, 0, 0, 255] \<and>
   drawScaled exampleEnv whitePixel 1 = [255, 255, 255, 255] \<and>
   (0 :: nat) < 1 * 1 \<and>
   [Num 0] ! 0 = Num 0 \<and>
   [Num (13421773 / 67108864), Num (13421773 / 33554432), Num 1] ! 0 =
     Math_fround (num_div (Num (byteValue 51)) (Num 255)) \<and>
   [Num (13421773 / 67108864), Num (13421773 / 33554432), Num 1] ! (0 + 1 * 1) =
     Math_fround (num_div (Num (byteValue 102)) (Num 255)) \<and>
   [Num (13421773 / 67108864), Num (13421773 / 33554432), Num 1] ! (0 + 2 * 1 * 1) =
     Math_fround (num_div (Num (byteValue 255)) (Num 255)) \<and>
   \<bar>13421773 / 67108864 - byteValue 51 / 255\<bar> < (1 / 10 ^ 7 :: real) \<and>
   [Num 1] ! 0 = Num 1 \<and>
   [Num 0, Num 0, Num 0] ! 0 = Num 0 \<and> [Num 0, Num 0, Num 0] ! (0 + 1 * 1) = Num 0 \<and>
   [Num 0, Num 0, Num 0] ! (0 + 2 * 1 * 1) = Num 0"
proof -
  have c: "createMaskedInputTensors exampleEnv examplePixel blackPixel 1 =
     Inr \<lparr>imageTensor = \<lparr>t_data = [Num (13421773 / 67108864), Num (13421773 / 33554432), Num 1],
                          t_dims = Some [1, 3, 1, 1]\<rparr>,
          maskTensor = \<lparr>t_data = [Num 0], t_dims = Some [1, 1, 1, 1]\<rparr>\<rparr>"
    by (rule ex_black)
  have cw: "createMaskedInputTensors exampleEnv examplePixel whitePixel 1 =
     Inr \<lparr>imageTensor = \<lparr>t_data = [Num 0, Num 0, Num 0], t_dims = Some [1, 3, 1, 1]\<rparr>,
          maskTensor = \<lparr>t_data = [Num 1], t_dims = Some [1, 1, 1, 1]\<rparr>\<rparr>"
    by (rule ex_white)
  have b1: "createImageBitmap exampleEnv examplePixel = Inr examplePixel"
    and b2: "createImageBitmap exampleEnv blackPixel = Inr blackPixel"
    and b3: "createImageBitmap exampleEnv whitePixel = Inr whitePixel"
    by (simp_all add: exampleEnv_def)
  have d1: "drawScaled exampleEnv examplePixel 1 = [51, 102, 255, 255]"
    and d2: "drawScaled exampleEnv blackPixel 1 = [0, 0, 0, 255]"
    and d3: "drawScaled exampleEnv whitePixel 1 = [255, 255, 255, 255]"
    by (simp_all add: exampleEnv_def examplePixel_def blackPixel_def whitePixel_def)
  have l1: "length (drawScaled exampleEnv examplePixel 1) = 4 * 1 * 1"
    and l2: "length (drawScaled exampleEnv blackPixel 1) = 4 * 1 * 1"
    and l3: "length (drawScaled exampleEnv whitePixel 1) = 4 * 1 * 1"
    unfolding d1 d2 d3 by simp_all
  have i: "(0 :: nat) < 1 * 1" by simp
  note t = masked_input_tensors [OF c b1 b2 l1 l2 i]
  note tw = masked_input_tensors [OF cw b1 b3 l1 l3 i]
  have black: "[Num 0] ! 0 = Num 0 \<and>
   [Num (13421773 / 67108864), Num (13421773 / 33554432), Num 1] ! 0 =
     Math_fround (num_div (Num (byteValue 51)) (Num 255)) \<and>
   [Num (13421773 / 67108864), Num (13421773 / 33554432), Num 1] ! (0 + 1 * 1) =
     Math_fround (num_div (Num (byteValue 102)) (Num 255)) \<and>
   [Num (13421773 / 67108864), Num (13421773 / 33554432), Num 1] ! (0 + 2 * 1 * 1) =
     Math_fround (num_div (Num (byteValue 255)) (Num 255))"
    using stored_51 stored_102 stored_255 by simp
  let ?ts = "\<lparr>imageTensor = \<lparr>t_data = [Num (13421773 / 67108864), Num (13421773 / 33554432), Num 1],
                          t_dims = Some [1, 3, 1, 1]\<rparr>,
          maskTensor = \<lparr>t_data = [Num 0], t_dims = Some [1, 1, 1, 1]\<rparr>\<rparr>"
  have z: "t_data (maskTensor ?ts) ! 0 = Num 0" by simp
  from t z have q: "\<forall>c < 3. \<exists>r. t_data (imageTensor ?ts) ! (0 + c * 1 * 1) = Num r \<and> 0 \<le> r \<and> r \<le> 1 \<and>
      \<bar>r - byteValue (drawScaled exampleEnv examplePixel 1 ! (0 * 4 + c)) / 255\<bar> < 1 / 10 ^ 7"
    by blast
  have "(0::nat) < 3" by simp
  with q obtain r where r: "t_data (imageTensor ?ts) ! (0 + 0 * 1 * 1) = Num r"
    "\<bar>r - byteValue (drawScaled exampleEnv examplePixel 1 ! (0 * 4 + 0)) / 255\<bar> < 1 / 10 ^ 7"
    by blast
  from r(1) have "r = 13421773 / 67108864" by simp
  with r(2) have near: "\<bar>13421773 / 67108864 - byteValue 51 / 255\<bar> < (1 / 10 ^ 7 :: real)"
    unfolding d1 by simp
  have white: "[Num 1] ! 0 = Num 1 \<and>
   [Num 0, Num 0, Num 0] ! 0 = Num 0 \<and> [Num 0, Num 0, Num 0] ! (0 + 1 * 1) = Num 0 \<and>
   [Num 0, Num 0, Num 0] ! (0 + 2 * 1 * 1) = Num 0"
    by simp
  let ?tw = "\<lparr>imageTensor = \<lparr>t_data = [Num 0, Num 0, Num 0], t_dims = Some [1, 3, 1, 1]\<rparr>,
          maskTensor = \<lparr>t_data = [Num 1], t_dims = Some [1, 1, 1, 1]\<rparr>\<rparr>"
  have "t_data (maskTensor ?tw) ! 0 = Num 1" by simp
  with tw have "t_data (imageTensor ?tw) ! (0 + 2 * 1 * 1) = Num 0" by blast
  show ?thesis using c cw b1 b2 b3 d1 d2 d3 i black near white by blast
qed

section \<open>Properties of the output conversion\<close>

lemma rangedPixel_eq:
  "rangedPixel dat mn mx k out =
     out[k * 4 := toChannel (remap mn mx (f32_at dat k)),
         k * 4 + 1 := toChannel (remap mn mx (f32_at dat (k + INPUT_SIZE * INPUT_SIZE))),
         k * 4 + 2 := toChannel (remap mn mx (f32_at dat (k + 2 * (INPUT_SIZE * INPUT_SIZE)))),
         k * 4 + 3 := 255]"
  by (simp add: rangedPixel_def remap_def Let_def)

text \<open>A loop that writes the four bytes of pixel k in iteration k.\<close>

lemma pixel_loop:
  assumes step: "\<And>k out. body k out = out[k * 4 := f k 0, k * 4 + 1 := f k 1, k * 4 + 2 := f k 2, k * 4 + 3 := a]"
  shows "length (forLoop 0 n body out0) = length out0 \<and>
         (4 * n \<le> length out0 \<longrightarrow> (\<forall>j < n.
            forLoop 0 n body out0 ! (j * 4) = f j 0 \<and>
            forLoop 0 n body out0 ! (j * 4 + 1) = f j 1 \<and>
            forLoop 0 n body out0 ! (j * 4 + 2) = f j 2))"
proof (induction n)
  case 0
  then show ?case by (simp add: forLoop.simps[of 0 0])
next
  case (Suc n)
  then show ?case
    by (auto simp: forLoop_Suc step nth_list_update less_Suc_eq)
qed

text \<open>\<open>Math.round\<close> after clamping is clamping after \<open>Math.round\<close>.\<close>

lemma floor_clamp:
  "\<lfloor>max (min (x::real) 255) 0 + 1 / 2\<rfloor> = max 0 (min 255 \<lfloor>x + 1 / 2\<rfloor>)"
proof -
  have a: "x \<le> 0 \<Longrightarrow> round x \<le> 0" using round_mono[of x 0] by simp
  have b: "0 \<le> x \<Longrightarrow> 0 \<le> round x" using round_mono[of 0 x] by simp
  have c: "255 \<le> x \<Longrightarrow> 255 \<le> round x" using round_mono[of 255 x] by simp
  have d: "x \<le> 255 \<Longrightarrow> round x \<le> 255" using round_mono[of x 255] by simp
  have "round (max (min x 255) 0) = max 0 (min 255 (round x))"
    using a b c d by (auto simp: max_def min_def)
  then show ?thesis by (simp only: round_def)
qed

lemma toUint8Clamp_int:
  assumes "0 \<le> k" "k \<le> 255"
  shows "uint (toUint8Clamp (Num (of_int k))) = k"
proof -
  have "uint (word_of_int k :: byte) = k"
    using assms by (simp add: uint_word_of_int take_bit_int_eq_self)
  moreover have "uint (0 :: byte) = 0" "uint (255 :: byte) = 255" by simp_all
  ultimately show ?thesis using assms by (auto simp del: of_int_le_iff)
qed

lemma toChannel_cases:
  "uint (toChannel v) =
     (case num_mul v (Num 255) of
        Num x \<Rightarrow> max 0 (min 255 \<lfloor>x + 1 / 2\<rfloor>)
      | Infinity \<Rightarrow> 255
      | _ \<Rightarrow> 0)"
proof (cases "num_mul v (Num 255)")
  case (Num x)
  let ?k = "max 0 (min 255 \<lfloor>x + 1 / 2\<rfloor>)"
  have "Math_round (Math_max [Num 0, Math_min [Num 255, Num x]]) =
          Num (of_int \<lfloor>max (min x 255) 0 + 1 / 2\<rfloor>)"
    by (simp add: Math_max_def Math_min_def max_def min_def)
  then have "toChannel v = toUint8Clamp (Num (of_int ?k))"
    by (simp only: toChannel_def Num floor_clamp)
  moreover have "uint (toUint8Clamp (Num (of_int ?k))) = ?k"
    by (rule toUint8Clamp_int) simp_all
  ultimately show ?thesis by (simp add: Num)
qed (simp_all add: toChannel_def Math_max_def Math_min_def)

text \<open>The sample of finite values: its \<open>Math.min\<close> and \<open>Math.max\<close> are the least and the
  greatest of them.\<close>

lemma smallerOf_fold: "fold smallerOf (map Num rs) (Num a) = Num (fold min rs a)"
  by (induction rs arbitrary: a) (auto simp: min_def)

lemma largerOf_fold: "fold largerOf (map Num rs) (Num a) = Num (fold max rs a)"
  by (induction rs arbitrary: a) (auto simp: max_def)

lemma Math_min_finite: "rs \<noteq> [] \<Longrightarrow> Math_min (map Num rs) = Num (Min (set rs))"
proof (cases rs)
  case Nil
  assume "rs \<noteq> []" then show ?thesis using Nil by simp
next
  case (Cons a as)
  have "Math_min (map Num rs) = Num (fold min as a)"
    by (simp add: Cons Math_min_def smallerOf_fold)
  moreover have "Min (set (a # as)) = fold min as a" by (rule Min.set_eq_fold)
  ultimately show ?thesis by (simp only: Cons)
qed

lemma Math_max_finite: "rs \<noteq> [] \<Longrightarrow> Math_max (map Num rs) = Num (Max (set rs))"
proof (cases rs)
  case Nil
  assume "rs \<noteq> []" then show ?thesis using Nil by simp
next
  case (Cons a as)
  have "Math_max (map Num rs) = Num (fold max as a)"
    by (simp add: Cons Math_max_def largerOf_fold)
  moreover have "Max (set (a # as)) = fold max as a" by (rule Max.set_eq_fold)
  ultimately show ?thesis by (simp only: Cons)
qed

text \<open>A single-precision value of magnitude at least \<open>pow2 e\<close> is a multiple of
  \<open>pow2 (e - 23)\<close>; so no single lies strictly between a decimal threshold of the range
  test and the double that stands for it.\<close>

lemma float32_grid:
  assumes "float32 r" "pow2 e \<le> \<bar>r\<bar>"
  shows "\<exists>k. r = of_int k * pow2 (e - 23)"
proof -
  have "0 < pow2 e" by simp
  with assms(2) have "0 < \<bar>r\<bar>" by linarith
  then have r0: "r \<noteq> 0" by simp
  have "roundTo 24 (- 126) 127 r = Num r" using assms(1) by (simp add: float32_def binary32_def)
  then have n: "nearest 24 (- 126) r = r"
    by (simp add: roundTo_def Let_def split: if_splits)
  define g where "g = max (ilog2 \<bar>r\<bar>) (- 126) - 23"
  have u: "ulp 24 (- 126) r = pow2 g" by (simp add: ulp_def g_def)
  have "e \<le> ilog2 \<bar>r\<bar>" by (rule ilog2_ge) (use assms(2) r0 in simp_all)
  then have ge: "e - 23 \<le> g" by (simp add: g_def)
  have "r = of_int (roundEven (r / pow2 g)) * pow2 g"
    using n r0 by (simp add: nearest_def u)
  also have "\<dots> = of_int (roundEven (r / pow2 g) * 2 ^ nat (g - (e - 23))) * pow2 (e - 23)"
    by (rule on_grid[OF ge])
  finally show ?thesis by blast
qed

lemma binary64_11_10: "binary64 (11 / 10) = Num (2476979795053773 / 2251799813685248)"
  by (simp add: rounding_eval)

lemma binary64_1_10: "binary64 (1 / 10) = Num (3602879701896397 / 36028797018963968)"
  by (simp add: rounding_eval)

lemma binary64_511_2: "binary64 (511 / 2) = Num (511 / 2)"
  by (simp add: rounding_eval)

lemma above_11_10:
  assumes "float32 r" "11 / 10 < \<bar>r\<bar>"
  shows "2476979795053773 / 2251799813685248 < \<bar>r\<bar>"
proof -
  have "pow2 0 \<le> \<bar>r\<bar>" using assms(2) by (simp add: pow2_def)
  from float32_grid[OF assms(1) this] obtain k where k: "r = of_int k * pow2 (0 - 23)" by blast
  then have a: "\<bar>r\<bar> = of_int \<bar>k\<bar> / 8388608" by (simp add: pow2_def abs_mult)
  then have "real_of_int 9227468 < of_int \<bar>k\<bar>" using assms(2) by simp
  then have "9227468 < \<bar>k\<bar>" by (simp only: of_int_less_iff)
  then have "9227469 \<le> \<bar>k\<bar>" by simp
  then have "real_of_int 9227469 \<le> of_int \<bar>k\<bar>" by (simp only: of_int_le_iff)
  then have "9227469 / 8388608 \<le> \<bar>r\<bar>" unfolding a by simp
  then show ?thesis by simp
qed

lemma above_1_10:
  assumes "float32 r" "1 / 10 < \<bar>r\<bar>"
  shows "3602879701896397 / 36028797018963968 < \<bar>r\<bar>"
proof -
  have "pow2 (- 4) \<le> \<bar>r\<bar>" using assms(2) by (simp add: pow2_def)
  from float32_grid[OF assms(1) this] obtain k where k: "r = of_int k * pow2 (- 4 - 23)" by blast
  then have a: "\<bar>r\<bar> = of_int \<bar>k\<bar> / 134217728" by (simp add: pow2_def abs_mult)
  then have "real_of_int 13421772 < of_int \<bar>k\<bar>" using assms(2) by simp
  then have "13421772 < \<bar>k\<bar>" by (simp only: of_int_less_iff)
  then have "13421773 \<le> \<bar>k\<bar>" by simp
  then have "real_of_int 13421773 \<le> of_int \<bar>k\<bar>" by (simp only: of_int_le_iff)
  then have "13421773 / 134217728 \<le> \<bar>r\<bar>" unfolding a by simp
  then show ?thesis by simp
qed

text \<open>On single-precision values the range tests of the program, which compare with
  doubles, are the tests with the decimal thresholds.\<close>

lemma range_flags:
  assumes "float32 m" "float32 M"
  shows "isNormalized11 (Num m) (Num M) = (- 11 / 10 \<le> m \<and> m < - 1 / 10 \<and> M \<le> 11 / 10)"
    and "is0255 (Num M) = (11 / 10 < M \<and> M \<le> 511 / 2)"
proof -
  define d11 :: real where "d11 = 2476979795053773 / 2251799813685248"
  define d01 :: real where "d01 = 3602879701896397 / 36028797018963968"
  have e11: "binary64 (11 / 10) = Num d11" unfolding d11_def by (rule binary64_11_10)
  have e01: "binary64 (1 / 10) = Num d01" unfolding d01_def by (rule binary64_1_10)
  have g11: "11 / 10 \<le> d11" and g01: "1 / 10 \<le> d01" by (simp_all add: d11_def d01_def)
  have h11: "11 / 10 < \<bar>r\<bar> \<Longrightarrow> d11 < \<bar>r\<bar>" if "float32 r" for r
    unfolding d11_def using that by (rule above_11_10)
  have h01: "1 / 10 < \<bar>r\<bar> \<Longrightarrow> d01 < \<bar>r\<bar>" if "float32 r" for r
    unfolding d01_def using that by (rule above_1_10)
  have a: "(- d11 \<le> m) = (- 11 / 10 \<le> m)"
  proof
    assume l: "- d11 \<le> m"
    show "- 11 / 10 \<le> m"
    proof (rule ccontr)
      assume n: "\<not> - 11 / 10 \<le> m"
      then have "11 / 10 < \<bar>m\<bar>" by simp
      then have "d11 < \<bar>m\<bar>" by (rule h11[OF assms(1)])
      then show False using l n by simp
    qed
  next
    assume "- 11 / 10 \<le> m"
    then show "- d11 \<le> m" using g11 by simp
  qed
  have b: "(M \<le> d11) = (M \<le> 11 / 10)"
  proof
    assume l: "M \<le> d11"
    show "M \<le> 11 / 10"
    proof (rule ccontr)
      assume n: "\<not> M \<le> 11 / 10"
      then have "11 / 10 < \<bar>M\<bar>" by simp
      then have "d11 < \<bar>M\<bar>" by (rule h11[OF assms(2)])
      then show False using l n by simp
    qed
  next
    assume "M \<le> 11 / 10"
    then show "M \<le> d11" using g11 by simp
  qed
  have c: "(m < - d01) = (m < - 1 / 10)"
  proof
    assume "m < - d01"
    then show "m < - 1 / 10" using g01 by simp
  next
    assume l: "m < - 1 / 10"
    then have "1 / 10 < \<bar>m\<bar>" by simp
    then have "d01 < \<bar>m\<bar>" by (rule h01[OF assms(1)])
    then show "m < - d01" using l by simp
  qed
  show "isNormalized11 (Num m) (Num M) = (- 11 / 10 \<le> m \<and> m < - 1 / 10 \<and> M \<le> 11 / 10)"
    unfolding isNormalized11_def e11 e01 num_neg.simps num_le.simps num_lt.simps a b c by blast
  have f: "binary64 (511 / 2) = Num (511 / 2)" by (rule binary64_511_2)
  show "is0255 (Num M) = (11 / 10 < M \<and> M \<le> 511 / 2)"
    unfolding is0255_def e11 f num_le.simps num_lt.simps using b by auto
qed

text \<open>\<open>processImage\<close> once the session has produced the output tensor.\<close>

lemma processImage_output:
  assumes "session w = Some sess"
    and "createMaskedInputTensors env imageData maskData INPUT_SIZE = Inr ts"
    and "sess_run sess [findInputName ''image'' 0 (inputNames w) \<mapsto> imageTensor ts,
                        findInputName ''mask'' 1 (inputNames w) \<mapsto> maskTensor ts] = Inr results"
    and "results (nameAt (outputNames w) 0) = Some t"
  shows "snd (processImage w env imageData maskData originalWidth originalHeight) =
           tensorToImageData env t originalWidth originalHeight
             (Math_min (take 10000 (t_data t))) (Math_max (take 10000 (t_data t)))"
  using assms by (simp add: processImage_def Let_def)

text \<open>
  Claim C2. For a process request whose run yields the output tensor, \<open>processImage\<close>
  takes the minimum \<open>m\<close> and maximum \<open>M\<close> of the first 10,000 output values and
  converts with them: if \<open>-1.1 \<le> m < -0.1\<close> and \<open>M \<le> 1.1\<close> every channel value \<open>v\<close>
  is remapped to \<open>(v + 1) / 2\<close>, else if \<open>1.1 < M \<le> 255.5\<close> it is divided by 255, else
  it is used as it is; the 8-bit channel is \<open>Math.round\<close> of the product with 255,
  clamped to \<open>[0, 255]\<close> (0 for \<open>NaN\<close>). All arithmetic is the program's double
  arithmetic. For a sample of finite values \<open>m\<close> and \<open>M\<close> are its least and greatest
  value, and for single-precision values the tests against the doubles nearest to the
  thresholds are the tests against the decimal thresholds themselves.
\<close>

theorem output_range_detection:
  assumes "session w = Some sess"
    and "createMaskedInputTensors env imageData maskData INPUT_SIZE = Inr ts"
    and "sess_run sess [findInputName ''image'' 0 (inputNames w) \<mapsto> imageTensor ts,
                        findInputName ''mask'' 1 (inputNames w) \<mapsto> maskTensor ts] = Inr results"
    and "results (nameAt (outputNames w) 0) = Some t"
    and "\<not> unexpectedFormat (t_dims t)" and "outCtxOk env" and "resultCtxOk env"
    and "i < INPUT_SIZE * INPUT_SIZE" and "c < 3"
  shows "let dat = t_data t;
             minVal = Math_min (take 10000 dat);
             maxVal = Math_max (take 10000 dat);
             pixels = forLoop 0 (INPUT_SIZE * INPUT_SIZE) (rangedPixel dat minVal maxVal)
                        (replicate (4 * INPUT_SIZE * INPUT_SIZE) 0);
             v = f32_at dat (i + c * (INPUT_SIZE * INPUT_SIZE));
             u = (if num_le (num_neg (binary64 (11 / 10))) minVal \<and>
                     num_lt minVal (num_neg (binary64 (1 / 10))) \<and>
                     num_le maxVal (binary64 (11 / 10))
                  then num_div (num_add v (Num 1)) (Num 2)
                  else if num_lt (binary64 (11 / 10)) maxVal \<and> num_le maxVal (binary64 (511 / 2))
                  then num_div v (Num 255)
                  else v)
         in snd (processImage w env imageData maskData originalWidth originalHeight) =
              drawResult env pixels originalWidth originalHeight \<and>
            pixels ! (i * 4 + c) =
              toUint8Clamp (Math_round (Math_max [Num 0, Math_min [Num 255, num_mul u (Num 255)]])) \<and>
            uint (pixels ! (i * 4 + c)) =
              (case num_mul u (Num 255) of
                 Num x \<Rightarrow> max 0 (min 255 \<lfloor>x + 1 / 2\<rfloor>)
               | Infinity \<Rightarrow> 255
               | _ \<Rightarrow> 0) \<and>
            (\<forall>rs. take 10000 dat = map Num rs \<and> rs \<noteq> [] \<longrightarrow>
               minVal = Num (Min (set rs)) \<and> maxVal = Num (Max (set rs)) \<and>
               ((\<forall>r \<in> set rs. float32 r) \<longrightarrow>
                  u = (if - 11 / 10 \<le> Min (set rs) \<and> Min (set rs) < - 1 / 10 \<and>
                          Max (set rs) \<le> 11 / 10
                       then num_div (num_add v (Num 1)) (Num 2)
                       else if 11 / 10 < Max (set rs) \<and> Max (set rs) \<le> 511 / 2
                       then num_div v (Num 255)
                       else v)))"
proof -
  define dat where "dat = t_data t"
  define minVal where "minVal = Math_min (take 10000 dat)"
  define maxVal where "maxVal = Math_max (take 10000 dat)"
  define pixels where
    "pixels = forLoop 0 (INPUT_SIZE * INPUT_SIZE) (rangedPixel dat minVal maxVal)
                (replicate (4 * INPUT_SIZE * INPUT_SIZE) 0)"
  define v where "v = f32_at dat (i + c * (INPUT_SIZE * INPUT_SIZE))"
  define u where "u = remap minVal maxVal v"
  let ?N = "INPUT_SIZE * INPUT_SIZE"
  have conv: "snd (processImage w env imageData maskData originalWidth originalHeight) =
           drawResult env pixels originalWidth originalHeight"
    using assms(5-7) processImage_output[OF assms(1-4), of originalWidth originalHeight]
    unfolding pixels_def minVal_def maxVal_def dat_def
    by (simp add: tensorToImageData_def Let_def)
  let ?f = "\<lambda>k c. toChannel (remap minVal maxVal (f32_at dat (k + c * ?N)))"
  have step: "\<And>k out. rangedPixel dat minVal maxVal k out =
      out[k * 4 := ?f k 0, k * 4 + 1 := ?f k 1, k * 4 + 2 := ?f k 2, k * 4 + 3 := 255]"
    by (simp add: rangedPixel_eq)
  have loop: "\<forall>j < ?N.
            pixels ! (j * 4) = ?f j 0 \<and> pixels ! (j * 4 + 1) = ?f j 1 \<and> pixels ! (j * 4 + 2) = ?f j 2"
    using pixel_loop[of "rangedPixel dat minVal maxVal" ?f 255 ?N
        "replicate (4 * INPUT_SIZE * INPUT_SIZE) 0", OF step]
    unfolding pixels_def by simp
  have c3: "c = 0 \<or> c = 1 \<or> c = 2" using assms(9) by arith
  have pix: "pixels ! (i * 4 + c) = toChannel u"
    using loop assms(8) c3 unfolding u_def v_def by auto
  have byte: "pixels ! (i * 4 + c) =
      toUint8Clamp (Math_round (Math_max [Num 0, Math_min [Num 255, num_mul u (Num 255)]]))"
    unfolding pix by (simp only: toChannel_def)
  have cases: "uint (pixels ! (i * 4 + c)) =
      (case num_mul u (Num 255) of
         Num x \<Rightarrow> max 0 (min 255 \<lfloor>x + 1 / 2\<rfloor>)
       | Infinity \<Rightarrow> 255
       | _ \<Rightarrow> 0)"
    unfolding pix by (rule toChannel_cases)
  have sample: "minVal = Num (Min (set rs)) \<and> maxVal = Num (Max (set rs)) \<and>
               ((\<forall>r \<in> set rs. float32 r) \<longrightarrow>
                  u = (if - 11 / 10 \<le> Min (set rs) \<and> Min (set rs) < - 1 / 10 \<and>
                          Max (set rs) \<le> 11 / 10
                       then num_div (num_add v (Num 1)) (Num 2)
                       else if 11 / 10 < Max (set rs) \<and> Max (set rs) \<le> 511 / 2
                       then num_div v (Num 255)
                       else v))"
    if rs: "take 10000 dat = map Num rs \<and> rs \<noteq> []" for rs
  proof (intro conjI impI)
    show mn: "minVal = Num (Min (set rs))"
      unfolding minVal_def using rs by (simp add: Math_min_finite)
    show mx: "maxVal = Num (Max (set rs))"
      unfolding maxVal_def using rs by (simp add: Math_max_finite)
    assume f: "\<forall>r \<in> set rs. float32 r"
    have "Min (set rs) \<in> set rs" "Max (set rs) \<in> set rs" using rs by simp_all
    then have fm: "float32 (Min (set rs))" "float32 (Max (set rs))" using f by blast+
    show "u = (if - 11 / 10 \<le> Min (set rs) \<and> Min (set rs) < - 1 / 10 \<and>
                          Max (set rs) \<le> 11 / 10
                       then num_div (num_add v (Num 1)) (Num 2)
                       else if 11 / 10 < Max (set rs) \<and> Max (set rs) \<le> 511 / 2
                       then num_div v (Num 255)
                       else v)"
      unfolding u_def remap_def mn mx range_flags[OF fm] by (rule refl)
  qed
  have u: "u = (if num_le (num_neg (binary64 (11 / 10))) minVal \<and>
                     num_lt minVal (num_neg (binary64 (1 / 10))) \<and>
                     num_le maxVal (binary64 (11 / 10))
                  then num_div (num_add v (Num 1)) (Num 2)
                  else if num_lt (binary64 (11 / 10)) maxVal \<and> num_le maxVal (binary64 (511 / 2))
                  then num_div v (Num 255)
                  else v)"
    unfolding u_def remap_def isNormalized11_def is0255_def by auto
  show ?thesis
    unfolding Let_def
    using conv byte cases sample
    unfolding u dat_def minVal_def maxVal_def pixels_def v_def
    by blast
qed

theorem output_range_detection_witness:
  "session roundingWorker = Some roundingSession \<and>
   createMaskedInputTensors exampleEnv examplePixel blackPixel INPUT_SIZE = Inr exampleTensors \<and>
   sess_run roundingSession
     [findInputName ''image'' 0 (inputNames roundingWorker) \<mapsto> imageTensor exampleTensors,
      findInputName ''mask'' 1 (inputNames roundingWorker) \<mapsto> maskTensor exampleTensors] =
     Inr [''output'' \<mapsto> roundingOutput] \<and>
   [''output'' \<mapsto> roundingOutput] (nameAt (outputNames roundingWorker) 0) = Some roundingOutput \<and>
   \<not> unexpectedFormat (t_dims roundingOutput) \<and> outCtxOk exampleEnv \<and> resultCtxOk exampleEnv \<and>
   (1 :: nat) < INPUT_SIZE * INPUT_SIZE \<and> (0 :: nat) < 3 \<and>
   take 10000 (t_data roundingOutput) = map Num [- 1, - (1 / 2 ^ 60)] \<and>
   float32 (- 1) \<and> float32 (- (1 / 2 ^ 60)) \<and>
   Math_min (take 10000 (t_data roundingOutput)) = Num (- 1) \<and>
   Math_max (take 10000 (t_data roundingOutput)) = Num (- (1 / 2 ^ 60)) \<and>
   snd (processImage roundingWorker exampleEnv examplePixel blackPixel 1 1) =
     drawResult exampleEnv
       (forLoop 0 (INPUT_SIZE * INPUT_SIZE)
          (rangedPixel (t_data roundingOutput) (Num (- 1)) (Num (- (1 / 2 ^ 60))))
          (replicate (4 * INPUT_SIZE * INPUT_SIZE) 0)) 1 1 \<and>
   Min (set [- 1, - (1 / 2 ^ 60)]) = (- 1 :: real) \<and>
   num_div (num_add (Num (- (1 / 2 ^ 60))) (Num 1)) (Num 2) = Num (1 / 2) \<and>
   uint (forLoop 0 (INPUT_SIZE * INPUT_SIZE)
           (rangedPixel (t_data roundingOutput) (Num (- 1)) (Num (- (1 / 2 ^ 60))))
           (replicate (4 * INPUT_SIZE * INPUT_SIZE) 0) ! (1 * 4 + 0)) = 128"
proof -
  have h1: "session roundingWorker = Some roundingSession" by (simp add: roundingWorker_def)
  have h2: "createMaskedInputTensors exampleEnv examplePixel blackPixel INPUT_SIZE =
              Inr exampleTensors"
    by (simp add: createMaskedInputTensors_def exampleEnv_def exampleTensors_def Let_def)
  have h3: "sess_run roundingSession
     [findInputName ''image'' 0 (inputNames roundingWorker) \<mapsto> imageTensor exampleTensors,
      findInputName ''mask'' 1 (inputNames roundingWorker) \<mapsto> maskTensor exampleTensors] =
     Inr [''output'' \<mapsto> roundingOutput]"
    by (simp add: roundingSession_def)
  have h4: "[''output'' \<mapsto> roundingOutput] (nameAt (outputNames roundingWorker) 0) =
              Some roundingOutput"
    by (simp add: roundingWorker_def nameAt_def)
  have h5: "\<not> unexpectedFormat (t_dims roundingOutput)"
    by (simp add: roundingOutput_def unexpectedFormat_def)
  have h6: "outCtxOk exampleEnv" and h7: "resultCtxOk exampleEnv" by (simp_all add: exampleEnv_def)
  have h8: "(1 :: nat) < INPUT_SIZE * INPUT_SIZE" by (simp add: INPUT_SIZE_def)
  have h9: "(0 :: nat) < 3" by simp
  have s: "take 10000 (t_data roundingOutput) = map Num [- 1, - (1 / 2 ^ 60)]"
    by (simp add: roundingOutput_def)
  have f: "float32 (- 1)" "float32 (- (1 / 2 ^ 60))"
    by (simp_all add: float32_def rounding_eval)
  have mm: "Math_min (take 10000 (t_data roundingOutput)) = Num (- 1)"
           "Math_max (take 10000 (t_data roundingOutput)) = Num (- (1 / 2 ^ 60))"
    by (simp_all add: roundingOutput_def Math_min_def Math_max_def)
  have v: "f32_at (t_data roundingOutput) (1 + 0 * (INPUT_SIZE * INPUT_SIZE)) = Num (- (1 / 2 ^ 60))"
    by (simp add: roundingOutput_def f32_at_def)
  have fl: "num_le (num_neg (binary64 (11 / 10))) (Num (- 1)) \<and>
            num_lt (Num (- 1)) (num_neg (binary64 (1 / 10))) \<and>
            num_le (Num (- (1 / 2 ^ 60))) (binary64 (11 / 10))"
    by (simp add: binary64_11_10 binary64_1_10)
  have half: "num_div (num_add (Num (- (1 / 2 ^ 60))) (Num 1)) (Num 2) = Num (1 / 2)"
    by (simp add: rounding_eval)
  have prod: "num_mul (Num (1 / 2)) (Num 255) = Num (255 / 2)"
    by (simp add: rounding_eval)
  note t = output_range_detection [OF h1 h2 h3 h4 h5 h6 h7 h8 h9, of 1 1, unfolded Let_def mm v]
  have r: "snd (processImage roundingWorker exampleEnv examplePixel blackPixel 1 1) =
     drawResult exampleEnv
       (forLoop 0 (INPUT_SIZE * INPUT_SIZE)
          (rangedPixel (t_data roundingOutput) (Num (- 1)) (Num (- (1 / 2 ^ 60))))
          (replicate (4 * INPUT_SIZE * INPUT_SIZE) 0)) 1 1"
    using t by blast
  have "uint (forLoop 0 (INPUT_SIZE * INPUT_SIZE)
           (rangedPixel (t_data roundingOutput) (Num (- 1)) (Num (- (1 / 2 ^ 60))))
           (replicate (4 * INPUT_SIZE * INPUT_SIZE) 0) ! (1 * 4 + 0)) =
        (case num_mul
                (if num_le (num_neg (binary64 (11 / 10))) (Num (- 1)) \<and>
                    num_lt (Num (- 1)) (num_neg (binary64 (1 / 10))) \<and>
                    num_le (Num (- (1 / 2 ^ 60))) (binary64 (11 / 10))
                 then num_div (num_add (Num (- (1 / 2 ^ 60))) (Num 1)) (Num 2)
                 else if num_lt (binary64 (11 / 10)) (Num (- (1 / 2 ^ 60))) \<and>
                         num_le (Num (- (1 / 2 ^ 60))) (binary64 (511 / 2))
                 then num_div (Num (- (1 / 2 ^ 60))) (Num 255)
                 else Num (- (1 / 2 ^ 60)))
                (Num 255) of
           Num x \<Rightarrow> max 0 (min 255 \<lfloor>x + 1 / 2\<rfloor>)
         | Infinity \<Rightarrow> 255
         | _ \<Rightarrow> 0)"
    using t by blast
  then have c: "uint (forLoop 0 (INPUT_SIZE * INPUT_SIZE)
           (rangedPixel (t_data roundingOutput) (Num (- 1)) (Num (- (1 / 2 ^ 60))))
           (replicate (4 * INPUT_SIZE * INPUT_SIZE) 0) ! (1 * 4 + 0)) = 128"
    unfolding if_P[OF fl] half prod by simp
  have ne: "[- 1, - (1 / 2 ^ 60)] \<noteq> ([] :: real list)" by simp
  from t s ne have "Num (- 1) = Num (Min (set [- 1, - (1 / 2 ^ 60)]))" by blast
  then have least: "Min (set [- 1, - (1 / 2 ^ 60)]) = (- 1 :: real)" by simp
  show ?thesis using h1 h2 h3 h4 h5 h6 h7 h8 h9 s f mm r half c least by blast
qed

text \<open>
  Claim C4 as stated fails: a tensor of shape \<open>[1, 3, 256, 256]\<close> is converted by
  both functions without an error.
\<close>

theorem tensor_shape_guard_counterexample:
  "t_dims smallTensor = Some [1, 3, 256, 256] \<and>
   [1, 3, 256, 256] \<noteq> [1, 3, 512, 512 :: nat] \<and>
   \<not> isl (tensorToImageData exampleEnv smallTensor 1 1 (Num 0) (Num 0)) \<and>
   tensorToImage exampleCanvasEnv smallTensor 1 1 = Inr ''data:image/png;base64,''"
  by (simp add: smallTensor_def exampleEnv_def exampleCanvasEnv_def tensorToImageData_def
      tensorToImage_def unexpectedFormat_def Let_def)

text \<open>
  Claim C4, as amended. A tensor whose dims are missing, do not have exactly four entries
  or do not start with 1 and 3 makes \<open>tensorToImage\<close> and \<open>tensorToImageData\<close> fail
  with the error \<open>Unexpected tensor format\<close> before any pixel is converted. The height
  and width entries are not examined: a tensor of shape \<open>[1, 3, H, W]\<close> passes the guard
  for every \<open>H\<close> and \<open>W\<close>, and the conversion goes on to the 512 by 512 loop.
\<close>

theorem tensor_format_guard:
  "((t_dims t = None \<or>
     (\<exists>ds. t_dims t = Some ds \<and> (length ds \<noteq> 4 \<or> ds ! 0 \<noteq> 1 \<or> ds ! 1 \<noteq> 3))) \<longrightarrow>
      tensorToImageData env t originalWidth originalHeight minVal maxVal =
        Inl (Error (''Unexpected tensor format: '' @ stringifyDims (t_dims t))) \<and>
      tensorToImage cenv t originalWidth originalHeight =
        Inl (Error (''Unexpected tensor format: '' @ stringifyDims (t_dims t)))) \<and>
   (t_dims t = Some [1, 3, H, W] \<and> outCtxOk env \<and> resultCtxOk env \<longrightarrow>
      tensorToImageData env t originalWidth originalHeight minVal maxVal =
        drawResult env
          (forLoop 0 (INPUT_SIZE * INPUT_SIZE) (rangedPixel (t_data t) minVal maxVal)
             (replicate (4 * INPUT_SIZE * INPUT_SIZE) 0))
          originalWidth originalHeight) \<and>
   (t_dims t = Some [1, 3, H, W] \<and> canvasCtxOk cenv \<and> resultCanvasCtxOk cenv \<longrightarrow>
      tensorToImage cenv t originalWidth originalHeight =
        Inr (drawToDataURL cenv
               (forLoop 0 (INPUT_SIZE * INPUT_SIZE) (plainPixel (t_data t))
                  (replicate (4 * INPUT_SIZE * INPUT_SIZE) 0))
               originalWidth originalHeight))"
proof (intro conjI impI)
  assume "t_dims t = None \<or>
     (\<exists>ds. t_dims t = Some ds \<and> (length ds \<noteq> 4 \<or> ds ! 0 \<noteq> 1 \<or> ds ! 1 \<noteq> 3))"
  then have u: "unexpectedFormat (t_dims t)"
    by (auto simp: unexpectedFormat_def)
  show "tensorToImageData env t originalWidth originalHeight minVal maxVal =
        Inl (Error (''Unexpected tensor format: '' @ stringifyDims (t_dims t)))"
    using u by (simp add: tensorToImageData_def)
  show "tensorToImage cenv t originalWidth originalHeight =
        Inl (Error (''Unexpected tensor format: '' @ stringifyDims (t_dims t)))"
    using u by (simp add: tensorToImage_def)
next
  assume "t_dims t = Some [1, 3, H, W] \<and> outCtxOk env \<and> resultCtxOk env"
  then show "tensorToImageData env t originalWidth originalHeight minVal maxVal =
        drawResult env
          (forLoop 0 (INPUT_SIZE * INPUT_SIZE) (rangedPixel (t_data t) minVal maxVal)
             (replicate (4 * INPUT_SIZE * INPUT_SIZE) 0))
          originalWidth originalHeight"
    by (simp add: tensorToImageData_def unexpectedFormat_def Let_def)
next
  assume "t_dims t = Some [1, 3, H, W] \<and> canvasCtxOk cenv \<and> resultCanvasCtxOk cenv"
  then show "tensorToImage cenv t originalWidth originalHeight =
        Inr (drawToDataURL cenv
               (forLoop 0 (INPUT_SIZE * INPUT_SIZE) (plainPixel (t_data t))
                  (replicate (4 * INPUT_SIZE * INPUT_SIZE) 0))
               originalWidth originalHeight)"
    by (simp add: tensorToImage_def unexpectedFormat_def Let_def)
qed

theorem tensor_format_guard_witness:
  "t_dims flatTensor = Some [3] \<and> length [3 :: nat] \<noteq> 4 \<and>
   tensorToImageData exampleEnv flatTensor 1 1 (Num 0) (Num 0) =
     Inl (Error ''Unexpected tensor format: [3]'') \<and>
   tensorToImage exampleCanvasEnv flatTensor 1 1 =
     Inl (Error ''Unexpected tensor format: [3]'') \<and>
   t_dims smallTensor = Some [1, 3, 256, 256] \<and> outCtxOk exampleEnv \<and> resultCtxOk exampleEnv \<and>
   canvasCtxOk exampleCanvasEnv \<and> resultCanvasCtxOk exampleCanvasEnv \<and>
   tensorToImage exampleCanvasEnv smallTensor 1 1 = Inr ''data:image/png;base64,'' \<and>
   tensorToImageData exampleEnv smallTensor 1 1 (Num 0) (Num 0) =
     drawResult exampleEnv
       (forLoop 0 (INPUT_SIZE * INPUT_SIZE) (rangedPixel (t_data smallTensor) (Num 0) (Num 0))
          (replicate (4 * INPUT_SIZE * INPUT_SIZE) 0)) 1 1"
proof -
  have f: "t_dims flatTensor = Some [3]" by (simp add: flatTensor_def)
  have s: "stringifyDims (Some [3]) = ''[3]''" by (simp add: stringifyDims_def)
  have d: "t_dims smallTensor = Some [1, 3, 256, 256]" by (simp add: smallTensor_def)
  have e: "outCtxOk exampleEnv \<and> resultCtxOk exampleEnv" by (simp add: exampleEnv_def)
  have c: "canvasCtxOk exampleCanvasEnv \<and> resultCanvasCtxOk exampleCanvasEnv"
    by (simp add: exampleCanvasEnv_def)
  have u: "drawToDataURL exampleCanvasEnv = (\<lambda>pixels w h. ''data:image/png;base64,'')"
    by (simp add: exampleCanvasEnv_def)
  note t1 = tensor_format_guard [where t = flatTensor and env = exampleEnv and cenv = exampleCanvasEnv
      and originalWidth = 1 and originalHeight = 1 and minVal = "Num 0" and maxVal = "Num 0"]
  note t2 = tensor_format_guard [where t = smallTensor and env = exampleEnv and cenv = exampleCanvasEnv
      and originalWidth = 1 and originalHeight = 1 and minVal = "Num 0" and maxVal = "Num 0"
      and H = 256 and W = 256]
  have a1: "tensorToImageData exampleEnv flatTensor 1 1 (Num 0) (Num 0) =
     Inl (Error ''Unexpected tensor format: [3]'') \<and>
   tensorToImage exampleCanvasEnv flatTensor 1 1 =
     Inl (Error ''Unexpected tensor format: [3]'')"
    using t1 f s by simp
  have a2: "tensorToImage exampleCanvasEnv smallTensor 1 1 = Inr ''data:image/png;base64,'' \<and>
   tensorToImageData exampleEnv smallTensor 1 1 (Num 0) (Num 0) =
     drawResult exampleEnv
       (forLoop 0 (INPUT_SIZE * INPUT_SIZE) (rangedPixel (t_data smallTensor) (Num 0) (Num 0))
          (replicate (4 * INPUT_SIZE * INPUT_SIZE) 0)) 1 1"
    using t2 d e c u by simp
  show ?thesis using f d e c a1 a2 by simp
qed

section \<open>Properties of model loading\<close>

lemma filter_at_most_one:
  "(\<And>i j. i < length xs \<Longrightarrow> j < length xs \<Longrightarrow> P (xs ! i) \<Longrightarrow> P (xs ! j) \<Longrightarrow> i = j) \<Longrightarrow>
   length (filter P xs) \<le> 1"
proof (induction xs)
  case Nil
  then show ?case by simp
next
  case (Cons x xs)
  have tailuniq: "\<And>i j. i < length xs \<Longrightarrow> j < length xs \<Longrightarrow> P (xs ! i) \<Longrightarrow> P (xs ! j) \<Longrightarrow> i = j"
  proof -
    fix i j assume "i < length xs" "j < length xs" "P (xs ! i)" "P (xs ! j)"
    then have "Suc i = Suc j" using Cons.prems[of "Suc i" "Suc j"] by simp
    then show "i = j" by simp
  qed
  show ?case
  proof (cases "P x")
    case True
    have "filter P xs = []"
    proof (rule ccontr)
      assume "filter P xs \<noteq> []"
      then obtain y where "y \<in> set xs" "P y" by (metis filter_False)
      then obtain i where "i < length xs" "xs ! i = y" by (auto simp: in_set_conv_nth)
      then have "Suc i = 0" using Cons.prems[of "Suc i" 0] True \<open>P y\<close> by simp
      then show False by simp
    qed
    then show ?thesis using True by simp
  next
    case False
    then show ?thesis using Cons.IH tailuniq by simp
  qed
qed

lemma filter_none: "(\<And>i. i < length xs \<Longrightarrow> \<not> P (xs ! i)) \<Longrightarrow> length (filter P xs) = 0"
  by (auto simp: filter_empty_conv in_set_conv_nth)

lemma filter_some: "i < length xs \<Longrightarrow> P (xs ! i) \<Longrightarrow> 0 < length (filter P xs)"
  by (metis filter_empty_conv length_greater_0_conv nth_mem)

lemma loaderInv_pending:
  assumes "loaderInv w"
  shows "pendingCount w \<le> 1"
  unfolding pendingCount_def
proof (rule filter_at_most_one)
  fix i j
  assume i: "i < length (promises w)" "promises w ! i = Pending"
    and j: "j < length (promises w)" "promises w ! j = Pending"
  have all: "\<forall>p < length (promises w). promises w ! p = Pending \<longrightarrow>
        loadingPromise w = Some p \<and> session w = None"
    using assms unfolding loaderInv_def by blast
  have "loadingPromise w = Some i" using all i by blast
  moreover have "loadingPromise w = Some j" using all j by blast
  ultimately show "i = j" by simp
qed

lemma loadModel_inv:
  assumes "loaderInv w"
  shows "loaderInv (snd (loadModel w))"
proof (cases "session w")
  case (Some s)
  then show ?thesis using assms by (simp add: loadModel_def)
next
  case None
  show ?thesis
  proof (cases "loadingPromise w")
    case (Some p)
    then show ?thesis using assms None by (simp add: loadModel_def)
  next
    case lp: None
    have nopending: "\<forall>p < length (promises w). promises w ! p \<noteq> Pending"
      using assms lp by (auto simp: loaderInv_def)
    have eq: "snd (loadModel w) =
        w\<lparr>promises := promises w @ [Pending], loadingPromise := Some (length (promises w))\<rparr>"
      using None lp by (simp add: loadModel_def Let_def)
    show ?thesis
      unfolding eq loaderInv_def using nopending None
      by (simp add: nth_append less_Suc_eq)
  qed
qed

lemma attemptEnds_skip:
  "\<not> (p < length (promises w) \<and> promises w ! p = Pending) \<Longrightarrow> attemptEnds c p outcome w = w"
  unfolding attemptEnds_def by (rule if_not_P)

lemma attemptEnds_fail:
  "p < length (promises w) \<Longrightarrow> promises w ! p = Pending \<Longrightarrow>
   attemptEnds c p (Inl e) w = w\<lparr>loadingPromise := None, promises := (promises w)[p := Rejected e]\<rparr>"
  by (simp add: attemptEnds_def)

lemma attemptEnds_ok:
  "p < length (promises w) \<Longrightarrow> promises w ! p = Pending \<Longrightarrow>
   attemptEnds c p (Inr s) w =
     w\<lparr>session := Some s,
       inputNames := (if c = Worker then sess_inputNames s else inputNames w),
       outputNames := (if c = Worker then sess_outputNames s else outputNames w),
       promises := (promises w)[p := Fulfilled s]\<rparr>"
  by (simp add: attemptEnds_def)

lemma attemptEnds_inv:
  assumes "loaderInv w"
  shows "loaderInv (attemptEnds c p outcome w)"
proof (cases "p < length (promises w) \<and> promises w ! p = Pending")
  case False
  show ?thesis using assms attemptEnds_skip[OF False, of c outcome] by simp
next
  case True
  have all: "\<forall>q < length (promises w). promises w ! q = Pending \<longrightarrow>
        loadingPromise w = Some q \<and> session w = None"
    and rng: "\<forall>q. loadingPromise w = Some q \<longrightarrow> q < length (promises w)"
    using assms unfolding loaderInv_def by blast+
  have lp: "loadingPromise w = Some p" using all True by blast
  have others: "\<And>q. q < length (promises w) \<Longrightarrow> q \<noteq> p \<Longrightarrow> promises w ! q \<noteq> Pending"
    using all lp by auto
  show ?thesis
  proof (cases outcome)
    case (Inl e)
    have eq: "attemptEnds c p outcome w =
        w\<lparr>loadingPromise := None, promises := (promises w)[p := Rejected e]\<rparr>"
      using True Inl by (simp only: attemptEnds_fail)
    have "\<And>q. q < length (promises w) \<Longrightarrow> (promises w)[p := Rejected e] ! q \<noteq> Pending"
      using others by (case_tac "q = p") simp_all
    then show ?thesis unfolding eq loaderInv_def by simp
  next
    case (Inr s)
    have eq: "attemptEnds c p outcome w =
       w\<lparr>session := Some s,
       inputNames := (if c = Worker then sess_inputNames s else inputNames w),
       outputNames := (if c = Worker then sess_outputNames s else outputNames w),
       promises := (promises w)[p := Fulfilled s]\<rparr>"
      using True Inr by (simp only: attemptEnds_ok)
    have "\<And>q. q < length (promises w) \<Longrightarrow> (promises w)[p := Fulfilled s] ! q \<noteq> Pending"
      using others by (case_tac "q = p") simp_all
    then show ?thesis unfolding eq loaderInv_def using rng by simp
  qed
qed

lemma loaderStep_inv: "loaderInv w \<Longrightarrow> loaderInv (loaderStep c e w)"
  by (cases e) (simp_all add: loadModel_inv attemptEnds_inv)

lemma loaderRun_inv: "loaderInv w \<Longrightarrow> loaderInv (loaderRun c es w)"
  by (induction es arbitrary: w) (simp_all add: loaderStep_inv)

lemma initialLoader_inv: "loaderInv initialLoader"
  by (simp add: loaderInv_def initialLoader_def)

lemma inflight_call:
  assumes "loaderInv w" "p < length (promises w)" "promises w ! p = Pending"
  shows "loadingPromise w = Some p \<and> loadModel w = (Follows p, w)"
proof -
  have all: "\<forall>q < length (promises w). promises w ! q = Pending \<longrightarrow>
        loadingPromise w = Some q \<and> session w = None"
    using assms(1) unfolding loaderInv_def by blast
  have "loadingPromise w = Some p \<and> session w = None" using all assms(2,3) by blast
  then show ?thesis by (simp add: loadModel_def)
qed

lemma failed_attempt:
  assumes "loaderInv w" "p < length (promises w)" "promises w ! p = Pending"
  shows "loadingPromise (attemptEnds c p (Inl e) w) = None \<and>
         promises (attemptEnds c p (Inl e) w) ! p = Rejected e \<and>
         session (attemptEnds c p (Inl e) w) = None \<and>
         pendingCount (attemptEnds c p (Inl e) w) = 0 \<and>
         loadModel (attemptEnds c p (Inl e) w) =
           (Follows (length (promises w)),
            (attemptEnds c p (Inl e) w)
              \<lparr>promises := promises (attemptEnds c p (Inl e) w) @ [Pending],
               loadingPromise := Some (length (promises w))\<rparr>)"
proof -
  let ?w = "attemptEnds c p (Inl e) w"
  have w': "?w = w\<lparr>loadingPromise := None, promises := (promises w)[p := Rejected e]\<rparr>"
    using assms(2,3) by (rule attemptEnds_fail)
  have all: "\<forall>q < length (promises w). promises w ! q = Pending \<longrightarrow>
        loadingPromise w = Some q \<and> session w = None"
    using assms(1) unfolding loaderInv_def by blast
  have s: "session w = None" and lp: "loadingPromise w = Some p" using all assms(2,3) by blast+
  have others: "\<And>q. q < length (promises w) \<Longrightarrow> q \<noteq> p \<Longrightarrow> promises w ! q \<noteq> Pending"
    using all lp by auto
  have np: "\<And>i. i < length (promises ?w) \<Longrightarrow> \<not> (promises ?w ! i = Pending)"
  proof -
    fix i assume "i < length (promises ?w)"
    then have i: "i < length (promises w)" unfolding w' by simp
    show "\<not> (promises ?w ! i = Pending)"
      unfolding w' using others[OF i] i by (cases "i = p") simp_all
  qed
  have pc: "pendingCount ?w = 0"
    unfolding pendingCount_def using np by (rule filter_none)
  have a: "loadingPromise ?w = None" unfolding w' by simp
  have b: "promises ?w ! p = Rejected e" unfolding w' using assms(2) by simp
  have c: "session ?w = None" unfolding w' using s by simp
  have len: "length (promises ?w) = length (promises w)" unfolding w' by simp
  have d: "loadModel ?w =
           (Follows (length (promises w)),
            ?w\<lparr>promises := promises ?w @ [Pending],
               loadingPromise := Some (length (promises w))\<rparr>)"
    using a c len by (simp add: loadModel_def Let_def)
  show ?thesis using a b c pc d by blast
qed

text \<open>
  Claim C5. In either execution context, after any sequence of calls of \<open>loadModel\<close>
  and ends of load attempts: at most one attempt is in flight; while one is, a call
  hands back that same pending promise and starts nothing; once a session exists a call
  hands it back directly; and when the attempt in flight fails, the shared promise is
  cleared, the promise is rejected with the error, and the next call starts a fresh
  attempt.
\<close>

theorem load_single_flight:
  "pendingCount (loaderRun c evs initialLoader) \<le> 1 \<and>
   (\<forall>p < length (promises (loaderRun c evs initialLoader)).
      promises (loaderRun c evs initialLoader) ! p = Pending \<longrightarrow>
        loadModel (loaderRun c evs initialLoader) = (Follows p, loaderRun c evs initialLoader)) \<and>
   (\<forall>s. session (loaderRun c evs initialLoader) = Some s \<longrightarrow>
        loadModel (loaderRun c evs initialLoader) = (Direct s, loaderRun c evs initialLoader)) \<and>
   (\<forall>p < length (promises (loaderRun c evs initialLoader)).
      promises (loaderRun c evs initialLoader) ! p = Pending \<longrightarrow>
        (let w' = attemptEnds c p (Inl e) (loaderRun c evs initialLoader)
         in loadingPromise w' = None \<and>
            promises w' ! p = Rejected e \<and>
            pendingCount w' = 0 \<and>
            fst (loadModel w') = Follows (length (promises w')) \<and>
            promises (snd (loadModel w')) = promises w' @ [Pending] \<and>
            pendingCount (snd (loadModel w')) = 1))"
proof -
  let ?w = "loaderRun c evs initialLoader"
  have inv: "loaderInv ?w" by (simp add: loaderRun_inv initialLoader_inv)
  have a: "pendingCount ?w \<le> 1" using inv by (rule loaderInv_pending)
  have b: "\<forall>p < length (promises ?w). promises ?w ! p = Pending \<longrightarrow> loadModel ?w = (Follows p, ?w)"
    using inflight_call[OF inv] by blast
  have c: "\<forall>s. session ?w = Some s \<longrightarrow> loadModel ?w = (Direct s, ?w)"
    by (simp add: loadModel_def)
  have d: "\<forall>p < length (promises ?w). promises ?w ! p = Pending \<longrightarrow>
        (let w' = attemptEnds c p (Inl e) ?w
         in loadingPromise w' = None \<and>
            promises w' ! p = Rejected e \<and>
            pendingCount w' = 0 \<and>
            fst (loadModel w') = Follows (length (promises w')) \<and>
            promises (snd (loadModel w')) = promises w' @ [Pending] \<and>
            pendingCount (snd (loadModel w')) = 1)"
  proof (intro allI impI)
    fix p assume p: "p < length (promises ?w)" "promises ?w ! p = Pending"
    note f = failed_attempt[OF inv p, of c e]
    let ?w' = "attemptEnds c p (Inl e) ?w"
    have len: "length (promises ?w') = length (promises ?w)"
      using p by (simp add: attemptEnds_def)
    have pc: "pendingCount (snd (loadModel ?w')) = 1"
      using f by (simp add: pendingCount_def)
    show "let w' = ?w' in loadingPromise w' = None \<and>
            promises w' ! p = Rejected e \<and>
            pendingCount w' = 0 \<and>
            fst (loadModel w') = Follows (length (promises w')) \<and>
            promises (snd (loadModel w')) = promises w' @ [Pending] \<and>
            pendingCount (snd (loadModel w')) = 1"
      using f pc len by (simp add: Let_def)
  qed
  show ?thesis using a b c d by blast
qed

lemma run_call: "loaderRun c [Call] initialLoader =
   \<lparr>session = None, loadingPromise = Some 0, inputNames = [], outputNames = [], promises = [Pending]\<rparr>"
  by (simp add: initialLoader_def loadModel_def Let_def)

lemma run_loaded: "loaderRun Worker [Call, AttemptEnds 0 downloadEnv] initialLoader =
   \<lparr>session = Some exampleSession, loadingPromise = Some 0,
    inputNames = [''image'', ''mask''], outputNames = [''output''],
    promises = [Fulfilled exampleSession]\<rparr>"
  by (simp add: initialLoader_def loadModel_def Let_def attemptEnds_def loadAttempt_def downloadModel_def
      downloadEnv_def exampleSession_def)

theorem load_single_flight_witness:
  "(0 :: nat) < length (promises (loaderRun Worker [Call] initialLoader)) \<and>
   promises (loaderRun Worker [Call] initialLoader) ! 0 = Pending \<and>
   loadModel (loaderRun Worker [Call] initialLoader) =
     (Follows 0, loaderRun Worker [Call] initialLoader) \<and>
   session (loaderRun Worker [Call, AttemptEnds 0 downloadEnv] initialLoader) = Some exampleSession \<and>
   loadModel (loaderRun Worker [Call, AttemptEnds 0 downloadEnv] initialLoader) =
     (Direct exampleSession, loaderRun Worker [Call, AttemptEnds 0 downloadEnv] initialLoader) \<and>
   loadingPromise (attemptEnds Worker 0 (Inl (Error ''Response body is null''))
                     (loaderRun Worker [Call] initialLoader)) = None \<and>
   pendingCount (snd (loadModel (attemptEnds Worker 0 (Inl (Error ''Response body is null''))
                     (loaderRun Worker [Call] initialLoader)))) = 1"
proof -
  let ?w = "loaderRun Worker [Call] initialLoader"
  let ?v = "loaderRun Worker [Call, AttemptEnds 0 downloadEnv] initialLoader"
  have p: "(0 :: nat) < length (promises ?w)" "promises ?w ! 0 = Pending"
    unfolding run_call by simp_all
  have s: "session ?v = Some exampleSession" unfolding run_loaded by simp
  note t1 = load_single_flight [of Worker "[Call]" "Error ''Response body is null''"]
  note t2 = load_single_flight [of Worker "[Call, AttemptEnds 0 downloadEnv]" "Error ''Response body is null''"]
  have a: "loadModel ?w = (Follows 0, ?w)" using t1 p by blast
  have b: "loadModel ?v = (Direct exampleSession, ?v)" using t2 s by blast
  have "let w' = attemptEnds Worker 0 (Inl (Error ''Response body is null'')) ?w
         in loadingPromise w' = None \<and>
            promises w' ! 0 = Rejected (Error ''Response body is null'') \<and>
            pendingCount w' = 0 \<and>
            fst (loadModel w') = Follows (length (promises w')) \<and>
            promises (snd (loadModel w')) = promises w' @ [Pending] \<and>
            pendingCount (snd (loadModel w')) = 1"
    using t1 p by blast
  then have c: "loadingPromise (attemptEnds Worker 0 (Inl (Error ''Response body is null'')) ?w) = None \<and>
     pendingCount (snd (loadModel (attemptEnds Worker 0 (Inl (Error ''Response body is null'')) ?w))) = 1"
    unfolding Let_def by blast
  show ?thesis using p s a b c by blast
qed

section \<open>Properties of the worker\<close>

lemma answers_terminalsFor: "answers r w = terminalsFor r (posted w)"
  by (simp add: answers_def terminalsFor_def)

lemma terminalsFor_append: "terminalsFor r (xs @ ys) = terminalsFor r xs @ terminalsFor r ys"
  by (simp add: terminalsFor_def)

lemma terminalsFor_none:
  "(\<forall>(q, m) \<in> set ps. isTerminal m \<longrightarrow> q \<noteq> r) \<Longrightarrow> terminalsFor r ps = []"
  by (auto simp: terminalsFor_def filter_empty_conv)

lemma terminalsFor_single:
  "terminalsFor r [(q, m)] = (if q = r \<and> isTerminal m then [m] else [])"
  by (simp add: terminalsFor_def)

lemma terminalsFor_progress:
  "terminalsFor r (map (\<lambda>pc. (o', LoadProgress pc)) xs) = []"
  by (induction xs) (simp_all add: terminalsFor_def isTerminal_def)

lemma terminalsFor_resumed:
  assumes "distinct (map fst xs)" "isTerminal t"
  shows "terminalsFor r (map (\<lambda>(r', q). (r', t)) xs) = (if r \<in> fst ` set xs then [t] else [])"
  using assms
proof (induction xs)
  case Nil
  then show ?case by (simp add: terminalsFor_def)
next
  case (Cons x xs)
  obtain a b where x: "x = (a, b)" by (cases x)
  have d: "distinct (map fst xs)" "a \<notin> fst ` set xs" using Cons.prems x by auto
  have IH: "terminalsFor r (map (\<lambda>(r', q). (r', t)) xs) = (if r \<in> fst ` set xs then [t] else [])"
    using Cons.IH d Cons.prems by simp
  have "terminalsFor r (map (\<lambda>(r', q). (r', t)) (x # xs)) =
        terminalsFor r [(a, t)] @ terminalsFor r (map (\<lambda>(r', q). (r', t)) xs)"
    unfolding x by (simp add: terminalsFor_def)
  then show ?case
    unfolding IH terminalsFor_single x using d Cons.prems(2) by auto
qed

lemma fold_postMessage:
  "fold (\<lambda>x. postMessage (f x) (g x)) xs w = w\<lparr>posted := posted w @ map (\<lambda>x. (f x, g x)) xs\<rparr>"
  by (induction xs arbitrary: w) (simp_all add: postMessage_def)

lemma workerRun_append: "workerRun (es @ fs) w = workerRun fs (workerRun es w)"
  by (induction es arbitrary: w) simp_all

lemma requests_append: "requests (es @ fs) = requests es @ requests fs"
  by (induction es rule: requests.induct) simp_all

lemma workerInvI:
  assumes "loaderInv w"
    and "\<And>p. session w = None \<Longrightarrow> loadingPromise w = Some p \<Longrightarrow> promises w ! p = Pending"
    and "received w = length reqs"
    and "\<And>r p. (r, p) \<in> set (waiting w) \<Longrightarrow>
           r < received w \<and> p < length (promises w) \<and> promises w ! p = Pending \<and> reqs ! r = Load"
    and "distinct (map fst (waiting w))"
    and "\<And>r m. (r, m) \<in> set (posted w) \<Longrightarrow> isTerminal m \<Longrightarrow> r < received w"
    and "\<And>r. r < received w \<Longrightarrow>
           (if r \<in> fst ` set (waiting w) then terminalsFor r (posted w) = []
            else (\<exists>a. terminalsFor r (posted w) = [a] \<and> answerFor (reqs ! r) a))"
  shows "workerInv reqs w"
  unfolding workerInv_def using assms by blast

lemma wI_loader: "workerInv reqs w \<Longrightarrow> loaderInv w"
  unfolding workerInv_def by blast

lemma wI_K: "workerInv reqs w \<Longrightarrow> session w = None \<Longrightarrow> loadingPromise w = Some p \<Longrightarrow> promises w ! p = Pending"
  unfolding workerInv_def by blast

lemma wI_recv: "workerInv reqs w \<Longrightarrow> received w = length reqs"
  unfolding workerInv_def by blast

lemma wI_wait: "workerInv reqs w \<Longrightarrow> (r, p) \<in> set (waiting w) \<Longrightarrow>
     r < received w \<and> p < length (promises w) \<and> promises w ! p = Pending \<and> reqs ! r = Load"
  unfolding workerInv_def by blast

lemma wI_dist: "workerInv reqs w \<Longrightarrow> distinct (map fst (waiting w))"
  unfolding workerInv_def by blast

lemma wI_posted: "workerInv reqs w \<Longrightarrow> (r, m) \<in> set (posted w) \<Longrightarrow> isTerminal m \<Longrightarrow> r < received w"
  unfolding workerInv_def by blast

lemma wI_ans: "workerInv reqs w \<Longrightarrow> r < received w \<Longrightarrow>
     (if r \<in> fst ` set (waiting w) then terminalsFor r (posted w) = []
      else (\<exists>a. terminalsFor r (posted w) = [a] \<and> answerFor (reqs ! r) a))"
  unfolding workerInv_def by blast

lemma wI_fresh:
  assumes "workerInv reqs w"
  shows "received w \<notin> fst ` set (waiting w) \<and> terminalsFor (received w) (posted w) = []"
proof
  show "received w \<notin> fst ` set (waiting w)"
  proof
    assume "received w \<in> fst ` set (waiting w)"
    then obtain p where "(received w, p) \<in> set (waiting w)" by auto
    then have "received w < received w" using wI_wait[OF assms] by blast
    then show False by simp
  qed
  have "\<forall>(q, m) \<in> set (posted w). isTerminal m \<longrightarrow> q \<noteq> received w"
    using wI_posted[OF assms] by fastforce
  then show "terminalsFor (received w) (posted w) = []" by (rule terminalsFor_none)
qed

lemma loaderInv_more:
  assumes "session w' = session w" "loadingPromise w' = loadingPromise w" "promises w' = promises w"
    and "loaderInv w"
  shows "loaderInv w'"
proof -
  have a: "\<forall>p < length (promises w). promises w ! p = Pending \<longrightarrow>
        loadingPromise w = Some p \<and> session w = None"
    and b: "\<forall>p. loadingPromise w = Some p \<longrightarrow> p < length (promises w)"
    using assms(4) unfolding loaderInv_def by blast+
  show ?thesis
    unfolding loaderInv_def
    by (simp only: assms(1-3)) (use a b in blast)
qed

lemma inv_post_new:
  assumes inv: "workerInv reqs w" and a: "answerFor m a" and t: "isTerminal a"
  shows "workerInv (reqs @ [m]) (w\<lparr>received := received w + 1, posted := posted w @ [(received w, a)]\<rparr>)"
proof (rule workerInvI)
  let ?w = "w\<lparr>received := received w + 1, posted := posted w @ [(received w, a)]\<rparr>"
  note n = wI_recv[OF inv]
  note fresh = wI_fresh[OF inv]
  show "loaderInv ?w" by (rule loaderInv_more[OF _ _ _ wI_loader[OF inv]]) simp_all
  show "\<And>p. session ?w = None \<Longrightarrow> loadingPromise ?w = Some p \<Longrightarrow> promises ?w ! p = Pending"
    using wI_K[OF inv] by simp
  show "received ?w = length (reqs @ [m])" using n by simp
  show "\<And>r p. (r, p) \<in> set (waiting ?w) \<Longrightarrow>
           r < received ?w \<and> p < length (promises ?w) \<and> promises ?w ! p = Pending \<and>
           (reqs @ [m]) ! r = Load"
  proof -
    fix r p assume "(r, p) \<in> set (waiting ?w)"
    then have "(r, p) \<in> set (waiting w)" by simp
    then have "r < received w \<and> p < length (promises w) \<and> promises w ! p = Pending \<and> reqs ! r = Load"
      by (rule wI_wait[OF inv])
    then show "r < received ?w \<and> p < length (promises ?w) \<and> promises ?w ! p = Pending \<and>
           (reqs @ [m]) ! r = Load"
      using n by (simp add: nth_append)
  qed
  show "distinct (map fst (waiting ?w))" using wI_dist[OF inv] by simp
  show "\<And>r m'. (r, m') \<in> set (posted ?w) \<Longrightarrow> isTerminal m' \<Longrightarrow> r < received ?w"
  proof -
    fix r m' assume "(r, m') \<in> set (posted ?w)" and tm: "isTerminal m'"
    then have "(r, m') \<in> set (posted w) \<or> r = received w" by auto
    then show "r < received ?w"
    proof
      assume "(r, m') \<in> set (posted w)"
      then have "r < received w" using tm by (rule wI_posted[OF inv])
      then show ?thesis by simp
    next
      assume "r = received w" then show ?thesis by simp
    qed
  qed
  show "\<And>r. r < received ?w \<Longrightarrow>
           (if r \<in> fst ` set (waiting ?w) then terminalsFor r (posted ?w) = []
            else (\<exists>b. terminalsFor r (posted ?w) = [b] \<and> answerFor ((reqs @ [m]) ! r) b))"
  proof -
    fix r assume "r < received ?w"
    then have r: "r < received w \<or> r = received w" by auto
    show "if r \<in> fst ` set (waiting ?w) then terminalsFor r (posted ?w) = []
            else (\<exists>b. terminalsFor r (posted ?w) = [b] \<and> answerFor ((reqs @ [m]) ! r) b)"
    proof (cases "r = received w")
      case True
      have "terminalsFor r (posted ?w) = [a]"
        using fresh True t by (simp add: terminalsFor_append terminalsFor_single)
      moreover have "(reqs @ [m]) ! r = m" using True n by simp
      ultimately show ?thesis using fresh True a by simp
    next
      case False
      then have lt: "r < received w" using r by simp
      have same: "terminalsFor r (posted ?w) = terminalsFor r (posted w)"
        using False by (simp add: terminalsFor_append terminalsFor_single)
      have idx: "(reqs @ [m]) ! r = reqs ! r" using lt n by (simp add: nth_append)
      show ?thesis using wI_ans[OF inv lt] unfolding same idx by simp
    qed
  qed
qed

lemma inv_wait_new:
  assumes inv: "workerInv reqs w" and p: "p < length (promises w)" "promises w ! p = Pending"
  shows "workerInv (reqs @ [Load]) (w\<lparr>received := received w + 1, waiting := waiting w @ [(received w, p)]\<rparr>)"
proof (rule workerInvI)
  let ?w = "w\<lparr>received := received w + 1, waiting := waiting w @ [(received w, p)]\<rparr>"
  note n = wI_recv[OF inv]
  note fresh = wI_fresh[OF inv]
  show "loaderInv ?w" by (rule loaderInv_more[OF _ _ _ wI_loader[OF inv]]) simp_all
  show "\<And>p. session ?w = None \<Longrightarrow> loadingPromise ?w = Some p \<Longrightarrow> promises ?w ! p = Pending"
    using wI_K[OF inv] by simp
  show "received ?w = length (reqs @ [Load])" using n by simp
  show "\<And>r q. (r, q) \<in> set (waiting ?w) \<Longrightarrow>
           r < received ?w \<and> q < length (promises ?w) \<and> promises ?w ! q = Pending \<and>
           (reqs @ [Load]) ! r = Load"
  proof -
    fix r q assume "(r, q) \<in> set (waiting ?w)"
    then have c: "(r, q) \<in> set (waiting w) \<or> (r = received w \<and> q = p)" by auto
    show "r < received ?w \<and> q < length (promises ?w) \<and> promises ?w ! q = Pending \<and>
           (reqs @ [Load]) ! r = Load"
    proof (cases "(r, q) \<in> set (waiting w)")
      case True
      then have "r < received w \<and> q < length (promises w) \<and> promises w ! q = Pending \<and> reqs ! r = Load"
        by (rule wI_wait[OF inv])
      then show ?thesis using n by (simp add: nth_append)
    next
      case False
      then have "r = received w \<and> q = p" using c by blast
      then show ?thesis using p n by simp
    qed
  qed
  show "distinct (map fst (waiting ?w))" using wI_dist[OF inv] fresh by simp
  show "\<And>r m'. (r, m') \<in> set (posted ?w) \<Longrightarrow> isTerminal m' \<Longrightarrow> r < received ?w"
  proof -
    fix r m' assume "(r, m') \<in> set (posted ?w)" and tm: "isTerminal m'"
    then have "(r, m') \<in> set (posted w)" by simp
    then have "r < received w" using tm by (rule wI_posted[OF inv])
    then show "r < received ?w" by simp
  qed
  show "\<And>r. r < received ?w \<Longrightarrow>
           (if r \<in> fst ` set (waiting ?w) then terminalsFor r (posted ?w) = []
            else (\<exists>b. terminalsFor r (posted ?w) = [b] \<and> answerFor ((reqs @ [Load]) ! r) b))"
  proof -
    fix r assume "r < received ?w"
    then have r: "r < received w \<or> r = received w" by auto
    show "if r \<in> fst ` set (waiting ?w) then terminalsFor r (posted ?w) = []
            else (\<exists>b. terminalsFor r (posted ?w) = [b] \<and> answerFor ((reqs @ [Load]) ! r) b)"
    proof (cases "r = received w")
      case True
      then show ?thesis using fresh by simp
    next
      case False
      then have lt: "r < received w" using r by simp
      have idx: "(reqs @ [Load]) ! r = reqs ! r" using lt n by (simp add: nth_append)
      have mem: "(r \<in> fst ` set (waiting ?w)) = (r \<in> fst ` set (waiting w))"
        using False by auto
      have post: "posted ?w = posted w" by simp
      show ?thesis using wI_ans[OF inv lt] unfolding idx mem post by simp
    qed
  qed
qed

lemma inv_start:
  assumes inv: "workerInv reqs w" and s: "session w = None" and lp: "loadingPromise w = None"
  shows "workerInv reqs (w\<lparr>promises := promises w @ [Pending],
                            loadingPromise := Some (length (promises w)),
                            owners := os\<rparr>)"
proof (rule workerInvI)
  let ?w = "w\<lparr>promises := promises w @ [Pending],
              loadingPromise := Some (length (promises w)), owners := os\<rparr>"
  have "snd (loadModel w) =
          w\<lparr>promises := promises w @ [Pending], loadingPromise := Some (length (promises w))\<rparr>"
    using s lp by (simp add: loadModel_def Let_def)
  then have "loaderInv (w\<lparr>promises := promises w @ [Pending],
                           loadingPromise := Some (length (promises w))\<rparr>)"
    using loadModel_inv[OF wI_loader[OF inv]] by simp
  then show "loaderInv ?w" by (rule loaderInv_more[rotated 3]) simp_all
  show "\<And>p. session ?w = None \<Longrightarrow> loadingPromise ?w = Some p \<Longrightarrow> promises ?w ! p = Pending"
    by (auto simp: nth_append)
  show "received ?w = length reqs" using wI_recv[OF inv] by simp
  show "\<And>r p. (r, p) \<in> set (waiting ?w) \<Longrightarrow>
           r < received ?w \<and> p < length (promises ?w) \<and> promises ?w ! p = Pending \<and> reqs ! r = Load"
  proof -
    fix r p assume "(r, p) \<in> set (waiting ?w)"
    then have "(r, p) \<in> set (waiting w)" by simp
    then have "r < received w \<and> p < length (promises w) \<and> promises w ! p = Pending \<and> reqs ! r = Load"
      by (rule wI_wait[OF inv])
    then show "r < received ?w \<and> p < length (promises ?w) \<and> promises ?w ! p = Pending \<and> reqs ! r = Load"
      by (simp add: nth_append)
  qed
  show "distinct (map fst (waiting ?w))" using wI_dist[OF inv] by simp
  show "\<And>r m. (r, m) \<in> set (posted ?w) \<Longrightarrow> isTerminal m \<Longrightarrow> r < received ?w"
    using wI_posted[OF inv] by simp
  show "\<And>r. r < received ?w \<Longrightarrow>
           (if r \<in> fst ` set (waiting ?w) then terminalsFor r (posted ?w) = []
            else (\<exists>a. terminalsFor r (posted ?w) = [a] \<and> answerFor (reqs ! r) a))"
    using wI_ans[OF inv] by simp
qed

lemma loadSettled_post: "loadSettled r outcome w = postMessage r (settledResponse outcome) w"
  by (cases outcome) (simp_all add: loadSettled_def settledResponse_def)

lemma settledResponse_terminal: "isTerminal (settledResponse outcome) \<and> answerFor Load (settledResponse outcome)"
  by (cases outcome) (simp_all add: settledResponse_def isTerminal_def)

lemma fold_loadSettled:
  "fold (\<lambda>(r, q). loadSettled r outcome) xs w =
     w\<lparr>posted := posted w @ map (\<lambda>(r, q). (r, settledResponse outcome)) xs\<rparr>"
  by (induction xs arbitrary: w) (auto simp: loadSettled_post postMessage_def)

lemma attemptEnds_more:
  "attemptEnds c p outcome (w\<lparr>posted := ps\<rparr>) = (attemptEnds c p outcome w)\<lparr>posted := ps\<rparr>"
  by (cases outcome) (simp_all add: attemptEnds_def)

lemma attemptEnds_fields:
  "waiting (attemptEnds c p outcome w) = waiting w \<and>
   posted (attemptEnds c p outcome w) = posted w \<and>
   received (attemptEnds c p outcome w) = received w \<and>
   owners (attemptEnds c p outcome w) = owners w \<and>
   length (promises (attemptEnds c p outcome w)) = length (promises w)"
  by (cases outcome) (simp_all add: attemptEnds_def)

lemma workerAttemptEnds_skip:
  "\<not> (p < length (promises w) \<and> promises w ! p = Pending) \<Longrightarrow> workerAttemptEnds p env w = w"
  unfolding workerAttemptEnds_def by (rule if_not_P)

lemma workerAttemptEnds_eq:
  assumes "p < length (promises w)" "promises w ! p = Pending"
  shows "workerAttemptEnds p env w =
     (attemptEnds Worker p (snd (loadAttempt Worker env)) w)
       \<lparr>waiting := filter (\<lambda>(r, q). q \<noteq> p) (waiting w),
        posted := posted w @
                  map (\<lambda>pc. (owners w ! p, LoadProgress pc)) (fst (loadAttempt Worker env)) @
                  map (\<lambda>(r, q). (r, settledResponse (snd (loadAttempt Worker env))))
                    (filter (\<lambda>(r, q). q = p) (waiting w))\<rparr>"
proof -
  obtain progress outcome where la: "loadAttempt Worker env = (progress, outcome)"
    by (cases "loadAttempt Worker env")
  show ?thesis
    using assms
    by (simp add: workerAttemptEnds_def la Let_def fold_postMessage fold_loadSettled
        attemptEnds_more attemptEnds_fields)
qed

lemma inv_ends:
  assumes inv: "workerInv reqs w"
  shows "workerInv reqs (workerAttemptEnds p env w)"
proof (cases "p < length (promises w) \<and> promises w ! p = Pending")
  case False
  show ?thesis using inv workerAttemptEnds_skip[OF False, of env] by simp
next
  case True
  define outcome where "outcome = snd (loadAttempt Worker env)"
  define progress where "progress = fst (loadAttempt Worker env)"
  define t where "t = settledResponse outcome"
  define resumed where "resumed = filter (\<lambda>(r, q). q = p) (waiting w)"
  define rest where "rest = filter (\<lambda>(r, q). q \<noteq> p) (waiting w)"
  define ps where "ps = posted w @ map (\<lambda>pc. (owners w ! p, LoadProgress pc)) progress @
                        map (\<lambda>(r, q). (r, t)) resumed"
  let ?a = "attemptEnds Worker p outcome w"
  let ?w = "?a\<lparr>waiting := rest, posted := ps\<rparr>"
  have eq: "workerAttemptEnds p env w = ?w"
    using workerAttemptEnds_eq[of p w env] True
    unfolding outcome_def progress_def t_def resumed_def rest_def ps_def by simp
  note af = attemptEnds_fields[of Worker p outcome w]
  have tt: "isTerminal t" "answerFor Load t"
    using settledResponse_terminal[of outcome] unfolding t_def by simp_all
  have dist: "distinct (map fst (waiting w))" by (rule wI_dist[OF inv])
  have dres: "distinct (map fst resumed)" unfolding resumed_def using dist by (rule distinct_map_filter)
  have drest: "distinct (map fst rest)" unfolding rest_def using dist by (rule distinct_map_filter)
  have parts: "\<And>r. r \<in> fst ` set (waiting w) \<longleftrightarrow> r \<in> fst ` set resumed \<or> r \<in> fst ` set rest"
    unfolding resumed_def rest_def by force
  have disj: "\<And>r. r \<in> fst ` set resumed \<Longrightarrow> r \<notin> fst ` set rest"
  proof
    fix r assume "r \<in> fst ` set resumed" "r \<in> fst ` set rest"
    then obtain q q' where m: "(r, q) \<in> set (waiting w)" "q = p" "(r, q') \<in> set (waiting w)" "q' \<noteq> p"
      unfolding resumed_def rest_def by auto
    have "q = q'" using dist m(1,3) by (meson eq_key_imp_eq_value)
    then show False using m by simp
  qed
  have tps: "\<And>r. terminalsFor r ps =
          terminalsFor r (posted w) @ (if r \<in> fst ` set resumed then [t] else [])"
    unfolding ps_def by (simp add: terminalsFor_append terminalsFor_progress terminalsFor_resumed[OF dres tt(1)])
  have keep: "\<And>q. q < length (promises w) \<Longrightarrow> q \<noteq> p \<Longrightarrow> promises ?a ! q = promises w ! q"
    using True by (cases outcome) (simp_all add: attemptEnds_def)
  show ?thesis
    unfolding eq
  proof (rule workerInvI)
    show "loaderInv ?w"
      by (rule loaderInv_more[OF _ _ _ attemptEnds_inv[OF wI_loader[OF inv], of Worker p outcome]]) simp_all
    show "\<And>q. session ?w = None \<Longrightarrow> loadingPromise ?w = Some q \<Longrightarrow> promises ?w ! q = Pending"
      using True by (cases outcome) (simp_all add: attemptEnds_def)
    show "received ?w = length reqs" using wI_recv[OF inv] af by simp
    show "\<And>r q. (r, q) \<in> set (waiting ?w) \<Longrightarrow>
           r < received ?w \<and> q < length (promises ?w) \<and> promises ?w ! q = Pending \<and> reqs ! r = Load"
    proof -
      fix r q assume "(r, q) \<in> set (waiting ?w)"
      then have m: "(r, q) \<in> set (waiting w)" "q \<noteq> p" unfolding rest_def by auto
      have old: "r < received w \<and> q < length (promises w) \<and> promises w ! q = Pending \<and> reqs ! r = Load"
        using m(1) by (rule wI_wait[OF inv])
      then show "r < received ?w \<and> q < length (promises ?w) \<and> promises ?w ! q = Pending \<and> reqs ! r = Load"
        using af keep[of q] m(2) by simp
    qed
    show "distinct (map fst (waiting ?w))" using drest by simp
    show "\<And>r m. (r, m) \<in> set (posted ?w) \<Longrightarrow> isTerminal m \<Longrightarrow> r < received ?w"
    proof -
      fix r m assume "(r, m) \<in> set (posted ?w)" and tm: "isTerminal m"
      then have "(r, m) \<in> set (posted w) \<or>
                 (r, m) \<in> set (map (\<lambda>pc. (owners w ! p, LoadProgress pc)) progress) \<or>
                 (r, m) \<in> set (map (\<lambda>(r, q). (r, t)) resumed)"
        unfolding ps_def by auto
      then show "r < received ?w"
      proof (elim disjE)
        assume "(r, m) \<in> set (posted w)"
        then have "r < received w" using tm by (rule wI_posted[OF inv])
        then show ?thesis using af by simp
      next
        assume "(r, m) \<in> set (map (\<lambda>pc. (owners w ! p, LoadProgress pc)) progress)"
        then have "\<not> isTerminal m" by (auto simp: isTerminal_def)
        then show ?thesis using tm by simp
      next
        assume "(r, m) \<in> set (map (\<lambda>(r, q). (r, t)) resumed)"
        then obtain q where "(r, q) \<in> set (waiting w)" unfolding resumed_def by auto
        then have "r < received w" using wI_wait[OF inv] by blast
        then show ?thesis using af by simp
      qed
    qed
    show "\<And>r. r < received ?w \<Longrightarrow>
           (if r \<in> fst ` set (waiting ?w) then terminalsFor r (posted ?w) = []
            else (\<exists>a. terminalsFor r (posted ?w) = [a] \<and> answerFor (reqs ! r) a))"
    proof -
      fix r assume "r < received ?w"
      then have lt: "r < received w" using af by simp
      note old = wI_ans[OF inv lt]
      have w': "waiting ?w = rest" "posted ?w = ps" by simp_all
      show "if r \<in> fst ` set (waiting ?w) then terminalsFor r (posted ?w) = []
            else (\<exists>a. terminalsFor r (posted ?w) = [a] \<and> answerFor (reqs ! r) a)"
      proof (cases "r \<in> fst ` set rest")
        case inrest: True
        then have nores: "r \<notin> fst ` set resumed" using disj by blast
        have "r \<in> fst ` set (waiting w)" using inrest parts by blast
        then have "terminalsFor r (posted w) = []" using old by simp
        then show ?thesis unfolding w' tps using inrest nores by simp
      next
        case notrest: False
        show ?thesis
        proof (cases "r \<in> fst ` set resumed")
          case True
          then obtain q where rq: "(r, q) \<in> set (waiting w)" unfolding resumed_def by auto
          then have ld: "reqs ! r = Load" using wI_wait[OF inv] by blast
          have "r \<in> fst ` set (waiting w)" using True parts by blast
          then have "terminalsFor r (posted w) = []" using old by simp
          then show ?thesis unfolding w' tps using notrest True tt ld by simp
        next
          case False
          then have "r \<notin> fst ` set (waiting w)" using notrest parts by blast
          then have "\<exists>a. terminalsFor r (posted w) = [a] \<and> answerFor (reqs ! r) a" using old by simp
          then show ?thesis unfolding w' tps using notrest False by simp
        qed
      qed
    qed
  qed
qed

lemma inv_receive_load:
  assumes inv: "workerInv reqs w"
  shows "workerInv (reqs @ [Load]) (onmessage (received w) Load env (w\<lparr>received := received w + 1\<rparr>))"
proof (cases "session w")
  case (Some s)
  have "onmessage (received w) Load env (w\<lparr>received := received w + 1\<rparr>) =
        w\<lparr>received := received w + 1, posted := posted w @ [(received w, LoadComplete)]\<rparr>"
    using Some by (simp add: loadModel_def loadSettled_def postMessage_def)
  then show ?thesis
    using inv_post_new[OF inv, of Load LoadComplete] by (simp add: isTerminal_def)
next
  case None
  show ?thesis
  proof (cases "loadingPromise w")
    case (Some p)
    have lt: "p < length (promises w)" using wI_loader[OF inv] Some unfolding loaderInv_def by blast
    have pend: "promises w ! p = Pending" using wI_K[OF inv None Some] .
    have "onmessage (received w) Load env (w\<lparr>received := received w + 1\<rparr>) =
          w\<lparr>received := received w + 1, waiting := waiting w @ [(received w, p)]\<rparr>"
      using None Some lt pend by (simp add: loadModel_def)
    then show ?thesis using inv_wait_new[OF inv lt pend] by simp
  next
    case lp: None
    let ?w1 = "w\<lparr>promises := promises w @ [Pending],
                 loadingPromise := Some (length (promises w)),
                 owners := owners w @ [received w]\<rparr>"
    have i1: "workerInv reqs ?w1" by (rule inv_start[OF inv None lp])
    have "onmessage (received w) Load env (w\<lparr>received := received w + 1\<rparr>) =
          ?w1\<lparr>received := received ?w1 + 1,
               waiting := waiting ?w1 @ [(received ?w1, length (promises w))]\<rparr>"
      using None lp by (simp add: loadModel_def Let_def)
    moreover have "workerInv (reqs @ [Load])
          (?w1\<lparr>received := received ?w1 + 1,
               waiting := waiting ?w1 @ [(received ?w1, length (promises w))]\<rparr>)"
      by (rule inv_wait_new[OF i1]) simp_all
    ultimately show ?thesis by simp
  qed
qed

lemma onmessage_process:
  "onmessage r (Process imageData maskData ow oh) env w =
     w\<lparr>posted := posted w @
        [(r, case snd (processImage w env imageData maskData ow oh) of
               Inr resultData \<Rightarrow> ProcessComplete resultData
             | Inl e \<Rightarrow> ProcessError (errorMessage e))]\<rparr>"
  by (cases "snd (processImage w env imageData maskData ow oh)") (simp_all add: postMessage_def)

lemma processImage_more:
  "processImage (w\<lparr>received := n\<rparr>) env i m ow oh = processImage w env i m ow oh"
  by (simp add: processImage_def Let_def split: option.splits sum.splits)

lemma inv_receive_process:
  assumes inv: "workerInv reqs w"
  shows "workerInv (reqs @ [Process i m ow oh])
           (onmessage (received w) (Process i m ow oh) env (w\<lparr>received := received w + 1\<rparr>))"
proof -
  define a where "a = (case snd (processImage w env i m ow oh) of
               Inr resultData \<Rightarrow> ProcessComplete resultData
             | Inl e \<Rightarrow> ProcessError (errorMessage e))"
  have ta: "isTerminal a" "answerFor (Process i m ow oh) a"
    unfolding a_def by (cases "snd (processImage w env i m ow oh)"; simp add: isTerminal_def)+
  have "onmessage (received w) (Process i m ow oh) env (w\<lparr>received := received w + 1\<rparr>) =
        w\<lparr>received := received w + 1, posted := posted w @ [(received w, a)]\<rparr>"
    unfolding onmessage_process a_def by (simp add: processImage_more)
  then show ?thesis using inv_post_new[OF inv ta(2) ta(1)] by simp
qed

lemma workerStep_inv:
  assumes "workerInv reqs w"
  shows "workerInv (reqs @ requests [e]) (workerStep e w)"
proof (cases e)
  case (Receive m env)
  show ?thesis
  proof (cases m)
    case Load
    then show ?thesis using Receive inv_receive_load[OF assms, of env] by simp
  next
    case (Process i k ow oh)
    then show ?thesis using Receive inv_receive_process[OF assms, of i k ow oh env] by simp
  qed
next
  case (LoadEnds p env)
  then show ?thesis using inv_ends[OF assms, of p env] by simp
qed

lemma initialWorker_inv: "workerInv [] initialWorker"
  by (rule workerInvI) (simp_all add: initialWorker_def loaderInv_def)

lemma workerRun_inv: "workerInv (requests evs) (workerRun evs initialWorker)"
proof (induction evs rule: rev_induct)
  case Nil
  then show ?case by (simp add: initialWorker_inv)
next
  case (snoc e evs)
  show ?case
    using workerStep_inv[OF snoc.IH, of e]
    by (simp add: workerRun_append requests_append)
qed

lemma waiting_pending:
  assumes inv: "workerInv reqs w" and z: "pendingCount w = 0"
  shows "waiting w = []"
proof (rule ccontr)
  assume "waiting w \<noteq> []"
  then obtain r p where m: "(r, p) \<in> set (waiting w)" by (cases "waiting w") auto
  then have "p < length (promises w)" "promises w ! p = Pending"
    using wI_wait[OF inv m] by simp_all
  then have "0 < pendingCount w" unfolding pendingCount_def by (rule filter_some)
  then show False using z by simp
qed

text \<open>
  Claim C3. After any sequence of received messages and ended load attempts, every
  request has at most one terminal response, of the kind of the request (load-complete
  or load-error for a load, process-complete or process-error for a process request); a
  request has none only while the load attempt it awaits is still pending, and once no
  attempt is pending every request has exactly one. A failure of \<open>processImage\<close> or
  of the awaited load is turned into the error response carrying its message.
\<close>

theorem worker_answers_every_request:
  "(let w = workerRun evs initialWorker; reqs = requests evs
    in received w = length reqs \<and>
       (\<forall>r < length reqs.
          (answers r w = [] \<and> reqs ! r = Load \<and>
           (\<exists>p < length (promises w). (r, p) \<in> set (waiting w) \<and> promises w ! p = Pending)) \<or>
          (\<exists>a. answers r w = [a] \<and> answerFor (reqs ! r) a)) \<and>
       (pendingCount w = 0 \<longrightarrow>
          (\<forall>r < length reqs. \<exists>a. answers r w = [a] \<and> answerFor (reqs ! r) a))) \<and>
   (snd (processImage w0 env imageData maskData originalWidth originalHeight) = Inl e \<longrightarrow>
      posted (onmessage r0 (Process imageData maskData originalWidth originalHeight) env w0) =
        posted w0 @ [(r0, ProcessError (errorMessage e))]) \<and>
   (snd (processImage w0 env imageData maskData originalWidth originalHeight) = Inr resultData \<longrightarrow>
      posted (onmessage r0 (Process imageData maskData originalWidth originalHeight) env w0) =
        posted w0 @ [(r0, ProcessComplete resultData)]) \<and>
   posted (loadSettled r0 (Inl e) w0) = posted w0 @ [(r0, LoadError (errorMessage e))] \<and>
   posted (loadSettled r0 (Inr s) w0) = posted w0 @ [(r0, LoadComplete)]"
proof -
  let ?w = "workerRun evs initialWorker" and ?reqs = "requests evs"
  have inv: "workerInv ?reqs ?w" by (rule workerRun_inv)
  have n: "received ?w = length ?reqs" by (rule wI_recv[OF inv])
  have each: "(answers r ?w = [] \<and> ?reqs ! r = Load \<and>
           (\<exists>p < length (promises ?w). (r, p) \<in> set (waiting ?w) \<and> promises ?w ! p = Pending)) \<or>
          (\<exists>a. answers r ?w = [a] \<and> answerFor (?reqs ! r) a)" if r: "r < length ?reqs" for r
  proof (cases "r \<in> fst ` set (waiting ?w)")
    case True
    then obtain p where m: "(r, p) \<in> set (waiting ?w)" by auto
    have "answers r ?w = []"
      using wI_ans[OF inv, of r] r n True by (simp add: answers_terminalsFor)
    then show ?thesis using wI_wait[OF inv m] m by blast
  next
    case False
    then show ?thesis
      using wI_ans[OF inv, of r] r n by (simp add: answers_terminalsFor)
  qed
  have alldone: "pendingCount ?w = 0 \<longrightarrow>
          (\<forall>r < length ?reqs. \<exists>a. answers r ?w = [a] \<and> answerFor (?reqs ! r) a)"
  proof (intro impI allI)
    fix r assume z: "pendingCount ?w = 0" and r: "r < length ?reqs"
    have "waiting ?w = []" by (rule waiting_pending[OF inv z])
    then show "\<exists>a. answers r ?w = [a] \<and> answerFor (?reqs ! r) a"
      using each[OF r] by auto
  qed
  have p1: "snd (processImage w0 env imageData maskData originalWidth originalHeight) = Inl e \<longrightarrow>
      posted (onmessage r0 (Process imageData maskData originalWidth originalHeight) env w0) =
        posted w0 @ [(r0, ProcessError (errorMessage e))]"
    by (simp add: postMessage_def)
  have p2: "snd (processImage w0 env imageData maskData originalWidth originalHeight) = Inr resultData \<longrightarrow>
      posted (onmessage r0 (Process imageData maskData originalWidth originalHeight) env w0) =
        posted w0 @ [(r0, ProcessComplete resultData)]"
    by (simp add: postMessage_def)
  have l1: "posted (loadSettled r0 (Inl e) w0) = posted w0 @ [(r0, LoadError (errorMessage e))]"
    and l2: "posted (loadSettled r0 (Inr s) w0) = posted w0 @ [(r0, LoadComplete)]"
    by (simp_all add: loadSettled_def postMessage_def)
  show ?thesis
    unfolding Let_def using n each alldone p1 p2 l1 l2 by blast
qed

text \<open>
  Claim C9. While no session exists (as at start-up, and still after a failed load), a
  process request is answered with the process-error \<open>Model not loaded\<close>, and neither
  tensor construction nor inference is reached.
\<close>

theorem process_before_model_loaded:
  "session initialWorker = None \<and>
   (session w = None \<and> snd (loadAttempt Worker lenv) = Inl e \<longrightarrow>
      session (workerAttemptEnds p lenv w) = None) \<and>
   (session w = None \<longrightarrow>
      processImage w env imageData maskData originalWidth originalHeight =
        ([], Inl (Error ''Model not loaded'')) \<and>
      onmessage r (Process imageData maskData originalWidth originalHeight) env w =
        w\<lparr>posted := posted w @ [(r, ProcessError ''Model not loaded'')]\<rparr>)"
proof (intro conjI impI)
  show "session initialWorker = None" by (simp add: initialWorker_def)
next
  assume a: "session w = None \<and> snd (loadAttempt Worker lenv) = Inl e"
  show "session (workerAttemptEnds p lenv w) = None"
  proof (cases "p < length (promises w) \<and> promises w ! p = Pending")
    case False
    then show ?thesis using a workerAttemptEnds_skip[OF False, of lenv] by simp
  next
    case True
    then show ?thesis using a
      by (simp add: workerAttemptEnds_eq attemptEnds_def)
  qed
next
  assume s: "session w = None"
  show "processImage w env imageData maskData originalWidth originalHeight =
        ([], Inl (Error ''Model not loaded''))"
    using s by (simp add: processImage_def)
  then show "onmessage r (Process imageData maskData originalWidth originalHeight) env w =
        w\<lparr>posted := posted w @ [(r, ProcessError ''Model not loaded'')]\<rparr>"
    by (simp add: postMessage_def errorMessage_def)
qed

lemma example_run:
  "workerRun exampleEvents initialWorker =
     \<lparr>session = None, loadingPromise = None, inputNames = [], outputNames = [],
      promises = [Rejected (Error ''Model file not found at /models/lama_fp32.onnx'')],
      waiting = [], owners = [0],
      posted = [(1, ProcessError ''Model not loaded''),
                (0, LoadError ''Model file not found at /models/lama_fp32.onnx'')],
      received = 2\<rparr>"
  by (simp add: exampleEvents_def initialWorker_def loadModel_def Let_def processImage_def
      postMessage_def errorMessage_def workerAttemptEnds_def loadAttempt_def downloadModel_def
      notFoundMessage_def MODEL_URL_def notFoundEnv_def
      attemptEnds_def loadSettled_def)

lemma percent_values:
  "binary64 (1 / 2) = Num (1 / 2)" "binary64 1 = Num 1" "binary64 50 = Num 50"
  "binary64 100 = Num 100"
  by (simp_all add: rounding_eval)

lemma ready_run:
  "workerRun [Receive Load exampleEnv, LoadEnds 0 downloadEnv] initialWorker = readyWorker"
  by (simp add: readyWorker_def initialWorker_def loadModel_def Let_def
      postMessage_def workerAttemptEnds_def loadAttempt_def downloadModel_def downloadEnv_def
      attemptEnds_def loadSettled_def exampleSession_def percent_values)

lemma ready_process:
  "snd (processImage readyWorker blankEnv examplePixel blackPixel 1 1) =
     Inr \<lparr>img_width = 1, img_height = 1, img_data = [0, 0, 0, 0]\<rparr>"
  by (simp add: processImage_def readyWorker_def exampleSession_def createMaskedInputTensors_def
      blankEnv_def Let_def nameAt_def tensorToImageData_def unexpectedFormat_def
      replicate_Suc numeral_eq_Suc)

theorem worker_answers_every_request_witness:
  "pendingCount (workerRun exampleEvents initialWorker) = 0 \<and>
   length (requests exampleEvents) = 2 \<and>
   requests exampleEvents ! 0 = Load \<and>
   answers 0 (workerRun exampleEvents initialWorker) =
     [LoadError ''Model file not found at /models/lama_fp32.onnx''] \<and>
   answers 1 (workerRun exampleEvents initialWorker) = [ProcessError ''Model not loaded''] \<and>
   snd (processImage initialWorker exampleEnv examplePixel blackPixel 1 1) =
     Inl (Error ''Model not loaded'') \<and>
   posted (onmessage 0 (Process examplePixel blackPixel 1 1) exampleEnv initialWorker) =
     [(0, ProcessError ''Model not loaded'')] \<and>
   workerRun [Receive Load exampleEnv, LoadEnds 0 downloadEnv] initialWorker = readyWorker \<and>
   answers 0 readyWorker = [LoadComplete] \<and>
   snd (processImage readyWorker blankEnv examplePixel blackPixel 1 1) =
     Inr \<lparr>img_width = 1, img_height = 1, img_data = [0, 0, 0, 0]\<rparr> \<and>
   posted (onmessage 1 (Process examplePixel blackPixel 1 1) blankEnv readyWorker) =
     posted readyWorker @
     [(1, ProcessComplete \<lparr>img_width = 1, img_height = 1, img_data = [0, 0, 0, 0]\<rparr>)]"
proof -
  let ?w = "workerRun exampleEvents initialWorker"
  have pc: "pendingCount ?w = 0" unfolding example_run by (simp add: pendingCount_def)
  have len: "length (requests exampleEvents) = 2"
    and r0: "requests exampleEvents ! 0 = Load"
    by (simp_all add: exampleEvents_def)
  have a0: "answers 0 ?w = [LoadError ''Model file not found at /models/lama_fp32.onnx'']"
    and a1: "answers 1 ?w = [ProcessError ''Model not loaded'']"
    unfolding example_run by (simp_all add: answers_def isTerminal_def)
  have pi: "snd (processImage initialWorker exampleEnv examplePixel blackPixel 1 1) =
     Inl (Error ''Model not loaded'')"
    by (simp add: processImage_def initialWorker_def)
  note t = worker_answers_every_request [of exampleEvents initialWorker exampleEnv examplePixel
      blackPixel 1 1 "Error ''Model not loaded''" 0, unfolded Let_def]
  have "\<forall>r < length (requests exampleEvents).
          \<exists>a. answers r ?w = [a] \<and> answerFor (requests exampleEvents ! r) a"
    using t pc by blast
  then have "\<exists>a. answers 0 ?w = [a] \<and> answerFor (requests exampleEvents ! 0) a"
    using len by simp
  moreover have "posted (onmessage 0 (Process examplePixel blackPixel 1 1) exampleEnv initialWorker) =
        posted initialWorker @ [(0, ProcessError (errorMessage (Error ''Model not loaded'')))]"
    using t pi by blast
  then have po: "posted (onmessage 0 (Process examplePixel blackPixel 1 1) exampleEnv initialWorker) =
     [(0, ProcessError ''Model not loaded'')]"
    by (simp add: initialWorker_def errorMessage_def)
  have ar: "answers 0 readyWorker = [LoadComplete]"
    by (simp add: answers_def readyWorker_def isTerminal_def)
  note u = worker_answers_every_request [where ?w0.0 = readyWorker and env = blankEnv
      and imageData = examplePixel and maskData = blackPixel and originalWidth = 1
      and originalHeight = 1 and ?r0.0 = 1
      and resultData = "\<lparr>img_width = 1, img_height = 1, img_data = [0, 0, 0, 0]\<rparr>"]
  have pr: "posted (onmessage 1 (Process examplePixel blackPixel 1 1) blankEnv readyWorker) =
     posted readyWorker @
     [(1, ProcessComplete \<lparr>img_width = 1, img_height = 1, img_data = [0, 0, 0, 0]\<rparr>)]"
    using u ready_process by blast
  show ?thesis using pc len r0 a0 a1 pi po ready_run ar ready_process pr by blast
qed

theorem process_before_model_loaded_witness:
  "session initialWorker = None \<and>
   snd (loadAttempt Worker notFoundEnv) = Inl (Error ''Model file not found at /models/lama_fp32.onnx'') \<and>
   session (workerAttemptEnds 0 notFoundEnv initialWorker) = None \<and>
   processImage initialWorker exampleEnv examplePixel blackPixel 1 1 =
     ([], Inl (Error ''Model not loaded'')) \<and>
   posted (onmessage 0 (Process examplePixel blackPixel 1 1) exampleEnv initialWorker) =
     [(0, ProcessError ''Model not loaded'')]"
proof -
  have s: "session initialWorker = None" by (simp add: initialWorker_def)
  have f: "snd (loadAttempt Worker notFoundEnv) =
             Inl (Error ''Model file not found at /models/lama_fp32.onnx'')"
    by (simp add: loadAttempt_def downloadModel_def notFoundMessage_def MODEL_URL_def notFoundEnv_def)
  note t = process_before_model_loaded [of initialWorker notFoundEnv
      "Error ''Model file not found at /models/lama_fp32.onnx''" 0 exampleEnv examplePixel blackPixel 1 1 0]
  have a: "session (workerAttemptEnds 0 notFoundEnv initialWorker) = None"
    using t s f by blast
  have b: "processImage initialWorker exampleEnv examplePixel blackPixel 1 1 =
     ([], Inl (Error ''Model not loaded''))"
    using t s by blast
  have "onmessage 0 (Process examplePixel blackPixel 1 1) exampleEnv initialWorker =
        initialWorker\<lparr>posted := posted initialWorker @ [(0, ProcessError ''Model not loaded'')]\<rparr>"
    using t s by blast
  then have c: "posted (onmessage 0 (Process examplePixel blackPixel 1 1) exampleEnv initialWorker) =
     [(0, ProcessError ''Model not loaded'')]"
    by (simp add: initialWorker_def)
  show ?thesis using s f a b c by blast
qed

section \<open>Properties of stroke interpolation\<close>

















section \<open>Properties of the head tags\<close>

lemma absoluteUrl_root: "absoluteUrl ''/'' = ''https://littlegoat.com.br/''"
  by (simp add: absoluteUrl_def resolveOnSite_def SITE_URL_def)

lemma root_canonical: "canonicalHrefs getRootSeo = [''https://littlegoat.com.br/'']"
  by (simp add: canonicalHrefs_def getRootSeo_def Let_def linkTag_def absoluteUrl_root)

text \<open>
  Claim C8 as stated fails in its first part: the canonical href is not the string
  \<open>SITE_URL\<close>.
\<close>

theorem root_canonical_counterexample:
  "canonicalHrefs getRootSeo = [''https://littlegoat.com.br/''] \<and>
   SITE_URL = ''https://littlegoat.com.br'' \<and>
   ''https://littlegoat.com.br/'' \<noteq> SITE_URL"
  by (simp add: root_canonical SITE_URL_def)

lemma root_scripts:
  "jsonLdScripts getRootSeo =
     [\<lparr>script_type = Some ''application/ld+json'', script_children = JSON_stringify defaultJsonLd\<rparr>]"
  by (simp add: jsonLdScripts_def getRootSeo_def Let_def)

lemma root_type:
  "jsonMember ''@type'' (JSON_stringify defaultJsonLd) = Some (JString ''SoftwareApplication'')"
  by (simp add: jsonMember_def defaultJsonLd_def)

lemma getIsoDate_unparsable: "date post = Some d \<Longrightarrow> dateGetTime api d = None \<Longrightarrow> getIsoDate api (date post) = None"
  by (simp add: getIsoDate_def)

lemma blog_properties:
  assumes "getIsoDate api (date post) = None"
  shows "set (metaProperties (getBlogPostSeo api post)) \<subseteq>
           {''og:type'', ''og:site_name'', ''og:url'', ''og:title'', ''og:description'', ''og:image'',
            ''twitter:card'', ''twitter:url'', ''twitter:title'', ''twitter:description'',
            ''twitter:image'', ''article:tag''}"
  using assms
  by (auto simp: metaProperties_def getBlogPostSeo_def Let_def metaProperty_def metaName_def
      metaTitle_def split: option.splits)

lemma blog_scripts:
  "jsonLdScripts (getBlogPostSeo api post) = scripts (getBlogPostSeo api post) \<and>
   length (scripts (getBlogPostSeo api post)) = 1"
  by (simp add: jsonLdScripts_def getBlogPostSeo_def Let_def)

lemma blog_json_dates:
  assumes "getIsoDate api (date post) = None"
  shows "jsonMember ''datePublished'' (script_children (hd (scripts (getBlogPostSeo api post)))) = None \<and>
         jsonMember ''dateModified'' (script_children (hd (scripts (getBlogPostSeo api post)))) = None \<and>
         jsonMember ''@type'' (script_children (hd (scripts (getBlogPostSeo api post)))) = Some (JString ''BlogPosting'')"
  using assms
  by (simp add: getBlogPostSeo_def Let_def jsonMember_def optStr_def)

text \<open>
  Claim C8, as amended. \<open>getRootSeo()\<close> has one canonical link, whose href is the site
  base URL followed by \<open>/\<close> (the base URL as \<open>absoluteUrl("/")\<close> serialises it), and
  exactly one script, a JSON-LD script whose document has \<open>@type\<close>
  \<open>SoftwareApplication\<close>. For a post whose date string does not parse,
  \<open>getBlogPostSeo\<close> emits no \<open>article:published_time\<close> or
  \<open>article:modified_time\<close> meta tag and its JSON-LD document has no
  \<open>datePublished\<close> or \<open>dateModified\<close> member.
\<close>

theorem seo_head_tags:
  "canonicalHrefs getRootSeo = [SITE_URL @ ''/''] \<and>
   scripts getRootSeo = jsonLdScripts getRootSeo \<and>
   length (jsonLdScripts getRootSeo) = 1 \<and>
   jsonMember ''@type'' (script_children (hd (jsonLdScripts getRootSeo))) =
     Some (JString ''SoftwareApplication'') \<and>
   (date post = Some d \<and> dateGetTime api d = None \<longrightarrow>
      ''article:published_time'' \<notin> set (metaProperties (getBlogPostSeo api post)) \<and>
      ''article:modified_time'' \<notin> set (metaProperties (getBlogPostSeo api post)) \<and>
      length (jsonLdScripts (getBlogPostSeo api post)) = 1 \<and>
      jsonMember ''datePublished''
        (script_children (hd (jsonLdScripts (getBlogPostSeo api post)))) = None \<and>
      jsonMember ''dateModified''
        (script_children (hd (jsonLdScripts (getBlogPostSeo api post)))) = None)"
proof (intro conjI impI)
  show "canonicalHrefs getRootSeo = [SITE_URL @ ''/'']"
    by (simp add: root_canonical SITE_URL_def)
  show "scripts getRootSeo = jsonLdScripts getRootSeo"
    by (simp add: jsonLdScripts_def getRootSeo_def Let_def)
  show "length (jsonLdScripts getRootSeo) = 1"
    by (simp add: root_scripts)
  show "jsonMember ''@type'' (script_children (hd (jsonLdScripts getRootSeo))) =
     Some (JString ''SoftwareApplication'')"
    by (simp add: root_scripts root_type)
next
  assume a: "date post = Some d \<and> dateGetTime api d = None"
  then have iso: "getIsoDate api (date post) = None"
    using getIsoDate_unparsable by blast
  note sub = blog_properties[OF iso]
  show "''article:published_time'' \<notin> set (metaProperties (getBlogPostSeo api post))"
    using sub by auto
  show "''article:modified_time'' \<notin> set (metaProperties (getBlogPostSeo api post))"
    using sub by auto
  show "length (jsonLdScripts (getBlogPostSeo api post)) = 1"
    using blog_scripts[of api post] by simp
  show "jsonMember ''datePublished''
        (script_children (hd (jsonLdScripts (getBlogPostSeo api post)))) = None"
    using blog_scripts[of api post] blog_json_dates[OF iso] by simp
  show "jsonMember ''dateModified''
        (script_children (hd (jsonLdScripts (getBlogPostSeo api post)))) = None"
    using blog_scripts[of api post] blog_json_dates[OF iso] by simp
qed

theorem seo_head_tags_witness:
  "date examplePost = Some ''soon'' \<and> dateGetTime exampleDate ''soon'' = None \<and>
   ''article:published_time'' \<notin> set (metaProperties (getBlogPostSeo exampleDate examplePost)) \<and>
   metaProperties (getBlogPostSeo exampleDate examplePost) =
     [''og:type'', ''og:site_name'', ''og:url'', ''og:title'', ''og:description'', ''og:image'',
      ''twitter:card'', ''twitter:url'', ''twitter:title'', ''twitter:description'',
      ''twitter:image'', ''article:tag''] \<and>
   jsonMember ''datePublished''
     (script_children (hd (jsonLdScripts (getBlogPostSeo exampleDate examplePost)))) = None"
proof -
  have h: "date examplePost = Some ''soon'' \<and> dateGetTime exampleDate ''soon'' = None"
    by (simp add: examplePost_def exampleDate_def)
  have m: "metaProperties (getBlogPostSeo exampleDate examplePost) =
     [''og:type'', ''og:site_name'', ''og:url'', ''og:title'', ''og:description'', ''og:image'',
      ''twitter:card'', ''twitter:url'', ''twitter:title'', ''twitter:description'',
      ''twitter:image'', ''article:tag'']"
    by (simp add: metaProperties_def getBlogPostSeo_def Let_def metaProperty_def metaName_def
        metaTitle_def examplePost_def exampleDate_def getIsoDate_def trim_def isSpace_def)
  from seo_head_tags [of examplePost "''soon''" exampleDate] h
  have "''article:published_time'' \<notin> set (metaProperties (getBlogPostSeo exampleDate examplePost)) \<and>
        jsonMember ''datePublished''
          (script_children (hd (jsonLdScripts (getBlogPostSeo exampleDate examplePost)))) = None"
    by blast
  then show ?thesis using h m by blast
qed

end
